(* ===== verification/Prelude.thy ===== *)
theory Prelude
  imports Main "HOL-Library.Word"
begin

text \<open>
  Shared vocabulary of the development.

  \<^item> Rust's failures as values: a panic (overflow check of a debug build, out-of-range index,
    \<open>unwrap\<close> of \<open>None\<close>, failed \<open>assert!\<close>, explicit \<open>panic!\<close>) and an \<open>std::io::Error\<close> are values
    of \<open>rust_error\<close>, and so is a raw-pointer access outside its object; a fallible computation returns \<open>'a res\<close>, and \<open>bind_r\<close> is the sequencing
    (the \<open>?\<close> operator, and the abort of a panic).
  \<^item> Machine integers: \<open>u8\<close> \<dots> \<open>u64\<close> are words where the code works bitwise. Sizes, addresses and
    block numbers are natural numbers with the width written out: \<open>chk w x\<close> is the overflow check
    of a \<open>w\<close>-bit operation, \<open>wrapping_add\<close> and \<open>wrapping_sub\<close> are Rust's methods on \<open>usize\<close>,
    \<open>as_u8\<close> \<dots> are the truncating casts.
  \<^item> Slices and vectors: indexing and slicing with Rust's bounds checks.
  \<^item> The named collections \<open>checked\<close> (what a checked operation returning \<open>Inr\<close> says) and
    \<open>align_simps\<close> (rounding to a multiple) that the component proofs use.
\<close>

named_theorems checked \<open>consequences of a checked operation having returned\<close>
named_theorems align_simps \<open>rounding up and down to a multiple\<close>

unbundle bit_operations_syntax

section \<open>Machine types\<close>

type_synonym u8 = "8 word"
type_synonym u16 = "16 word"
type_synonym u32 = "32 word"
type_synonym u64 = "64 word"

section \<open>Errors\<close>

datatype panic_kind =
    Overflow
  | OutOfBounds
  | CharBoundary
  | UnwrapNone
  | AssertFailed
  | Misaligned
  | DivideByZero
  | ExplicitPanic string

datatype rust_error =
    Panic panic_kind
  | IoError string
  | UndefinedBehaviour
  | StackOverflow
  | NonTermination

type_synonym 'a res = "rust_error + 'a"

definition bind_r :: "'a res \<Rightarrow> ('a \<Rightarrow> 'b res) \<Rightarrow> 'b res" where
  "bind_r r f = (case r of Inl e \<Rightarrow> Inl e | Inr x \<Rightarrow> f x)"

lemma bind_r_simps [simp]:
  "bind_r (Inl e) f = Inl e"
  "bind_r (Inr x) f = f x"
  by (simp_all add: bind_r_def)

lemma bind_r_Inr_iff:
  "bind_r r f = Inr y \<longleftrightarrow> (\<exists>x. r = Inr x \<and> f x = Inr y)"
  by (cases r) auto

lemma bind_r_InrE [elim!]:
  assumes "bind_r r f = Inr y"
  obtains x where "r = Inr x" "f x = Inr y"
  using assms by (auto simp: bind_r_Inr_iff)

lemma bind_r_Inr_right [simp]: "bind_r r Inr = r"
  by (cases r) auto

lemma bind_r_assoc: "bind_r (bind_r r f) g = bind_r r (\<lambda>x. bind_r (f x) g)"
  by (cases r) auto

lemma bind_r_cong [fundef_cong]:
  "r = r' \<Longrightarrow> (\<And>x. r' = Inr x \<Longrightarrow> f x = f' x) \<Longrightarrow> bind_r r f = bind_r r' f'"
  by (cases r') auto

definition assert_r :: "bool \<Rightarrow> unit res" where
  "assert_r b = (if b then Inr () else Inl (Panic AssertFailed))"

lemma assert_r_simps [simp]:
  "assert_r b = Inr u \<longleftrightarrow> b"
  "b \<Longrightarrow> assert_r b = Inr ()"
  by (auto simp: assert_r_def)

definition unwrap :: "'a option \<Rightarrow> 'a res" where
  "unwrap x = (case x of None \<Rightarrow> Inl (Panic UnwrapNone) | Some v \<Rightarrow> Inr v)"

lemma unwrap_simps [simp]:
  "unwrap (Some v) = Inr v"
  "unwrap None = Inl (Panic UnwrapNone)"
  "unwrap x = Inr v \<longleftrightarrow> x = Some v"
  by (auto simp: unwrap_def split: option.splits)

definition expect :: "string \<Rightarrow> 'a option \<Rightarrow> 'a res" where
  "expect msg x = (case x of None \<Rightarrow> Inl (Panic (ExplicitPanic msg)) | Some v \<Rightarrow> Inr v)"

lemma expect_simps [simp]: "expect msg (Some v) = Inr v" "expect msg x = Inr v \<longleftrightarrow> x = Some v"
  by (auto simp: expect_def split: option.splits)

text \<open>A \<open>for\<close> loop whose body may fail: it stops at the first failure.\<close>

primrec fold_r :: "('a \<Rightarrow> 's \<Rightarrow> 's res) \<Rightarrow> 'a list \<Rightarrow> 's \<Rightarrow> 's res" where
  "fold_r f [] s = Inr s"
| "fold_r f (x # xs) s = bind_r (f x s) (fold_r f xs)"

lemma fold_r_nil: "fold_r f [] = Inr"
  by (intro ext) simp

lemma fold_r_append: "fold_r f (xs @ ys) s = bind_r (fold_r f xs s) (fold_r f ys)"
proof (induction xs arbitrary: s)
  case (Cons x xs)
  then have "fold_r f (xs @ ys) = (\<lambda>s. bind_r (fold_r f xs s) (fold_r f ys))" by (intro ext)
  then show ?case by (simp add: bind_r_assoc)
qed simp

lemma fold_r_invariant:
  assumes "fold_r f xs s = Inr t" "P s"
    and "\<And>x s s'. x \<in> set xs \<Longrightarrow> P s \<Longrightarrow> f x s = Inr s' \<Longrightarrow> P s'"
  shows "P t"
  using assms
proof (induction xs arbitrary: s)
  case (Cons x xs)
  from Cons.prems(1) obtain s' where s': "f x s = Inr s'" "fold_r f xs s' = Inr t" by auto
  have "P s'" using Cons.prems(2,3) s'(1) by (meson list.set_intros(1))
  then show ?case using Cons.IH [OF s'(2)] Cons.prems(3) by (meson list.set_intros(2))
qed simp

lemma fold_r_cong [fundef_cong]:
  assumes "xs = ys" "s = t" "\<And>x a. x \<in> set ys \<Longrightarrow> f x a = g x a"
  shows "fold_r f xs s = fold_r g ys t"
proof -
  have "fold_r f ys t = fold_r g ys t"
    using assms(3)
  proof (induction ys arbitrary: t)
    case (Cons y ys)
    have "f y t = g y t" using Cons.prems by simp
    moreover have "fold_r f ys = fold_r g ys" using Cons by (intro ext) auto
    ultimately show ?case by simp
  qed simp
  with assms(1,2) show ?thesis by simp
qed

text \<open>Applying a fallible function to every element of a list, left to right.\<close>

primrec map_r :: "('a \<Rightarrow> 'b res) \<Rightarrow> 'a list \<Rightarrow> 'b list res" where
  "map_r f [] = Inr []"
| "map_r f (x # xs) = bind_r (f x) (\<lambda>y. bind_r (map_r f xs) (\<lambda>ys. Inr (y # ys)))"

lemma map_r_pure:
  "(\<And>x. x \<in> set xs \<Longrightarrow> f x = Inr (g x)) \<Longrightarrow> map_r f xs = Inr (map g xs)"
  by (induction xs) auto

lemma map_r_append:
  "map_r f (xs @ ys) = bind_r (map_r f xs) (\<lambda>as. bind_r (map_r f ys) (\<lambda>bs. Inr (as @ bs)))"
  by (induction xs) (simp_all add: bind_r_assoc)

lemma map_r_length: "map_r f xs = Inr ys \<Longrightarrow> length ys = length xs"
  by (induction xs arbitrary: ys) auto

lemma map_r_nth: "map_r f xs = Inr ys \<Longrightarrow> i < length xs \<Longrightarrow> f (xs ! i) = Inr (ys ! i)"
proof (induction xs arbitrary: ys i)
  case (Cons x xs)
  then show ?case by (cases i) auto
qed simp

text \<open>A loop that computes its elements on the way: when it returns, all of them were computed.\<close>

lemma fold_r_bind:
  assumes "fold_r (\<lambda>i s. bind_r (g i) (\<lambda>x. f x s)) is s = Inr t"
  shows "\<exists>xs. map_r g is = Inr xs \<and> fold_r f xs s = Inr t"
  using assms
proof (induction "is" arbitrary: s)
  case (Cons i "is")
  then obtain x s1 where x: "g i = Inr x" "f x s = Inr s1"
      "fold_r (\<lambda>i s. bind_r (g i) (\<lambda>x. f x s)) is s1 = Inr t" by auto
  from Cons.IH [OF x(3)] x(1,2) show ?case by auto
qed simp

lemma fold_r_bind_eq: "map_r g is = Inr xs \<Longrightarrow> fold_r (\<lambda>i s. bind_r (g i) (\<lambda>x. f x s)) is s = fold_r f xs s"
proof (induction "is" arbitrary: xs s)
  case (Cons i "is")
  then obtain x ys where "g i = Inr x" "map_r g is = Inr ys" "xs = x # ys" by auto
  moreover from Cons.IH [OF this(2)] have "fold_r (\<lambda>i s. bind_r (g i) (\<lambda>x. f x s)) is = fold_r f ys" by (intro ext)
  ultimately show ?case by simp
qed simp

text \<open>
  Mapping pages only ever adds to the tables: such relations of states are reflexive and transitive, and then a loop keeps what its body keeps, and
  every element had its turn.
\<close>

locale state_order =
  fixes le :: "'s \<Rightarrow> 's \<Rightarrow> bool"
  assumes state_refl: "le a a"
    and state_trans: "le a b \<Longrightarrow> le b c \<Longrightarrow> le a c"
begin

lemma fold_steps:
  assumes "fold_r f xs s = Inr t" "\<And>x a b. x \<in> set xs \<Longrightarrow> f x a = Inr b \<Longrightarrow> le a b"
  shows "le s t \<and> (\<forall>x \<in> set xs. \<exists>a b. le s a \<and> f x a = Inr b \<and> le b t)"
  using assms
proof (induction xs arbitrary: s)
  case (Cons x xs)
  then obtain s1 where s1: "f x s = Inr s1" "fold_r f xs s1 = Inr t" by auto
  have le: "le s s1" using Cons.prems(2) s1(1) by (meson list.set_intros(1))
  have IH: "le s1 t \<and> (\<forall>x \<in> set xs. \<exists>a b. le s1 a \<and> f x a = Inr b \<and> le b t)"
    using Cons.prems(2) by (intro Cons.IH [OF s1(2)]) (meson list.set_intros(2))
  have "\<exists>a b. le s a \<and> f y a = Inr b \<and> le b t" if "y \<in> set (x # xs)" for y
  proof (cases "y = x")
    case False
    with that obtain a b where "le s1 a" "f y a = Inr b" "le b t" using IH by auto
    with state_trans [OF le] show ?thesis by blast
  qed (use s1(1) IH state_refl in blast)
  moreover have "le s t" using state_trans le IH by blast
  ultimately show ?case by blast
qed (simp add: state_refl)

lemma fold_fst:
  assumes "fold_r f xs s = Inr t" "\<And>x a b. x \<in> set xs \<Longrightarrow> f x a = Inr b \<Longrightarrow> le (fst a) (fst b)"
  shows "le (fst s) (fst t)"
  using assms
proof (induction xs arbitrary: s)
  case (Cons x xs)
  then obtain s1 where s1: "f x s = Inr s1" "fold_r f xs s1 = Inr t" by auto
  have "le (fst s) (fst s1)" using Cons.prems(2) s1(1) by (meson list.set_intros(1))
  moreover have "le (fst s1) (fst t)" using Cons.prems(2) by (intro Cons.IH [OF s1(2)]) (meson list.set_intros(2))
  ultimately show ?case by (rule state_trans)
qed (simp add: state_refl)

end

lemma map_r_Inl:
  assumes "f x = Inl e" "x \<in> set xs" "\<And>y. y \<in> set xs \<Longrightarrow> f y = Inl e \<or> (\<exists>z. f y = Inr z)"
  shows "map_r f xs = Inl e"
  using assms(2,3)
proof (induction xs)
  case (Cons y ys)
  consider "f y = Inl e" | z where "f y = Inr z" using Cons.prems(2) [of y] by auto
  then show ?case
  proof cases
    case 2
    then have "x \<in> set ys" using Cons.prems(1) assms(1) by auto
    then show ?thesis using Cons 2 by simp
  qed simp
qed simp

text \<open>A loop over \<open>&mut\<close> elements that threads a state: the updated elements and the final state.\<close>

primrec map_state :: "('a \<Rightarrow> 's \<Rightarrow> ('b \<times> 's) res) \<Rightarrow> 'a list \<Rightarrow> 's \<Rightarrow> ('b list \<times> 's) res" where
  "map_state f [] s = Inr ([], s)"
| "map_state f (x # xs) s =
     bind_r (f x s) (\<lambda>(y, s1). bind_r (map_state f xs s1) (\<lambda>(ys, s2). Inr (y # ys, s2)))"

lemma map_state_cong [fundef_cong]:
  assumes "xs = ys" "s = t" "\<And>x a. x \<in> set ys \<Longrightarrow> f x a = g x a"
  shows "map_state f xs s = map_state g ys t"
proof -
  have "map_state f ys t = map_state g ys t"
    using assms(3)
  proof (induction ys arbitrary: t)
    case (Cons y ys)
    have "f y t = g y t" using Cons.prems by simp
    moreover have "map_state f ys = map_state g ys" using Cons by (intro ext) auto
    ultimately show ?case by simp
  qed simp
  with assms(1,2) show ?thesis by simp
qed

lemma map_state_length: "map_state f xs s = Inr (ys, t) \<Longrightarrow> length ys = length xs"
  by (induction xs arbitrary: s ys) auto

section \<open>Iterators\<close>

text \<open>
  A \<open>for\<close> loop over an iterator that only collects: call \<open>next\<close> until it returns \<open>None\<close>. The fuel
  bounds the number of calls, and \<open>Inr None\<close> says that it ran out.
\<close>

primrec drain :: "('it \<Rightarrow> ('a option \<times> 'it) res) \<Rightarrow> nat \<Rightarrow> 'it \<Rightarrow> 'a list option res" where
  "drain nxt 0 it = Inr None"
| "drain nxt (Suc fuel) it =
     bind_r (nxt it) (\<lambda>(x, it').
       case x of
         None \<Rightarrow> Inr (Some [])
       | Some a \<Rightarrow> bind_r (drain nxt fuel it') (\<lambda>as. Inr (map_option (Cons a) as)))"

text \<open>
  A \<open>for\<close> loop over an iterator whose body changes a state and may fail: \<open>next\<close> and the body alternate. Running
  out of fuel is the error \<open>NonTermination\<close>.
\<close>

primrec for_iter ::
    "('it \<Rightarrow> ('a option \<times> 'it) res) \<Rightarrow> nat \<Rightarrow> ('a \<Rightarrow> 's \<Rightarrow> 's res) \<Rightarrow> 'it \<Rightarrow> 's \<Rightarrow> 's res" where
  "for_iter nxt 0 body it s = Inl NonTermination"
| "for_iter nxt (Suc fuel) body it s =
     bind_r (nxt it) (\<lambda>(x, it').
       case x of None \<Rightarrow> Inr s | Some a \<Rightarrow> bind_r (body a s) (for_iter nxt fuel body it'))"

lemma for_iter_drain:
  "drain nxt fuel it = Inr (Some xs) \<Longrightarrow> for_iter nxt fuel body it s = fold_r body xs s"
proof (induction fuel arbitrary: it xs s)
  case (Suc fuel)
  then show ?case by (auto split: option.splits) (metis (no_types, lifting) Suc.IH)
qed simp

text \<open>
  Three iterators of the code share one shape: \<open>index\<close> counts up to \<open>size\<close> and \<open>next\<close> returns the
  item at the index. The contract and what it gives a loop over the iterator.
\<close>

locale indexed_iterator =
  fixes nxt :: "'it \<Rightarrow> ('a option \<times> 'it) res"
    and index :: "'it \<Rightarrow> nat"
    and bound :: "'it \<Rightarrow> nat"
    and item :: "'it \<Rightarrow> nat \<Rightarrow> 'a res"
    and advance :: "'it \<Rightarrow> 'it"
  assumes nxt_in: "index it < bound it \<Longrightarrow>
      nxt it = bind_r (item it (index it)) (\<lambda>x. Inr (Some x, advance it))"
    and nxt_end: "bound it \<le> index it \<Longrightarrow> nxt it = Inr (None, it)"
    and index_advance: "index (advance it) = Suc (index it)"
    and bound_advance: "bound (advance it) = bound it"
    and item_advance: "item (advance it) = item it"
begin

lemma drain_items:
  "bound it - index it < fuel \<Longrightarrow>
     drain nxt fuel it = bind_r (map_r (item it) [index it..<bound it]) (\<lambda>xs. Inr (Some xs))"
proof (induction fuel arbitrary: it)
  case (Suc fuel)
  show ?case
  proof (cases "index it < bound it")
    case True
    then have "bound (advance it) - index (advance it) < fuel"
      using Suc.prems by (simp add: index_advance bound_advance)
    from Suc.IH [OF this] True show ?thesis
      by (simp add: nxt_in index_advance bound_advance item_advance upt_conv_Cons bind_r_assoc)
  qed (simp add: nxt_end)
qed simp

lemma for_iter_fold:
  "bound it - index it < fuel \<Longrightarrow>
     for_iter nxt fuel body it s = fold_r (\<lambda>i s. bind_r (item it i) (\<lambda>x. body x s)) [index it..<bound it] s"
proof (induction fuel arbitrary: it s)
  case (Suc fuel)
  show ?case
  proof (cases "index it < bound it")
    case True
    then have "bound (advance it) - index (advance it) < fuel"
      using Suc.prems by (simp add: index_advance bound_advance)
    note IH = Suc.IH [OF this]
    show ?thesis
      using True
      by (simp add: nxt_in index_advance bound_advance item_advance upt_conv_Cons bind_r_assoc IH [abs_def])
  qed (simp add: nxt_end)
qed simp

lemma drain_pure:
  assumes "\<And>i. index it \<le> i \<Longrightarrow> i < bound it \<Longrightarrow> item it i = Inr (g i)"
    and "bound it - index it < fuel"
  shows "drain nxt fuel it = Inr (Some (map g [index it..<bound it]))"
  using drain_items [OF assms(2)] map_r_pure [of "[index it..<bound it]" "item it" g] assms(1) by simp

end

section \<open>Checked arithmetic on bounded naturals\<close>

definition chk :: "nat \<Rightarrow> nat \<Rightarrow> nat res" where
  "chk w x = (if x < 2 ^ w then Inr x else Inl (Panic Overflow))"

definition sub_chk :: "nat \<Rightarrow> nat \<Rightarrow> nat res" where
  "sub_chk a b = (if b \<le> a then Inr (a - b) else Inl (Panic Overflow))"

lemma chk_Inr [simp]: "chk w x = Inr y \<longleftrightarrow> y = x \<and> x < 2 ^ w"
  by (auto simp: chk_def)

lemma chk_ok [checked]: "x < 2 ^ w \<Longrightarrow> chk w x = Inr x"
  by simp

lemma sub_chk_Inr [simp]: "sub_chk a b = Inr y \<longleftrightarrow> y = a - b \<and> b \<le> a"
  by (auto simp: sub_chk_def)

lemma sub_chk_ok [checked]: "b \<le> a \<Longrightarrow> sub_chk a b = Inr (a - b)"
  by simp

definition wrapping_add :: "nat \<Rightarrow> nat \<Rightarrow> nat" where
  "wrapping_add a b = (a + b) mod 2 ^ 64"

definition wrapping_sub :: "nat \<Rightarrow> nat \<Rightarrow> nat" where
  "wrapping_sub a b = (a + 2 ^ 64 - b) mod 2 ^ 64"

lemma wrapping_add_small [simp]: "a + b < 2 ^ 64 \<Longrightarrow> wrapping_add a b = a + b"
  by (simp add: wrapping_add_def)

lemma wrapping_sub_small [simp]: "b \<le> a \<Longrightarrow> a < 2 ^ 64 \<Longrightarrow> wrapping_sub a b = a - b"
  by (simp add: wrapping_sub_def mod_if)

lemma wrapping_sub_less: "0 < b \<Longrightarrow> b \<le> a \<Longrightarrow> wrapping_sub a b < a"
proof (cases "a < 2 ^ 64")
  case True
  then show "0 < b \<Longrightarrow> b \<le> a \<Longrightarrow> wrapping_sub a b < a" by simp
next
  case False
  have "wrapping_sub a b < 2 ^ 64" by (simp add: wrapping_sub_def)
  with False show "wrapping_sub a b < a" by simp
qed

lemma and_mask_nat: "(x::nat) AND mask n = x mod 2 ^ n"
  by (simp add: take_bit_eq_mask [symmetric] take_bit_eq_mod)

lemma and_7_nat [simp]: "(x::nat) AND 7 = x mod 8"
  using and_mask_nat [of x 3] by (simp add: mask_eq_exp_minus_1)

lemma or_disjoint:
  fixes a b :: nat
  assumes "a < 2 ^ n"
  shows "a OR 2 ^ n * b = a + 2 ^ n * b"
proof -
  have "take_bit n a = a" using assms by (simp add: take_bit_nat_eq_self)
  then have "a AND push_bit n b = 0"
    by (intro bit_eqI) (metis bit_and_iff bit_push_bit_iff bit_take_bit_iff bit_0_eq bot_apply linorder_not_less bot_bool_def)
  then have "a + push_bit n b = a OR push_bit n b" by (rule disjunctive_add_eq_or)
  then show ?thesis by (simp add: push_bit_eq_mult mult.commute)
qed

lemma and_push: "a AND push_bit n b = push_bit n (drop_bit n a AND b)" for a b :: nat
  by (rule bit_eqI) (auto simp: bit_simps)

lemma and_mask_nat_nums: "(x::nat) AND 3 = x mod 4" "(x::nat) AND 255 = x mod 256" "(x::nat) AND 63 = x mod 64"
  using and_mask_nat [of x 2] and_mask_nat [of x 8] and_mask_nat [of x 6] by (simp_all add: mask_eq_exp_minus_1)

lemma and_not_mask: "a AND NOT (mask n) = push_bit n (drop_bit n a)"
  for a :: "'a::ring_bit_operations"
  by (rule bit_eqI) (auto simp: bit_simps)

lemma and_not_mask_int [align_simps]: "(x::int) AND - (2 ^ n) = x div 2 ^ n * 2 ^ n"
  by (simp add: minus_exp_eq_not_mask and_not_mask push_bit_eq_mult drop_bit_eq_div)

lemma and_not_mask_word:
  "(a::'a::len word) AND NOT (2 ^ n - 1) = word_of_nat (unat a div 2 ^ n * 2 ^ n)"
proof -
  have "a AND NOT (2 ^ n - 1) = push_bit n (drop_bit n a)"
    by (simp add: mask_eq_decr_exp [symmetric] and_not_mask)
  also have "\<dots> = drop_bit n a * 2 ^ n"
    by (simp only: push_bit_eq_mult)
  also have "drop_bit n a = word_of_nat (unat a div 2 ^ n)"
    by (metis unat_drop_bit_eq drop_bit_eq_div of_nat_unat ucast_id)
  finally show ?thesis by simp
qed

lemma unat_word_of_nat_le: "x \<le> unat (w :: 'a::len word) \<Longrightarrow> unat (word_of_nat x :: 'a word) = x"
  by (metis le_less_trans of_nat_inverse unsigned_less)

definition as_u8 :: "nat \<Rightarrow> nat" where
  "as_u8 x = x mod 2 ^ 8"

definition as_u16 :: "nat \<Rightarrow> nat" where
  "as_u16 x = x mod 2 ^ 16"

definition as_u32 :: "nat \<Rightarrow> nat" where
  "as_u32 x = x mod 2 ^ 32"

lemma as_u_small [simp]:
  "x < 256 \<Longrightarrow> as_u8 x = x"
  "x < 65536 \<Longrightarrow> as_u16 x = x"
  "x < 4294967296 \<Longrightarrow> as_u32 x = x"
  by (simp_all add: as_u8_def as_u16_def as_u32_def)

section \<open>Indexing and slicing\<close>

definition index_r :: "'a list \<Rightarrow> nat \<Rightarrow> 'a res" where
  "index_r xs i = (if i < length xs then Inr (xs ! i) else Inl (Panic OutOfBounds))"

definition slice_r :: "'a list \<Rightarrow> nat \<Rightarrow> nat \<Rightarrow> 'a list res" where
  "slice_r xs a b =
     (if a \<le> b \<and> b \<le> length xs then Inr (take (b - a) (drop a xs))
      else Inl (Panic OutOfBounds))"

lemma index_r_Inr [simp]: "index_r xs i = Inr x \<longleftrightarrow> i < length xs \<and> x = xs ! i"
  by (auto simp: index_r_def)

lemma slice_r_Inr [simp]:
  "slice_r xs a b = Inr ys \<longleftrightarrow> a \<le> b \<and> b \<le> length xs \<and> ys = take (b - a) (drop a xs)"
  by (auto simp: slice_r_def)

lemma slice_r_middle: "slice_r (xs @ ys @ zs) (length xs) (length xs + length ys) = Inr ys"
  by simp

section \<open>Rounding\<close>

definition round_up :: "nat \<Rightarrow> nat \<Rightarrow> nat" where
  "round_up b x = (x + (b - 1)) div b * b"

lemma round_up_bounds [align_simps]:
  assumes "0 < b"
  shows "x \<le> round_up b x" "round_up b x < x + b"
proof -
  let ?y = "x + (b - 1)"
  have "round_up b x + ?y mod b = ?y"
    by (simp add: round_up_def)
  moreover have "?y mod b < b" using assms by simp
  ultimately show "x \<le> round_up b x" "round_up b x < x + b"
    using assms by linarith+
qed

lemma round_up_dvd [align_simps]: "b dvd round_up b x"
  by (simp add: round_up_def)

lemma round_up_least:
  assumes "b dvd y" "x \<le> y" "0 < b"
  shows "round_up b x \<le> y"
proof (rule ccontr)
  assume "\<not> ?thesis"
  moreover have "b dvd round_up b x - y"
    using round_up_dvd assms(1) by (rule dvd_diff_nat)
  ultimately have "b \<le> round_up b x - y" by (auto dest: dvd_imp_le)
  with round_up_bounds(2) [OF assms(3), of x] assms(2,3) show False by arith
qed

section \<open>Strings\<close>

text \<open>A \<open>&str\<close> is the list of its UTF-8 bytes.\<close>

type_synonym str = "u8 list"

definition ascii :: "string \<Rightarrow> str" where
  "ascii s = map of_char s"

end
