(* ===== verification/Gdt.thy ===== *)
theory Gdt
  imports Prelude
begin

text \<open>
  \<open>kernel_api/common/src/gdt.rs\<close>: the segment descriptors, the task state segment and loading them.

  The descriptor table of the crate \<open>x86_64\<close> is a parameter: \<open>gdt_add_entry\<close> returns the table with the descriptor and its selector. \<open>gdt_ok\<close>
  states its documentation: entries are appended behind the null descriptor, a task state segment takes two, a table has eight, the
  selector is eight times the index plus the privilege level of the segment, and adding to a full table panics.
\<close>

section \<open>Descriptors\<close>

datatype descriptor = KernelCode | KernelData | UserData | UserCode | UserSegment u64 | TssSegment nat

record 'g gdt_ops =
  gdt_new :: 'g
  gdt_add_entry :: "descriptor \<Rightarrow> 'g \<Rightarrow> (nat \<times> 'g) res"
  gdt_len :: "'g \<Rightarrow> nat"
  gdt_lookup :: "'g \<Rightarrow> nat \<Rightarrow> descriptor option"

definition entries_of :: "descriptor \<Rightarrow> nat" where
  "entries_of d = (case d of TssSegment _ \<Rightarrow> 2 | _ \<Rightarrow> 1)"

definition rpl_of :: "descriptor \<Rightarrow> nat" where
  "rpl_of d = (case d of UserData \<Rightarrow> 3 | UserCode \<Rightarrow> 3 | UserSegment v \<Rightarrow> if drop_bit 45 v AND 3 = 3 then 3 else 0 | _ \<Rightarrow> 0)"

definition gdt_ok :: "'g gdt_ops \<Rightarrow> bool" where
  "gdt_ok go \<longleftrightarrow> gdt_len go (gdt_new go) = 1
     \<and> (\<forall>d g. if gdt_len go g + entries_of d \<le> 8
         then (\<exists>g'. gdt_add_entry go d g = Inr (8 * gdt_len go g + rpl_of d, g') \<and> gdt_len go g' = gdt_len go g + entries_of d
           \<and> gdt_lookup go g' (gdt_len go g) = Some d \<and> (\<forall>i < gdt_len go g. gdt_lookup go g' i = gdt_lookup go g i))
         else gdt_add_entry go d g = Inl (Panic (ExplicitPanic ''GDT full'')))"

section \<open>gdt.rs\<close>

definition DOUBLE_FAULT_IST_INDEX :: nat where "DOUBLE_FAULT_IST_INDEX = 0"
definition STACK_SIZE :: nat where "STACK_SIZE = 4096 * 5"

text \<open>The interrupt stack table of the task state segment: \<open>stack_start\<close> is the address of the static \<open>STACK\<close>.\<close>

definition TSS :: "nat \<Rightarrow> nat list res" where
  "TSS stack_start = bind_r (chk 64 (stack_start + STACK_SIZE)) (\<lambda>stack_end. Inr ((replicate 7 0)[DOUBLE_FAULT_IST_INDEX := stack_end]))"

record Selectors =
  code_selector :: nat
  data_selector :: nat
  tss_selector :: nat

definition GDT :: "'g gdt_ops \<Rightarrow> nat \<Rightarrow> nat \<Rightarrow> ('g \<times> Selectors) res" where
  "GDT go stack_start tss_address =
     bind_r (gdt_add_entry go KernelCode (gdt_new go)) (\<lambda>(kcode, gdt).
     bind_r (gdt_add_entry go KernelData gdt) (\<lambda>(kdata, gdt).
     bind_r (gdt_add_entry go (UserSegment 0) gdt) (\<lambda>(_, gdt).
     bind_r (gdt_add_entry go UserData gdt) (\<lambda>(_, gdt).
     bind_r (gdt_add_entry go UserCode gdt) (\<lambda>(_, gdt).
     bind_r (TSS stack_start) (\<lambda>_.
     bind_r (gdt_add_entry go (TssSegment tss_address) gdt) (\<lambda>(tss, gdt).
       Inr (gdt, \<lparr>code_selector = kcode, data_selector = kdata, tss_selector = tss\<rparr>))))))))"

text \<open>
  The table register, the segment registers and the task register; the task state segment lies at \<open>tss_address\<close>, and \<open>seg_ist\<close> is the
  interrupt stack table the processor finds there.
\<close>

record 'g segments =
  seg_table :: "'g option"
  seg_cs :: nat
  seg_ds :: nat
  seg_es :: nat
  seg_fs :: nat
  seg_gs :: nat
  seg_ss :: nat
  seg_tr :: nat
  seg_ist :: "nat list"

definition gdt_init :: "'g gdt_ops \<Rightarrow> nat \<Rightarrow> nat \<Rightarrow> 'g segments \<Rightarrow> 'g segments res" where
  "gdt_init go stack_start tss_address s =
     bind_r (GDT go stack_start tss_address) (\<lambda>(gdt, sel).
     bind_r (TSS stack_start) (\<lambda>tss.
       Inr (s\<lparr>seg_table := Some gdt, seg_cs := code_selector sel, seg_ds := data_selector sel, seg_es := data_selector sel,
              seg_fs := data_selector sel, seg_gs := data_selector sel, seg_ss := data_selector sel, seg_tr := tss_selector sel,
              seg_ist := tss\<rparr>)))"

section \<open>The table\<close>

lemma gdt_layout:
  assumes "gdt_ok go" "st + STACK_SIZE < 2 ^ 64"
  shows "\<exists>g. GDT go st a = Inr (g, \<lparr>code_selector = 0x08, data_selector = 0x10, tss_selector = 0x30\<rparr>)
    \<and> gdt_lookup go g 1 = Some KernelCode \<and> gdt_lookup go g 2 = Some KernelData \<and> gdt_lookup go g 3 = Some (UserSegment 0)
    \<and> gdt_lookup go g 4 = Some UserData \<and> gdt_lookup go g 5 = Some UserCode \<and> gdt_lookup go g 6 = Some (TssSegment a)"
proof -
  have add: "\<exists>g'. gdt_add_entry go d g = Inr (8 * gdt_len go g + rpl_of d, g') \<and> gdt_len go g' = gdt_len go g + entries_of d
      \<and> gdt_lookup go g' (gdt_len go g) = Some d \<and> (\<forall>i < gdt_len go g. gdt_lookup go g' i = gdt_lookup go g i)"
    if "gdt_len go g + entries_of d \<le> 8" for d g
    using assms(1) that by (simp add: gdt_ok_def)
  have l0: "gdt_len go (gdt_new go) = 1" using assms(1) by (simp add: gdt_ok_def)
  note len = entries_of_def rpl_of_def
  obtain g1 where 1: "gdt_add_entry go KernelCode (gdt_new go) = Inr (8, g1)" "gdt_len go g1 = 2" "gdt_lookup go g1 1 = Some KernelCode"
    using add [of "gdt_new go" KernelCode] l0 by (auto simp: len)
  obtain g2 where 2: "gdt_add_entry go KernelData g1 = Inr (16, g2)" "gdt_len go g2 = 3" "gdt_lookup go g2 2 = Some KernelData"
      "\<forall>i < 2. gdt_lookup go g2 i = gdt_lookup go g1 i"
    using add [of g1 KernelData] 1 by (auto simp: len)
  obtain g3 where 3: "\<exists>s. gdt_add_entry go (UserSegment 0) g2 = Inr (s, g3)" "gdt_len go g3 = 4" "gdt_lookup go g3 3 = Some (UserSegment 0)"
      "\<forall>i < 3. gdt_lookup go g3 i = gdt_lookup go g2 i"
    using add [of g2 "UserSegment 0"] 2 by (auto simp: len)
  obtain g4 where 4: "\<exists>s. gdt_add_entry go UserData g3 = Inr (s, g4)" "gdt_len go g4 = 5" "gdt_lookup go g4 4 = Some UserData"
      "\<forall>i < 4. gdt_lookup go g4 i = gdt_lookup go g3 i"
    using add [of g3 UserData] 3 by (auto simp: len)
  obtain g5 where 5: "\<exists>s. gdt_add_entry go UserCode g4 = Inr (s, g5)" "gdt_len go g5 = 6" "gdt_lookup go g5 5 = Some UserCode"
      "\<forall>i < 5. gdt_lookup go g5 i = gdt_lookup go g4 i"
    using add [of g4 UserCode] 4 by (auto simp: len)
  obtain g6 where 6: "gdt_add_entry go (TssSegment a) g5 = Inr (48, g6)" "gdt_lookup go g6 6 = Some (TssSegment a)"
      "\<forall>i < 6. gdt_lookup go g6 i = gdt_lookup go g5 i"
    using add [of g5 "TssSegment a"] 5 by (auto simp: len)
  have "GDT go st a = Inr (g6, \<lparr>code_selector = 0x08, data_selector = 0x10, tss_selector = 0x30\<rparr>)"
    using 1(1) 2(1) 3(1) 4(1) 5(1) 6(1) assms(2) by (auto simp: GDT_def TSS_def chk_ok)
  with 1 2 3 4 5 6 show ?thesis by (intro exI [of _ g6]) simp
qed

lemma gdt_init_registers:
  assumes "gdt_ok go" "st + STACK_SIZE < 2 ^ 64"
  shows "\<exists>s' g. gdt_init go st a s = Inr s' \<and> seg_table s' = Some g \<and> seg_cs s' = 0x08 \<and> seg_ss s' = 0x10 \<and> seg_tr s' = 0x30
    \<and> seg_ist s' ! DOUBLE_FAULT_IST_INDEX = st + STACK_SIZE
    \<and> gdt_lookup go g 1 = Some KernelCode \<and> gdt_lookup go g 2 = Some KernelData
    \<and> gdt_lookup go g 4 = Some UserData \<and> gdt_lookup go g 5 = Some UserCode \<and> gdt_lookup go g 6 = Some (TssSegment a)"
  using gdt_layout [OF assms, of a] assms(2) by (auto simp: gdt_init_def TSS_def chk_ok DOUBLE_FAULT_IST_INDEX_def)

section \<open>A table as a list\<close>

definition reset_segments :: "'g segments" where
  "reset_segments = \<lparr>seg_table = None, seg_cs = 0, seg_ds = 0, seg_es = 0, seg_fs = 0, seg_gs = 0, seg_ss = 0, seg_tr = 0, seg_ist = []\<rparr>"

definition list_gdt :: "descriptor option list gdt_ops" where
  "list_gdt = \<lparr>gdt_new = [None],
     gdt_add_entry = (\<lambda>d g. if length g + entries_of d \<le> 8
       then Inr (8 * length g + rpl_of d, g @ Some d # replicate (entries_of d - 1) None) else Inl (Panic (ExplicitPanic ''GDT full''))),
     gdt_len = length, gdt_lookup = (\<lambda>g i. if i < length g then g ! i else None)\<rparr>"

lemma list_gdt_ok: "gdt_ok list_gdt"
  by (auto simp: gdt_ok_def list_gdt_def entries_of_def nth_append split: descriptor.splits) (metis descriptor.exhaust)

end
