(* ===== verification/Interrupts.thy ===== *)
theory Interrupts
  imports Gdt
begin

text \<open>
  \<open>kernel/src/interrupts.rs\<close> (saving and restoring the registers, the handler table, the descriptor table) and the
  interrupt stubs that \<open>kernel_api/macros/src/lib.rs\<close> generates.

  The inline assembly is modelled as instructions on a small machine: the general registers, the stack pointer, the
  page-table register, the interrupt flag, and memory as 64-bit words at addresses. What a handler does is a
  parameter (a function pointer of the code is a function here): it sees the interrupt stack frame and the snapshot,
  and changes the machine and the rest of the kernel (\<open>'w\<close>).
\<close>

section \<open>The machine\<close>

datatype reg = RAX | RBX | RCX | RDX | RSI | RDI | R8 | R9 | R10 | R11 | R12 | R13 | R14 | R15 | RBP

record machine =
  regs :: "reg \<Rightarrow> u64"
  rsp :: u64
  cr3 :: u64
  int_flag :: bool
  ram :: "u64 \<Rightarrow> u64"

definition push :: "reg \<Rightarrow> machine \<Rightarrow> machine" where
  "push r m = m\<lparr>rsp := rsp m - 8, ram := (ram m)(rsp m - 8 := regs m r)\<rparr>"

definition pop :: "reg \<Rightarrow> machine \<Rightarrow> machine" where
  "pop r m = m\<lparr>regs := (regs m)(r := ram m (rsp m)), rsp := rsp m + 8\<rparr>"

section \<open>Saving and restoring the registers\<close>

definition push_order :: "reg list" where
  "push_order = [RAX, RBX, RCX, RDX, RSI, RDI, R8, R9, R10, R11, R12, R13, R14, R15, RBP]"

definition interrupt_begin :: "machine \<Rightarrow> machine" where
  "interrupt_begin m = fold push push_order (m\<lparr>int_flag := False\<rparr>)"

definition pop_order :: "reg list" where
  "pop_order = [RBP, R15, R14, R13, R12, R11, R10, R9, R8, RDI, RSI, RDX, RCX, RBX, RAX]"

definition interrupt_end :: "machine \<Rightarrow> machine" where
  "interrupt_end m = fold pop pop_order m"

definition interrupt_end_sti :: "machine \<Rightarrow> machine" where
  "interrupt_end_sti m = (fold pop pop_order m)\<lparr>int_flag := True\<rparr>"

text \<open>\<open>CpuSnapshot\<close> is \<open>repr(C)\<close>: its fields are consecutive words.\<close>

record CpuSnapshot =
  s_rbp :: u64
  s_r15 :: u64
  s_r14 :: u64
  s_r13 :: u64
  s_r12 :: u64
  s_r11 :: u64
  s_r10 :: u64
  s_r9 :: u64
  s_r8 :: u64
  s_rdi :: u64
  s_rsi :: u64
  s_rax :: u64
  s_rbx :: u64
  s_rcx :: u64
  s_rdx :: u64

definition snapshot_at :: "(u64 \<Rightarrow> u64) \<Rightarrow> u64 \<Rightarrow> CpuSnapshot" where
  "snapshot_at mem p =
     \<lparr>s_rbp = mem p, s_r15 = mem (p + 8), s_r14 = mem (p + 16), s_r13 = mem (p + 24), s_r12 = mem (p + 32),
      s_r11 = mem (p + 40), s_r10 = mem (p + 48), s_r9 = mem (p + 56), s_r8 = mem (p + 64), s_rdi = mem (p + 72),
      s_rsi = mem (p + 80), s_rax = mem (p + 88), s_rbx = mem (p + 96), s_rcx = mem (p + 104), s_rdx = mem (p + 112)\<rparr>"

section \<open>The handler table\<close>

type_synonym ('f, 's) handler = "'f \<Rightarrow> CpuSnapshot \<Rightarrow> 's \<Rightarrow> ('f \<times> 's) res"

definition HANDLERS_init :: "('f, 's) handler list list" where
  "HANDLERS_init = replicate (256 - 32) []"

definition register_handler :: "nat \<Rightarrow> ('f, 's) handler \<Rightarrow> ('f, 's) handler list list \<Rightarrow> ('f, 's) handler list list res" where
  "register_handler vector handler HANDLERS =
     bind_r (sub_chk vector 32) (\<lambda>i.
     bind_r (index_r HANDLERS i) (\<lambda>hs. Inr (HANDLERS[i := hs @ [handler]])))"

definition interrupt ::
    "('f, 's) handler list list \<Rightarrow> CpuSnapshot \<Rightarrow> nat \<Rightarrow> 'f \<times> 's \<Rightarrow> ('f \<times> 's) res" where
  "interrupt HANDLERS snapshot vector s =
     bind_r (sub_chk vector 32) (\<lambda>i.
     bind_r (index_r HANDLERS i) (\<lambda>hs. fold_r (\<lambda>handler (f, s). handler f snapshot s) hs s))"

section \<open>Interrupt stubs\<close>

text \<open>
  The statics \<open>SYSCALL_SP\<close>, \<open>SYSCALL_USP\<close>, \<open>SYSCALL_UMAP\<close> of \<open>process.rs\<close>, the machine, and the rest of the kernel; the
  end-of-interrupt writes to the local APIC are counted.
\<close>

record 'w kernel =
  mach :: machine
  SYSCALL_SP :: u64
  SYSCALL_USP :: u64
  SYSCALL_UMAP :: u64
  eoi_count :: nat
  world :: 'w

definition set_syscall_sp :: "'w kernel \<Rightarrow> 'w kernel" where
  "set_syscall_sp k = k\<lparr>SYSCALL_SP := rsp (mach k)\<rparr>"

text \<open>The assembly between saving the registers and calling \<open>interrupt\<close>: switch to the kernel stack, remember the old one.\<close>

definition enter_kernel_stack :: "'w kernel \<Rightarrow> 'w kernel" where
  "enter_kernel_stack k =
     (let m = mach k;
          m1 = m\<lparr>regs := (regs m)(RDX := rsp m)\<rparr>;
          m2 = m1\<lparr>regs := (regs m1)(RAX := SYSCALL_SP k, RBP := SYSCALL_SP k), rsp := SYSCALL_SP k\<rparr>;
          k1 = k\<lparr>mach := m2, SYSCALL_USP := regs m2 RDX\<rparr>;
          m3 = m2\<lparr>regs := (regs m2)(RAX := cr3 m2)\<rparr>
      in k1\<lparr>mach := m3, SYSCALL_UMAP := regs m3 RAX\<rparr>)"

definition leave_kernel_stack :: "'w kernel \<Rightarrow> 'w kernel" where
  "leave_kernel_stack k =
     (let m = mach k;
          m1 = m\<lparr>regs := (regs m)(RAX := SYSCALL_UMAP k), cr3 := SYSCALL_UMAP k\<rparr>
      in k\<lparr>mach := m1\<lparr>regs := (regs m1)(RAX := SYSCALL_USP k), rsp := SYSCALL_USP k\<rparr>\<rparr>)"

definition isr ::
    "('f, 'w kernel) handler list list \<Rightarrow> nat \<Rightarrow> 'f \<Rightarrow> 'w kernel \<Rightarrow> ('f \<times> 'w kernel) res" where
  "isr HANDLERS vector stack_frame k =
     (let k1 = enter_kernel_stack (k\<lparr>mach := interrupt_begin (mach k)\<rparr>);
          cpu = regs (mach k1) RDX
      in
      bind_r (interrupt HANDLERS (snapshot_at (ram (mach k1)) cpu) vector (stack_frame, k1)) (\<lambda>(stack_frame, k2).
      let k3 = leave_kernel_stack k2;
          k4 = k3\<lparr>eoi_count := eoi_count k3 + 1\<rparr>
      in Inr (stack_frame, k4\<lparr>mach := interrupt_end_sti (mach k4)\<rparr>)))"

text \<open>The descriptor table: which function each vector enters.\<close>

datatype entry =
    breakpoint_handler | nmi_handler | segment_not_present_handler | general_protection_handler
  | double_fault_handler | pagefault_handler | lapic_spurious | isr_stub nat

definition set_isrs :: "(nat \<Rightarrow> (entry \<times> nat option) option) \<Rightarrow> nat \<Rightarrow> (entry \<times> nat option) option" where
  "set_isrs idt = fold (\<lambda>i t. t(i \<mapsto> (isr_stub i, None))) [0x20..<0xFF] idt"

text \<open>With each function the entry of the interrupt stack table it runs on, if any.\<close>

definition IDT :: "nat \<Rightarrow> (entry \<times> nat option) option" where
  "IDT = (set_isrs [3 \<mapsto> (breakpoint_handler, None), 13 \<mapsto> (general_protection_handler, None), 2 \<mapsto> (nmi_handler, None),
            11 \<mapsto> (segment_not_present_handler, None), 8 \<mapsto> (double_fault_handler, Some DOUBLE_FAULT_IST_INDEX),
            14 \<mapsto> (pagefault_handler, Some DOUBLE_FAULT_IST_INDEX)])
         (0xFF \<mapsto> (lapic_spurious, None))"

section \<open>Saving and restoring\<close>

lemma stack_addresses_distinct:
  assumes "i < j" "8 * j < 2 ^ 64"
  shows "(a :: u64) - of_nat (8 * i) \<noteq> a - of_nat (8 * j)"
proof
  have inj: "x = y" if "a - x = a - y" for x y :: u64 using that by simp
  assume "a - of_nat (8 * i) = a - of_nat (8 * j)"
  then have "(of_nat (8 * i) :: u64) = of_nat (8 * j)" by (rule inj)
  then have "unat (of_nat (8 * i) :: u64) = unat (of_nat (8 * j) :: u64)" by (rule arg_cong)
  moreover have "unat (of_nat (8 * i) :: u64) = 8 * i" "unat (of_nat (8 * j) :: u64) = 8 * j"
    using assms by (auto simp only: unat_of_nat take_bit_eq_mod len_of_numeral_defs intro!: mod_less) auto
  ultimately show False using assms(1) by linarith
qed

lemma push_update: "push r (m\<lparr>rsp := a, ram := f\<rparr>) = m\<lparr>rsp := a - 8, ram := f(a - 8 := regs m r)\<rparr>"
  by (simp add: push_def)

lemma fold_push:
  assumes "8 * length rs < 2 ^ 64"
  shows "\<exists>r. fold push rs m = m\<lparr>rsp := rsp m - of_nat (8 * length rs), ram := r\<rparr>
    \<and> (\<forall>i < length rs. r (rsp m - of_nat (8 * Suc i)) = regs m (rs ! i))"
  using assms
proof (induction rs rule: rev_induct)
  case Nil
  show ?case by (intro exI [of _ "ram m"]) simp
next
  case (snoc x rs)
  then obtain r where r: "fold push rs m = m\<lparr>rsp := rsp m - of_nat (8 * length rs), ram := r\<rparr>"
      "\<forall>i < length rs. r (rsp m - of_nat (8 * Suc i)) = regs m (rs ! i)" by auto
  let ?a = "rsp m - of_nat (8 * Suc (length rs))"
  have a: "rsp m - of_nat (8 * length rs) - 8 = ?a" by (simp add: algebra_simps)
  have "(r(?a := regs m x)) (rsp m - of_nat (8 * Suc i)) = regs m ((rs @ [x]) ! i)" if "i < length (rs @ [x])" for i
  proof (cases "i = length rs")
    case False
    with that have "i < length rs" by simp
    then have "rsp m - of_nat (8 * Suc i) \<noteq> ?a"
      using snoc.prems by (intro stack_addresses_distinct) simp_all
    with r(2) \<open>i < length rs\<close> show ?thesis by (simp only: fun_upd_apply if_False nth_append if_True simp_thms)
  qed simp
  moreover have "fold push (rs @ [x]) m = m\<lparr>rsp := ?a, ram := r(?a := regs m x)\<rparr>"
    by (simp only: fold_append comp_apply fold_simps r(1) push_update a)
  ultimately show ?case by (metis length_append_singleton)
qed

lemma pop_simps:
  "ram (pop r m) = ram m" "rsp (pop r m) = rsp m + 8" "cr3 (pop r m) = cr3 m" "int_flag (pop r m) = int_flag m"
  "regs (pop r m) = (regs m)(r := ram m (rsp m))"
  by (simp_all add: pop_def)

lemma fold_pop_frame:
  "ram (fold pop ps m) = ram m" "rsp (fold pop ps m) = rsp m + of_nat (8 * length ps)" "cr3 (fold pop ps m) = cr3 m"
  "int_flag (fold pop ps m) = int_flag m" "r \<notin> set ps \<Longrightarrow> regs (fold pop ps m) r = regs m r"
  by (induction ps arbitrary: m) (simp_all add: pop_simps algebra_simps)

lemma fold_pop:
  assumes "distinct ps" "i < length ps"
  shows "regs (fold pop ps m) (ps ! i) = ram m (rsp m + of_nat (8 * i))"
  using assms
proof (induction ps arbitrary: m i)
  case (Cons p ps)
  then show ?case by (cases i) (simp_all add: pop_simps fold_pop_frame algebra_simps)
qed simp

text \<open>The words the stub has saved, below the stack pointer \<open>sp\<close> at the time of the interrupt.\<close>

definition saved_kept :: "u64 \<Rightarrow> machine \<Rightarrow> machine \<Rightarrow> bool" where
  "saved_kept sp m m' \<longleftrightarrow> (\<forall>i < 15. ram m' (sp - of_nat (8 * Suc i)) = ram m (sp - of_nat (8 * Suc i)))"

lemma pop_push_order: "pop_order = rev push_order" "distinct push_order" "length push_order = 15" "r \<in> set push_order"
  by (simp_all add: pop_order_def push_order_def) (cases r; simp)

lemma interrupt_begin_frame:
  "regs (interrupt_begin m) = regs m" "rsp (interrupt_begin m) = rsp m - 120" "cr3 (interrupt_begin m) = cr3 m"
  "i < 15 \<Longrightarrow> ram (interrupt_begin m) (rsp m - of_nat (8 * Suc i)) = regs m (push_order ! i)"
proof -
  obtain r where r: "interrupt_begin m = m\<lparr>int_flag := False, rsp := rsp m - 120, ram := r\<rparr>"
      "\<forall>i < 15. r (rsp m - of_nat (8 * Suc i)) = regs m (push_order ! i)"
    using fold_push [of push_order "m\<lparr>int_flag := False\<rparr>"] by (auto simp: interrupt_begin_def pop_push_order)
  show "regs (interrupt_begin m) = regs m" "rsp (interrupt_begin m) = rsp m - 120" "cr3 (interrupt_begin m) = cr3 m"
    "i < 15 \<Longrightarrow> ram (interrupt_begin m) (rsp m - of_nat (8 * Suc i)) = regs m (push_order ! i)"
    using r by simp_all
qed

lemma interrupt_end_restores:
  assumes "rsp m' = rsp m - 120" "saved_kept (rsp m) (interrupt_begin m) m'"
  shows "regs (interrupt_end m') = regs m" "rsp (interrupt_end m') = rsp m"
proof -
  have "regs (fold pop pop_order m') x = regs m x" for x
  proof -
    obtain i where i: "i < 15" "x = push_order ! i" using pop_push_order(3,4) by (metis in_set_conv_nth)
    have "x = pop_order ! (14 - i)" using i by (simp add: pop_push_order rev_nth)
    moreover have "rsp m' + of_nat (8 * (14 - i)) = rsp m - of_nat (8 * Suc i)"
      using i(1) by (simp add: assms(1) of_nat_diff algebra_simps)
    ultimately have "regs (fold pop pop_order m') x = ram m' (rsp m - of_nat (8 * Suc i))"
      using fold_pop [of pop_order "14 - i" m'] by (simp add: pop_push_order)
    then show ?thesis using assms(2) i interrupt_begin_frame(4) [OF i(1), of m] by (simp add: saved_kept_def)
  qed
  then show "regs (interrupt_end m') = regs m" by (auto simp: interrupt_end_def)
  show "rsp (interrupt_end m') = rsp m" using assms(1) by (simp add: interrupt_end_def fold_pop_frame pop_push_order)
qed

lemma enter_kernel_stack_simps:
  "ram (mach (enter_kernel_stack k)) = ram (mach k)" "SYSCALL_USP (enter_kernel_stack k) = rsp (mach k)"
  "SYSCALL_UMAP (enter_kernel_stack k) = cr3 (mach k)" "regs (mach (enter_kernel_stack k)) RDX = rsp (mach k)"
  by (simp_all add: enter_kernel_stack_def Let_def)

lemma leave_kernel_stack_simps:
  "ram (mach (leave_kernel_stack k)) = ram (mach k)" "rsp (mach (leave_kernel_stack k)) = SYSCALL_USP k"
  "cr3 (mach (leave_kernel_stack k)) = SYSCALL_UMAP k"
  by (simp_all add: leave_kernel_stack_def Let_def)

text \<open>
  C13: an interrupt is invisible to the interrupted program: provided the handlers leave the saved words and the two
  statics alone, the stub restores every general register, the stack pointer and the address space, and interrupts are
  enabled again.
\<close>
theorem interrupt_transparent:
  assumes "isr HANDLERS vector frame k = Inr (frame', k')"
    and "\<forall>snapshot s s'. interrupt HANDLERS snapshot vector s = Inr s' \<longrightarrow>
      SYSCALL_USP (snd s') = SYSCALL_USP (snd s) \<and> SYSCALL_UMAP (snd s') = SYSCALL_UMAP (snd s)
      \<and> saved_kept (rsp (mach k)) (mach (snd s)) (mach (snd s'))"
  shows "regs (mach k') = regs (mach k) \<and> rsp (mach k') = rsp (mach k) \<and> cr3 (mach k') = cr3 (mach k)
    \<and> int_flag (mach k')"
proof -
  let ?m = "mach k"
  let ?k1 = "enter_kernel_stack (k\<lparr>mach := interrupt_begin ?m\<rparr>)"
  obtain k2 where r: "interrupt HANDLERS (snapshot_at (ram (mach ?k1)) (regs (mach ?k1) RDX)) vector (frame, ?k1) = Inr (frame', k2)"
      "k' = (leave_kernel_stack k2)\<lparr>eoi_count := eoi_count (leave_kernel_stack k2) + 1,
             mach := interrupt_end_sti (mach (leave_kernel_stack k2))\<rparr>"
    using assms(1) by (auto simp: isr_def Let_def)
  from assms(2) r(1) have h: "SYSCALL_USP k2 = SYSCALL_USP ?k1" "SYSCALL_UMAP k2 = SYSCALL_UMAP ?k1"
      "saved_kept (rsp ?m) (mach ?k1) (mach k2)" by fastforce+
  let ?m3 = "mach (leave_kernel_stack k2)"
  have "rsp ?m3 = rsp ?m - 120" "saved_kept (rsp ?m) (interrupt_begin ?m) ?m3" "cr3 ?m3 = cr3 ?m"
    using h by (simp_all add: leave_kernel_stack_simps enter_kernel_stack_simps interrupt_begin_frame saved_kept_def)
  with interrupt_end_restores [of ?m3 ?m] show ?thesis
    by (simp add: r(2) interrupt_end_sti_def interrupt_end_def fold_pop_frame)
qed

lemma snapshot_fields:
  "snapshot_at (ram (interrupt_begin m)) (rsp (interrupt_begin m)) =
     \<lparr>s_rbp = regs m RBP, s_r15 = regs m R15, s_r14 = regs m R14, s_r13 = regs m R13, s_r12 = regs m R12,
      s_r11 = regs m R11, s_r10 = regs m R10, s_r9 = regs m R9, s_r8 = regs m R8, s_rdi = regs m RDI, s_rsi = regs m RSI,
      s_rax = regs m RDX, s_rbx = regs m RCX, s_rcx = regs m RBX, s_rdx = regs m RAX\<rparr>"
proof -
  have a: "ram (interrupt_begin m) (rsp m - 120 + of_nat (8 * j)) = regs m (push_order ! (14 - j))" if "j < 15" for j
  proof -
    have "rsp m - 120 + of_nat (8 * j) = rsp m - of_nat (8 * Suc (14 - j))"
      using that by (simp add: of_nat_diff algebra_simps)
    moreover have "14 - j < 15" by simp
    ultimately show ?thesis using interrupt_begin_frame(4) [of "14 - j" m] by (simp only:)
  qed
  show ?thesis
    using a [of 0] a [of 1] a [of 2] a [of 3] a [of 4] a [of 5] a [of 6] a [of 7] a [of 8] a [of 9] a [of 10] a [of 11]
      a [of 12] a [of 13] a [of 14]
    by (simp add: snapshot_at_def interrupt_begin_frame push_order_def)
qed

text \<open>
  C36: the snapshot handlers get is wrong in four fields: the registers are pushed in the order rax, rbx, rcx, rdx but
  the struct declares rax, rbx, rcx, rdx from lower to higher addresses, so each of the four fields holds the
  register at the mirrored place; the other eleven fields are right.
\<close>
theorem snapshot_mirrors_four_registers:
  "snapshot_at (ram (interrupt_begin m)) (rsp (interrupt_begin m)) =
     \<lparr>s_rbp = regs m RBP, s_r15 = regs m R15, s_r14 = regs m R14, s_r13 = regs m R13, s_r12 = regs m R12,
      s_r11 = regs m R11, s_r10 = regs m R10, s_r9 = regs m R9, s_r8 = regs m R8, s_rdi = regs m RDI, s_rsi = regs m RSI,
      s_rax = regs m RDX, s_rbx = regs m RCX, s_rcx = regs m RBX, s_rdx = regs m RAX\<rparr>"
  by (rule snapshot_fields)

section \<open>The handler table\<close>

lemma register_handler_nth:
  assumes "32 \<le> v" "v < 256" "length HS = 224"
  shows "register_handler v h HS = Inr (HS[v - 32 := HS ! (v - 32) @ [h]])"
  using assms by (simp add: register_handler_def index_r_def sub_chk_def)

lemma register_all:
  assumes "\<forall>x \<in> set log. 32 \<le> fst x \<and> fst x < 256" "length HS = 224"
  shows "\<exists>HS'. fold_r (\<lambda>x. register_handler (fst x) (snd x)) log HS = Inr HS' \<and> length HS' = 224
    \<and> (\<forall>w. 32 \<le> w \<and> w < 256 \<longrightarrow> HS' ! (w - 32) = HS ! (w - 32) @ map snd (filter (\<lambda>x. fst x = w) log))"
  using assms
proof (induction log arbitrary: HS)
  case (Cons x log)
  let ?HS = "HS[fst x - 32 := HS ! (fst x - 32) @ [snd x]]"
  obtain HS' where IH: "fold_r (\<lambda>x. register_handler (fst x) (snd x)) log ?HS = Inr HS'" "length HS' = 224"
      "\<forall>w. 32 \<le> w \<and> w < 256 \<longrightarrow> HS' ! (w - 32) = ?HS ! (w - 32) @ map snd (filter (\<lambda>x. fst x = w) log)"
    using Cons.IH [of ?HS] Cons.prems by auto
  have "?HS ! (w - 32) = HS ! (w - 32) @ (if fst x = w then [snd x] else [])" if "32 \<le> w" "w < 256" for w
  proof -
    have "w - 32 = fst x - 32 \<longleftrightarrow> w = fst x" using that Cons.prems(1) by auto
    with that Cons.prems(2) show ?thesis by (auto simp: nth_list_update)
  qed
  then show ?case using IH Cons.prems register_handler_nth [of "fst x" HS "snd x"] by auto
qed auto

text \<open>
  C19: the table of handler lists implements its abstract specification, the log of registrations: after any sequence of
  registrations for hardware vectors, an interrupt with vector \<open>w\<close> runs exactly the handlers registered for \<open>w\<close>, in
  the order of their registration, each on the result of the one before; registering for an exception vector
  (below 32) panics.
\<close>
theorem dispatch_refines_log:
  assumes "\<forall>x \<in> set log. 32 \<le> fst x \<and> fst x < 256" "32 \<le> w" "w < 256" "v < 32"
  shows "\<exists>HS. fold_r (\<lambda>x. register_handler (fst x) (snd x)) log HANDLERS_init = Inr HS
    \<and> interrupt HS snapshot w s = fold_r (\<lambda>h (f, s). h f snapshot s) (map snd (filter (\<lambda>x. fst x = w) log)) s
    \<and> register_handler v h HS = Inl (Panic Overflow)"
proof -
  obtain HS where "fold_r (\<lambda>x. register_handler (fst x) (snd x)) log HANDLERS_init = Inr HS" "length HS = 224"
      "\<forall>w. 32 \<le> w \<and> w < 256 \<longrightarrow> HS ! (w - 32) = HANDLERS_init ! (w - 32) @ map snd (filter (\<lambda>x. fst x = w) log)"
    using register_all [OF assms(1), of HANDLERS_init] by (auto simp: HANDLERS_init_def)
  with assms(2-4) show ?thesis
    by (auto simp: interrupt_def register_handler_def index_r_def sub_chk_def HANDLERS_init_def)
qed

lemma set_isrs_at: "set_isrs t v = (if 32 \<le> v \<and> v < 255 then Some (isr_stub v, None) else t v)"
proof -
  have f: "fold (\<lambda>i t. t(i \<mapsto> (isr_stub i, None))) xs t v = (if v \<in> set xs then Some (isr_stub v, None) else t v)" for xs t v
    by (induction xs arbitrary: t) auto
  show ?thesis unfolding set_isrs_def f set_upt atLeastLessThan_iff by (rule refl)
qed

lemma IDT_at:
  "IDT v = (if v = 0xFF then Some (lapic_spurious, None)
     else if 32 \<le> v \<and> v < 255 then Some (isr_stub v, None)
     else [3 \<mapsto> (breakpoint_handler, None), 13 \<mapsto> (general_protection_handler, None), 2 \<mapsto> (nmi_handler, None),
       11 \<mapsto> (segment_not_present_handler, None), 8 \<mapsto> (double_fault_handler, Some DOUBLE_FAULT_IST_INDEX),
       14 \<mapsto> (pagefault_handler, Some DOUBLE_FAULT_IST_INDEX)] v)"
  by (simp only: IDT_def fun_upd_apply set_isrs_at)

section \<open>Witnesses\<close>

definition sample_kernel :: "unit kernel" where
  "sample_kernel =
     \<lparr>mach = \<lparr>regs = (\<lambda>r. if r = RAX then 7 else 0), rsp = 0x8000, cr3 = 0x1000, int_flag = True, ram = (\<lambda>_. 0)\<rparr>,
      SYSCALL_SP = 0x9000, SYSCALL_USP = 0, SYSCALL_UMAP = 0, eoi_count = 0, world = ()\<rparr>"

theorem interrupt_transparent_witness:
  "\<exists>f' k'. isr HANDLERS_init 0x45 () sample_kernel = Inr (f', k') \<and> regs (mach k') RAX = 7 \<and> rsp (mach k') = 0x8000"
proof -
  have i: "interrupt HANDLERS_init sn 0x45 s = Inr s" for sn and s :: "unit \<times> unit kernel"
    by (simp add: interrupt_def HANDLERS_init_def index_r_def sub_chk_def)
  then obtain f' k' where r: "isr HANDLERS_init 0x45 () sample_kernel = Inr (f', k')" by (auto simp: isr_def Let_def)
  from interrupt_transparent [OF r] i have "regs (mach k') = regs (mach sample_kernel) \<and> rsp (mach k') = rsp (mach sample_kernel)"
    by (auto simp: saved_kept_def)
  then have "regs (mach k') RAX = 7 \<and> rsp (mach k') = 0x8000" by (simp add: sample_kernel_def)
  with r show ?thesis by blast
qed

definition sample_log :: "(nat \<times> (nat, unit) handler) list" where
  "sample_log = [(60, \<lambda>f _ s. Inr (f + 1, s)), (61, \<lambda>f _ s. Inr (f + 2, s)), (60, \<lambda>f _ s. Inr (f * 10, s))]"

theorem dispatch_refines_log_witness:
  "\<exists>HS. fold_r (\<lambda>x. register_handler (fst x) (snd x)) sample_log HANDLERS_init = Inr HS
      \<and> interrupt HS (snapshot_at (\<lambda>_. 0) 0) 60 (4, ()) = Inr (50, ())"
proof -
  have "\<forall>x \<in> set sample_log. 32 \<le> fst x \<and> fst x < 256" by (simp add: sample_log_def)
  from dispatch_refines_log [OF this, of 60 0 "snapshot_at (\<lambda>_. 0) 0" "(4, ())" "\<lambda>f _ s. Inr (f, s)"]
  obtain HS where "fold_r (\<lambda>x. register_handler (fst x) (snd x)) sample_log HANDLERS_init = Inr HS"
      "interrupt HS (snapshot_at (\<lambda>_. 0) 0) 60 (4, ())
        = fold_r (\<lambda>h (f, s). h f (snapshot_at (\<lambda>_. 0) 0) s) (map snd (filter (\<lambda>x. fst x = 60) sample_log)) (4, ())"
    by auto
  moreover have "fold_r (\<lambda>h (f, s). h f sn s) (map snd (filter (\<lambda>x. fst x = 60) sample_log)) (4, ()) = Inr (50, ())" for sn
    by (simp add: sample_log_def)
  ultimately show ?thesis by auto
qed

end
