(* ===== verification/Util.thy ===== *)
theory Util
  imports Prelude
begin

text \<open>
  \<open>kernel_api/common/src/util.rs\<close>, \<open>memory_regions.rs\<close> and the alignment helpers of
  \<open>linked_list_allocator.rs\<close>: the byte-copy intrinsics the kernel links against, the size macros
  and the address-space constants built from them.

  Memory is a function from addresses to bytes; a pointer is an address. \<open>rep movsb\<close> and
  \<open>rep stosb\<close> are the instructions' byte loops with the direction flag clear, as the x86-64 calling
  convention guarantees. A store through \<open>core::ptr::write\<close> of a \<open>u64\<close> is only allowed at an
  8-aligned address; the model makes a violation a failure (\<open>Misaligned\<close>), so that a result \<open>Inr\<close>
  says that every wide store of \<open>memmove\<close> was aligned.
\<close>

section \<open>Byte copies\<close>

type_synonym memory = "nat \<Rightarrow> u8"

primrec rep_movsb :: "nat \<Rightarrow> nat \<Rightarrow> nat \<Rightarrow> memory \<Rightarrow> memory" where
  "rep_movsb 0 dst src m = m"
| "rep_movsb (Suc n) dst src m = rep_movsb n (Suc dst) (Suc src) (m(dst := m src))"

definition memcpy :: "nat \<Rightarrow> nat \<Rightarrow> nat \<Rightarrow> memory \<Rightarrow> nat \<times> memory" where
  "memcpy dst src n m = (dst, rep_movsb n dst src m)"

primrec rep_stosb :: "nat \<Rightarrow> nat \<Rightarrow> u8 \<Rightarrow> memory \<Rightarrow> memory" where
  "rep_stosb 0 ptr al m = m"
| "rep_stosb (Suc n) ptr al m = rep_stosb n (Suc ptr) al (m(ptr := al))"

definition memset :: "nat \<Rightarrow> 32 word \<Rightarrow> nat \<Rightarrow> memory \<Rightarrow> nat \<times> memory" where
  "memset ptr value n m = (ptr, rep_stosb n ptr (ucast value) m)"

text \<open>
  The loop of \<open>memcmp\<close>: \<open>i\<close> runs from \<open>0\<close>; the difference of two bytes, read as \<open>i32\<close>, cannot
  wrap.
\<close>

function memcmp_from :: "nat \<Rightarrow> nat \<Rightarrow> nat \<Rightarrow> nat \<Rightarrow> memory \<Rightarrow> int" where
  "memcmp_from i a b n m =
     (if i < n then
        let v1 = m (a + i); v2 = m (b + i)
        in if v1 \<noteq> v2 then uint v1 - uint v2 else memcmp_from (Suc i) a b n m
      else 0)"
  by pat_completeness auto
termination
  by (relation "measure (\<lambda>(i, a, b, n, m). n - i)") auto

declare memcmp_from.simps [simp del]

definition memcmp :: "nat \<Rightarrow> nat \<Rightarrow> nat \<Rightarrow> memory \<Rightarrow> int" where
  "memcmp a b n m = memcmp_from 0 a b n m"

section \<open>memmove\<close>

text \<open>The first loop of the short-overhang branch: single bytes until \<open>dst + n\<close> is 8-aligned.\<close>

function memmove_align :: "nat \<Rightarrow> nat \<Rightarrow> nat \<Rightarrow> memory \<Rightarrow> nat \<times> memory" where
  "memmove_align dst src n m =
     (if n \<noteq> 0 \<and> wrapping_add dst n AND 7 \<noteq> 0 then
        let n' = wrapping_sub n 1
        in memmove_align dst src n' (m(dst + n' := m (src + n')))
      else (n, m))"
  by pat_completeness auto
termination
  by (relation "measure (\<lambda>(dst, src, n, m). n)") (auto intro: wrapping_sub_less)

text \<open>A \<open>u64\<close> moved through a register: its eight bytes, read before any is written.\<close>

definition read_unaligned_u64 :: "memory \<Rightarrow> nat \<Rightarrow> u8 list" where
  "read_unaligned_u64 m a = map (\<lambda>i. m (a + i)) [0..<8]"

definition write_u64 :: "memory \<Rightarrow> nat \<Rightarrow> u8 list \<Rightarrow> memory res" where
  "write_u64 m a v =
     (if a mod 8 = 0 then Inr (\<lambda>x. if a \<le> x \<and> x < a + 8 then v ! (x - a) else m x)
      else Inl (Panic Misaligned))"

function memmove_words :: "nat \<Rightarrow> nat \<Rightarrow> nat \<Rightarrow> memory \<Rightarrow> (nat \<times> memory) res" where
  "memmove_words dst src n m =
     (if 8 \<le> n then
        let n' = wrapping_sub n 8; val = read_unaligned_u64 m (src + n')
        in bind_r (write_u64 m (dst + n') val) (memmove_words dst src n')
      else Inr (n, m))"
  by pat_completeness auto
termination
  by (relation "measure (\<lambda>(dst, src, n, m). n)") (auto intro: wrapping_sub_less)

function memmove_bytes :: "nat \<Rightarrow> nat \<Rightarrow> nat \<Rightarrow> memory \<Rightarrow> memory" where
  "memmove_bytes dst src n m =
     (if n \<noteq> 0 then
        let n' = wrapping_sub n 1
        in memmove_bytes dst src n' (m(dst + n' := m (src + n')))
      else m)"
  by pat_completeness auto
termination
  by (relation "measure (\<lambda>(dst, src, n, m). n)") (auto intro: wrapping_sub_less)

text \<open>
  The loop of the long-overhang branch. Its guard repeats \<open>src < dst\<close>, which the enclosing test has
  established and which makes \<open>overhang\<close> positive.
\<close>

function memmove_chunks :: "nat \<Rightarrow> nat \<Rightarrow> nat \<Rightarrow> memory \<Rightarrow> nat \<times> memory" where
  "memmove_chunks dst src n m =
     (if src < dst \<and> dst - src \<le> n then
        let n' = wrapping_sub n (dst - src)
        in memmove_chunks dst src n' (snd (memcpy (dst + n') (src + n') (dst - src) m))
      else (n, m))"
  by pat_completeness auto
termination
  by (relation "measure (\<lambda>(dst, src, n, m). n)") (auto intro: wrapping_sub_less)

declare memmove_align.simps [simp del] memmove_words.simps [simp del]
  memmove_bytes.simps [simp del] memmove_chunks.simps [simp del]

definition memmove :: "nat \<Rightarrow> nat \<Rightarrow> nat \<Rightarrow> memory \<Rightarrow> (nat \<times> memory) res" where
  "memmove dst src n m =
     (if src < dst \<and> dst < wrapping_add src n then
        let overhang = dst - src in
        if overhang < 64 then
          let (n1, m1) = memmove_align dst src n m in
          bind_r (memmove_words dst src n1 m1) (\<lambda>(n2, m2).
            Inr (dst, memmove_bytes dst src n2 m2))
        else
          let (n1, m1) = memmove_chunks dst src n m in
          if n1 = 0 then Inr (dst, m1)
          else Inr (dst, snd (memcpy dst src n1 m1))
      else Inr (dst, snd (memcpy dst src n m)))"

section \<open>Correctness of the copies\<close>

text \<open>
  The specification: the bytes \<open>[k, N)\<close> of the source object, as they were in \<open>m\<close>, are at the
  destination, and nothing else has changed.
\<close>

definition copied :: "nat \<Rightarrow> nat \<Rightarrow> nat \<Rightarrow> nat \<Rightarrow> memory \<Rightarrow> memory" where
  "copied dst src k N m = (\<lambda>x. if dst + k \<le> x \<and> x < dst + N then m (src + (x - dst)) else m x)"

lemma copied_none [simp]: "copied dst src N N m = m"
  by (auto simp: copied_def fun_eq_iff)

lemma copied_apply:
  "i < n \<Longrightarrow> copied dst src 0 n m (dst + i) = m (src + i)"
  "x < dst \<or> dst + n \<le> x \<Longrightarrow> copied dst src 0 n m x = m x"
  by (auto simp: copied_def)

lemma rep_movsb_forward:
  "dst \<le> src \<or> src + n \<le> dst \<Longrightarrow> rep_movsb n dst src m = copied dst src 0 n m"
proof (induction n arbitrary: dst src m)
  case 0
  then show ?case by simp
next
  case (Suc n)
  from Suc.prems have "Suc dst \<le> Suc src \<or> Suc src + n \<le> Suc dst" by auto
  then have "rep_movsb (Suc n) dst src m = copied (Suc dst) (Suc src) 0 n (m(dst := m src))"
    by (simp only: rep_movsb.simps Suc.IH)
  also have "\<dots> = copied dst src 0 (Suc n) m"
    using Suc.prems by (auto simp: copied_def fun_eq_iff intro!: arg_cong [where f = m])
  finally show ?case .
qed

lemma copied_step_byte:
  assumes "src < dst" "0 < k" "k \<le> N"
  shows "(copied dst src k N m)
           (dst + (k - 1) := copied dst src k N m (src + (k - 1))) = copied dst src (k - 1) N m"
  using assms by (auto simp: copied_def fun_eq_iff)

lemma copied_step_block:
  assumes "src < dst" "w \<le> k" "k \<le> N"
  shows "(\<lambda>x. if dst + (k - w) \<le> x \<and> x < dst + k
              then copied dst src k N m (src + (x - dst)) else copied dst src k N m x)
         = copied dst src (k - w) N m"
  using assms by (auto simp: copied_def fun_eq_iff)

lemma memmove_align_copied:
  assumes "src < dst" "dst + N < 2 ^ 64" "k \<le> N"
  shows "\<exists>k' \<le> k. memmove_align dst src k (copied dst src k N m) = (k', copied dst src k' N m)
           \<and> (k' = 0 \<or> (dst + k') mod 8 = 0)"
  using assms(3)
proof (induction k)
  case 0
  then show ?case by (simp add: memmove_align.simps)
next
  case (Suc k)
  show ?case
  proof (cases "(dst + Suc k) mod 8 = 0")
    case True
    then show ?thesis
      using Suc.prems assms(2) by (intro exI [of _ "Suc k"]) (simp add: memmove_align.simps)
  next
    case False
    have "memmove_align dst src (Suc k) (copied dst src (Suc k) N m)
          = memmove_align dst src k (copied dst src k N m)"
      using False Suc.prems assms copied_step_byte [of src dst "Suc k" N m]
      by (subst memmove_align.simps) (simp add: Let_def)
    then show ?thesis using Suc by (metis Suc_leD le_Suc_eq)
  qed
qed

lemma memmove_words_copied:
  assumes "src < dst" "dst + N < 2 ^ 64" "k \<le> N" "k = 0 \<or> (dst + k) mod 8 = 0"
  shows "\<exists>k' < 8. k' \<le> k \<and> memmove_words dst src k (copied dst src k N m) = Inr (k', copied dst src k' N m)"
  using assms(3,4)
proof (induction k rule: less_induct)
  case (less k)
  show ?case
  proof (cases "8 \<le> k")
    case False
    then show ?thesis by (auto simp: memmove_words.simps)
  next
    case True
    then have al: "(dst + (k - 8)) mod 8 = 0"
      using less.prems(2) by (metis Nat.add_diff_assoc le_mod_geq mod_if not_numeral_le_zero
          le_add2 order_trans)
    have w: "write_u64 (copied dst src k N m) (dst + (k - 8))
               (read_unaligned_u64 (copied dst src k N m) (src + (k - 8)))
             = Inr (copied dst src (k - 8) N m)"
    proof -
      have "(\<lambda>x. if dst + (k - 8) \<le> x \<and> x < dst + (k - 8) + 8
               then read_unaligned_u64 (copied dst src k N m) (src + (k - 8)) ! (x - (dst + (k - 8)))
               else copied dst src k N m x)
            = (\<lambda>x. if dst + (k - 8) \<le> x \<and> x < dst + k
                   then copied dst src k N m (src + (x - dst)) else copied dst src k N m x)"
        using True by (auto simp: fun_eq_iff read_unaligned_u64_def intro!: arg_cong [where f = "copied dst src k N m"])
      also have "\<dots> = copied dst src (k - 8) N m"
        using assms(1) True less.prems(1) by (rule copied_step_block)
      finally show ?thesis using al by (simp add: write_u64_def)
    qed
    have "memmove_words dst src k (copied dst src k N m)
          = memmove_words dst src (k - 8) (copied dst src (k - 8) N m)"
      using True less.prems assms(2) w by (subst memmove_words.simps) (simp add: Let_def)
    then show ?thesis
      using less.IH [of "k - 8"] True less.prems al by fastforce
  qed
qed

lemma memmove_bytes_copied:
  assumes "src < dst" "dst + N < 2 ^ 64" "k \<le> N"
  shows "memmove_bytes dst src k (copied dst src k N m) = copied dst src 0 N m"
  using assms(3)
proof (induction k)
  case (Suc k)
  have "memmove_bytes dst src (Suc k) (copied dst src (Suc k) N m)
        = memmove_bytes dst src k (copied dst src k N m)"
    using Suc.prems assms copied_step_byte [of src dst "Suc k" N m]
    by (subst memmove_bytes.simps) (simp add: Let_def)
  then show ?case using Suc by simp
qed (simp add: memmove_bytes.simps)

lemma memmove_chunks_copied:
  assumes "src < dst" "dst + N < 2 ^ 64" "k \<le> N"
  shows "\<exists>k' < dst - src. memmove_chunks dst src k (copied dst src k N m)
           = (k', copied dst src k' N m)"
  using assms(3)
proof (induction k rule: less_induct)
  case (less k)
  define w where "w = dst - src"
  show ?case
  proof (cases "w \<le> k")
    case False
    then show ?thesis using assms(1) by (auto simp: memmove_chunks.simps w_def)
  next
    case True
    have "rep_movsb w (dst + (k - w)) (src + (k - w)) (copied dst src k N m)
          = copied (dst + (k - w)) (src + (k - w)) 0 w (copied dst src k N m)"
      using assms(1) by (intro rep_movsb_forward) (simp add: w_def)
    also have "\<dots> = (\<lambda>x. if dst + (k - w) \<le> x \<and> x < dst + k
                   then copied dst src k N m (src + (x - dst)) else copied dst src k N m x)"
      using True by (subst copied_def)
        (auto simp: fun_eq_iff intro!: arg_cong [where f = "copied dst src k N m"])
    also have "\<dots> = copied dst src (k - w) N m"
      using assms(1) True less.prems by (rule copied_step_block)
    finally have "memmove_chunks dst src k (copied dst src k N m)
          = memmove_chunks dst src (k - w) (copied dst src (k - w) N m)"
      using True less.prems assms
      by (subst memmove_chunks.simps) (simp add: Let_def memcpy_def w_def)
    then show ?thesis
      using less.IH [of "k - w"] True less.prems assms(1) by (simp add: w_def)
  qed
qed

lemma memmove_copied:
  assumes "src + n < 2 ^ 64" "dst + n < 2 ^ 64"
  shows "memmove dst src n m = Inr (dst, copied dst src 0 n m)"
proof (cases "src < dst \<and> dst < src + n")
  case False
  then have "dst \<le> src \<or> src + n \<le> dst" by auto
  with False assms(1) show ?thesis by (auto simp: memmove_def memcpy_def rep_movsb_forward)
next
  case overlap: True
  show ?thesis
  proof (cases "dst - src < 64")
    case True
    obtain k1 where k1: "k1 \<le> n" "memmove_align dst src n m = (k1, copied dst src k1 n m)"
        "k1 = 0 \<or> (dst + k1) mod 8 = 0"
      using memmove_align_copied [of src dst n n m] overlap assms(2) by auto
    obtain k2 where k2: "k2 < 8"
        "memmove_words dst src k1 (copied dst src k1 n m) = Inr (k2, copied dst src k2 n m)"
        "k2 \<le> n"
      using memmove_words_copied [of src dst n k1 m] overlap assms(2) k1(1,3) by fastforce
    have "memmove_bytes dst src k2 (copied dst src k2 n m) = copied dst src 0 n m"
      using overlap assms(2) k2(3) by (intro memmove_bytes_copied) auto
    with True overlap assms k1 k2 show ?thesis by (simp add: memmove_def)
  next
    case False
    obtain k where k: "k < dst - src" "memmove_chunks dst src n m = (k, copied dst src k n m)"
      using memmove_chunks_copied [of src dst n n m] overlap assms(2) by auto
    have "k \<le> n" using k(1) overlap by auto
    then have "rep_movsb k dst src (copied dst src k n m) = copied dst src 0 n m"
      using k(1) by (subst rep_movsb_forward) (auto simp: copied_def fun_eq_iff)
    with False overlap assms k show ?thesis by (auto simp: memmove_def memcpy_def)
  qed
qed

lemma rep_stosb_fill:
  "rep_stosb n ptr al m = (\<lambda>x. if ptr \<le> x \<and> x < ptr + n then al else m x)"
  by (induction n arbitrary: ptr m) (auto simp: fun_eq_iff)

lemma memcmp_from_zero_iff:
  "memcmp_from i a b n m = 0 \<longleftrightarrow> (\<forall>j. i \<le> j \<and> j < n \<longrightarrow> m (a + j) = m (b + j))"
proof (induction i a b n m rule: memcmp_from.induct)
  case (1 i a b n m)
  show ?case
  proof (cases "i < n \<and> m (a + i) = m (b + i)")
    case True
    then have "memcmp_from i a b n m = memcmp_from (Suc i) a b n m"
      by (subst memcmp_from.simps) (simp add: Let_def)
    moreover have "(\<forall>j. i \<le> j \<and> j < n \<longrightarrow> m (a + j) = m (b + j))
        \<longleftrightarrow> (\<forall>j. Suc i \<le> j \<and> j < n \<longrightarrow> m (a + j) = m (b + j))"
      using True by (metis Suc_leD Suc_leI le_neq_implies_less)
    ultimately show ?thesis using "1.IH" True by simp
  next
    case False
    then show ?thesis
      by (subst memcmp_from.simps) (auto simp: Let_def word_uint_eq_iff)
  qed
qed

lemma memcmp_from_first_difference:
  assumes "i \<le> k" "k < n" "m (a + k) \<noteq> m (b + k)"
    and "\<And>j. i \<le> j \<Longrightarrow> j < k \<Longrightarrow> m (a + j) = m (b + j)"
  shows "memcmp_from i a b n m = uint (m (a + k)) - uint (m (b + k))"
  using assms
proof (induction "k - i" arbitrary: i)
  case 0
  then have "k = i" by simp
  with 0 show ?case by (subst memcmp_from.simps) (simp add: Let_def)
next
  case (Suc d)
  then have "memcmp_from i a b n m = memcmp_from (Suc i) a b n m"
    by (subst memcmp_from.simps) (auto simp: Let_def)
  with Suc show ?case by simp
qed

section \<open>Alignment helpers\<close>

text \<open>\<open>usize::is_power_of_two\<close>: exactly one of the 64 bits is set.\<close>

definition is_power_of_two :: "u64 \<Rightarrow> bool" where
  "is_power_of_two a \<longleftrightarrow> list_ex (\<lambda>k. a = push_bit k 1) [0..<64]"

definition align_down :: "u64 \<Rightarrow> u64 \<Rightarrow> u64 res" where
  "align_down addr align =
     (if is_power_of_two align then Inr (addr AND NOT (align - 1))
      else if align = 0 then Inr addr
      else Inl (Panic (ExplicitPanic ''`align` must be a power of 2'')))"

definition align_up :: "u64 \<Rightarrow> u64 \<Rightarrow> u64 res" where
  "align_up addr align =
     bind_r (chk 64 (unat addr + unat align)) (\<lambda>s.
     bind_r (sub_chk s 1) (\<lambda>t.
       align_down (word_of_nat t) align))"

lemma is_power_of_two_iff: "is_power_of_two a \<longleftrightarrow> (\<exists>k < 64. a = 2 ^ k)"
  by (auto simp: is_power_of_two_def list_ex_iff push_bit_eq_mult)

lemma align_down_pow2:
  assumes "k < 64"
  shows "align_down addr (2 ^ k) = Inr (word_of_nat (unat addr div 2 ^ k * 2 ^ k))"
  using assms by (auto simp: align_down_def is_power_of_two_iff and_not_mask_word)


section \<open>Size macros and memory regions\<close>

definition size_kb :: "nat \<Rightarrow> nat" where
  "size_kb e = e * 1024"

definition size_mb :: "nat \<Rightarrow> nat" where
  "size_mb e = e * 1024 * 1024"

definition size_gb :: "nat \<Rightarrow> nat" where
  "size_gb e = e * 1024 * 1024 * 1024"

definition size_tb :: "nat \<Rightarrow> nat" where
  "size_tb e = e * 1024 * 1024 * 1024 * 1024"

definition size_pb :: "nat \<Rightarrow> nat" where
  "size_pb e = e * 1024 * 1024 * 1024 * 1024 * 1024"

definition PAGE_TABLE_OFFSET :: nat where
  "PAGE_TABLE_OFFSET = size_tb 10"

definition PROCESS_STACK_ADDRESS :: nat where
  "PROCESS_STACK_ADDRESS = size_gb 5"

definition HEAP_START :: nat where
  "HEAP_START = size_tb 3"

definition HEAP_SIZE :: nat where
  "HEAP_SIZE = size_mb 10"

definition KERNEL_CODE :: nat where
  "KERNEL_CODE = size_tb 2"

lemmas size_macros = size_kb_def size_mb_def size_gb_def size_tb_def size_pb_def

lemmas memory_regions = PAGE_TABLE_OFFSET_def PROCESS_STACK_ADDRESS_def HEAP_START_def
  HEAP_SIZE_def KERNEL_CODE_def size_macros

section \<open>Properties\<close>

text \<open>
  C20: \<open>memmove\<close> returns \<open>dst\<close> without a misaligned wide store, and afterwards the destination holds
  the bytes the source held before the call, for every overlap of the two objects and for every
  length, while every address outside the destination is unchanged. The only assumption is that
  neither object reaches the end of the 64-bit address space.
\<close>
theorem memmove_correct:
  assumes "src + n < 2 ^ 64" "dst + n < 2 ^ 64"
  shows "\<exists>m'. memmove dst src n m = Inr (dst, m')
           \<and> (\<forall>i. m' (dst + i) = (if i < n then m (src + i) else m (dst + i)))
           \<and> (\<forall>x. x < dst \<longrightarrow> m' x = m x)"
  using memmove_copied [OF assms] by (simp add: copied_def)

theorem memmove_correct_witness:
  "\<exists>m'. memmove 3 1 5 (\<lambda>a. word_of_nat a) = Inr (3, m')
     \<and> (\<forall>i. m' (3 + i) = (if i < 5 then word_of_nat (1 + i) else word_of_nat (3 + i)))
     \<and> (\<forall>x. x < 3 \<longrightarrow> m' x = word_of_nat x)"
  using memmove_correct [of 1 5 3 "\<lambda>a. word_of_nat a"] by simp

text \<open>
  \<open>memcmp\<close> is \<open>0\<close> exactly when the two objects are equal, and otherwise has the sign of the first
  byte that differs, compared as unsigned bytes.
\<close>
theorem memcmp_correct:
  "(memcmp a b n m = 0 \<longleftrightarrow> (\<forall>i < n. m (a + i) = m (b + i)))
   \<and> (\<forall>k < n. m (a + k) \<noteq> m (b + k) \<and> (\<forall>j < k. m (a + j) = m (b + j))
        \<longrightarrow> memcmp a b n m = uint (m (a + k)) - uint (m (b + k)))"
  using memcmp_from_zero_iff [of 0 a b n m] memcmp_from_first_difference [of 0 _ n m a b]
  by (auto simp: memcmp_def)

theorem memcmp_correct_witness:
  "memcmp 0 10 3 (\<lambda>x. if x = 2 then 7 else if x = 12 then 9 else 1) = -2"
proof -
  let ?m = "\<lambda>x::nat. if x = 2 then 7 else if x = 12 then 9 else (1::u8)"
  have "2 < (3::nat) \<and> ?m (0 + 2) \<noteq> ?m (10 + 2) \<and> (\<forall>j < 2. ?m (0 + j) = ?m (10 + j))" by simp
  with memcmp_correct [of 0 10 3 ?m] have "memcmp 0 10 3 ?m = uint (?m (0 + 2)) - uint (?m (10 + 2))"
    by blast
  then show ?thesis by simp
qed

text \<open>
  \<open>align_down\<close> returns the greatest multiple of a power-of-two alignment that is at most \<open>addr\<close>;
  it returns \<open>addr\<close> for alignment \<open>0\<close> and panics for every other alignment.
\<close>
theorem align_down_correct:
  "(k < 64 \<longrightarrow> (\<exists>r. align_down addr (2 ^ k) = Inr r \<and> 2 ^ k dvd unat r \<and> unat r \<le> unat addr
                 \<and> unat addr < unat r + 2 ^ k))
   \<and> align_down addr 0 = Inr addr
   \<and> (align \<noteq> 0 \<and> \<not> is_power_of_two align \<longrightarrow>
        (\<exists>msg. align_down addr align = Inl (Panic (ExplicitPanic msg))))"
proof (intro conjI impI)
  assume k: "k < 64"
  let ?q = "unat addr div 2 ^ k * 2 ^ k"
  have "?q \<le> unat addr" by simp
  then have "unat (word_of_nat ?q :: u64) = ?q"
    by (rule unat_word_of_nat_le)
  moreover have "unat addr < ?q + 2 ^ k"
    by (metis add_less_cancel_left div_mult_mod_eq mod_less_divisor zero_less_numeral zero_less_power)
  ultimately show "\<exists>r. align_down addr (2 ^ k) = Inr r \<and> 2 ^ k dvd unat r \<and> unat r \<le> unat addr
      \<and> unat addr < unat r + 2 ^ k"
    using k by (simp add: align_down_pow2)
qed (auto simp: align_down_def is_power_of_two_iff)

theorem align_down_correct_witness:
  "\<exists>r. align_down 4100 4096 = Inr r \<and> 4096 dvd unat r \<and> unat r \<le> 4100 \<and> 4100 < unat r + 4096"
  using align_down_correct [of 12 4100 0] by simp

end
