(* ===== verification/Efi.thy ===== *)
theory Efi
  imports Util
begin

text \<open>
  \<open>kernel_api/common/src/efi.rs\<close>: the firmware's memory map and the state the code keeps about the
  firmware.

  A memory descriptor is a record with the source's fields (\<open>size\<close> is called \<open>page_count\<close>, its
  unit; the name \<open>size\<close> is taken in HOL). Addresses and sizes are \<open>usize\<close>, natural numbers with the
  64-bit overflow checks of the arithmetic written out. The firmware's own services (the function
  pointers of \<open>BootServices\<close>) are parameters.
\<close>

section \<open>Memory types and descriptors\<close>

datatype MemoryType =
    Reserved
  | LoaderCode
  | LoaderData
  | BootServicesCode
  | BootServicesData
  | RuntimeServicesCode
  | RuntimeServicesData
  | Conventional
  | Unusable
  | ACPIReclaim
  | ACPINVS
  | MemoryMappedIO
  | MemoryMappedIOPortSpace
  | PalCode
  | PersistentMemory
  | MaxMemoryType

fun is_usable :: "MemoryType \<Rightarrow> bool" where
  "is_usable BootServicesCode = True"
| "is_usable Conventional = True"
| "is_usable _ = False"

text \<open>The discriminants of the \<open>repr(u32)\<close> enum (\<open>*self as u32\<close>).\<close>

fun memory_type_as_u32 :: "MemoryType \<Rightarrow> nat" where
  "memory_type_as_u32 Reserved = 0"
| "memory_type_as_u32 LoaderCode = 1"
| "memory_type_as_u32 LoaderData = 2"
| "memory_type_as_u32 BootServicesCode = 3"
| "memory_type_as_u32 BootServicesData = 4"
| "memory_type_as_u32 RuntimeServicesCode = 5"
| "memory_type_as_u32 RuntimeServicesData = 6"
| "memory_type_as_u32 Conventional = 7"
| "memory_type_as_u32 Unusable = 8"
| "memory_type_as_u32 ACPIReclaim = 9"
| "memory_type_as_u32 ACPINVS = 10"
| "memory_type_as_u32 MemoryMappedIO = 11"
| "memory_type_as_u32 MemoryMappedIOPortSpace = 12"
| "memory_type_as_u32 PalCode = 13"
| "memory_type_as_u32 PersistentMemory = 14"
| "memory_type_as_u32 MaxMemoryType = 15"

text \<open>\<open>Debug for MemoryType\<close> matches on the discriminant, not on the constructor.\<close>

definition memory_type_fmt :: "MemoryType \<Rightarrow> string" where
  "memory_type_fmt t =
     (let d = memory_type_as_u32 t in
      if d = 0 then ''Reserved''
      else if d = 1 then ''LoaderCode''
      else if d = 2 then ''LoaderData''
      else if d = 3 then ''BootServicesCode''
      else if d = 4 then ''BootServicesData''
      else if d = 5 then ''RuntimeServicesCode''
      else if d = 6 then ''RuntimeServicesData''
      else if d = 7 then ''Conventional''
      else if d = 8 then ''Unusable''
      else if d = 9 then ''ACPIReclaim''
      else if d = 10 then ''ACPINVS''
      else if d = 11 then ''MemoryMappedIO''
      else if d = 12 then ''MemoryMappedIOPortSpace''
      else if d = 13 then ''PalCode''
      else if d = 14 then ''PersistentMemory''
      else if d = 15 then ''MaxMemoryType''
      else ''Unknown Memory Type'')"

definition memory_type_default :: MemoryType where
  "memory_type_default = Reserved"

record MemoryDescriptor =
  memory_type :: MemoryType
  physical_address :: nat
  virtual_address :: nat
  page_count :: nat
  attributes :: u64
  r1 :: u64

definition is_runtime :: "MemoryDescriptor \<Rightarrow> bool" where
  "is_runtime d \<longleftrightarrow> attributes d AND 0x8000000000000000 > 0"

text \<open>The entry the loops over a map stop at.\<close>

definition is_end_entry :: "MemoryDescriptor \<Rightarrow> bool" where
  "is_end_entry d \<longleftrightarrow> physical_address d = 0 \<and> virtual_address d = 0 \<and> page_count d = 0"

definition empty_descriptor :: MemoryDescriptor where
  "empty_descriptor =
     \<lparr>memory_type = Reserved, physical_address = 0, virtual_address = 0, page_count = 0,
      attributes = 0, r1 = 0\<rparr>"

definition DESCRIPTORS :: "MemoryDescriptor list" where
  "DESCRIPTORS = replicate 1024 empty_descriptor"

section \<open>Sums over the map\<close>

definition desc_bytes :: "MemoryDescriptor \<Rightarrow> nat res" where
  "desc_bytes d = chk 64 (page_count d * 4096)"

fun mem_size_from :: "MemoryDescriptor list \<Rightarrow> nat \<Rightarrow> nat res" where
  "mem_size_from [] all = Inr all"
| "mem_size_from (d # ds) all =
     (if is_end_entry d then Inr all
      else bind_r (desc_bytes d) (\<lambda>b. bind_r (chk 64 (all + b)) (mem_size_from ds)))"

definition get_mem_size :: "MemoryDescriptor list \<Rightarrow> nat res" where
  "get_mem_size mm = mem_size_from mm 0"

text \<open>
  \<open>print_memory_map\<close>: the totals it prints at the end and the fields of every line before it. The
  three multiplications of an iteration are the same checked product.
\<close>

type_synonym map_line = "nat \<times> nat \<times> nat \<times> MemoryType \<times> bool"

fun print_map_from ::
    "MemoryDescriptor list \<Rightarrow> nat \<Rightarrow> nat \<Rightarrow> map_line list \<Rightarrow> (nat \<times> nat \<times> map_line list) res" where
  "print_map_from [] all conventional out = Inr (all, conventional, out)"
| "print_map_from (d # ds) all conventional out =
     (if is_end_entry d then Inr (all, conventional, out)
      else
        bind_r (desc_bytes d) (\<lambda>b.
        bind_r (chk 64 (all + b)) (\<lambda>all'.
        bind_r (if memory_type d = Conventional then chk 64 (conventional + b)
                else Inr conventional) (\<lambda>conv'.
          print_map_from ds all' conv'
            (out @ [(physical_address d, virtual_address d, b, memory_type d, is_runtime d)])))))"

definition print_memory_map :: "MemoryDescriptor list \<Rightarrow> (nat \<times> nat \<times> map_line list) res" where
  "print_memory_map mm = print_map_from mm 0 0 []"

section \<open>The system table pointer\<close>

text \<open>
  \<open>GLOBAL_SYSTEM_TABLE\<close> is an atomic pointer, \<open>0\<close> when null. \<open>compare_exchange\<close> returns the previous
  value, as \<open>Ok\<close> (\<open>Inr\<close>) when it stored the new one and as \<open>Err\<close> (\<open>Inl\<close>) when it did not.
\<close>

definition compare_exchange :: "nat \<Rightarrow> nat \<Rightarrow> nat \<Rightarrow> (nat + nat) \<times> nat" where
  "compare_exchange cur old new = (if cur = old then (Inr cur, new) else (Inl cur, cur))"

definition register_global_system_table :: "nat \<Rightarrow> nat \<Rightarrow> (nat + nat) \<times> nat" where
  "register_global_system_table global_system_table table =
     compare_exchange global_system_table 0 table"

text \<open>
  Every change of the pointer after boot is a call of \<open>register_global_system_table\<close>; the calls of a
  run, in order, starting from the initial null pointer.
\<close>

inductive system_table_run :: "nat list \<Rightarrow> nat \<Rightarrow> bool" where
  start: "system_table_run [] 0"
| call: "system_table_run ts cur \<Longrightarrow>
     snd (register_global_system_table cur t) = cur' \<Longrightarrow> system_table_run (ts @ [t]) cur'"

inductive_cases system_table_runE: "system_table_run ts cur"

section \<open>Reading the map and leaving the boot services\<close>

text \<open>
  \<open>get_memory_map\<close> and \<open>exit_boot_services\<close> of the firmware are parameters: the first fills the
  descriptor array and returns a status, the key and the descriptor version; the second returns a
  status. Both statuses are asserted to be \<open>0\<close>. The array's own size and the firmware's descriptor
  size are not compared by the code.
\<close>

record boot_services =
  bs_get_memory_map :: "nat \<Rightarrow> MemoryDescriptor list \<Rightarrow> nat \<times> MemoryDescriptor list \<times> nat \<times> nat"
  bs_exit_boot_services :: "nat \<Rightarrow> nat \<Rightarrow> nat"

definition size_of_MemoryDescriptor :: nat where
  "size_of_MemoryDescriptor = 48"

definition get_memory_map ::
    "boot_services \<Rightarrow> nat \<Rightarrow> MemoryDescriptor list \<Rightarrow> (MemoryDescriptor list \<times> nat) res" where
  "get_memory_map bs image_handle descriptors =
     (let sz = length descriptors * size_of_MemoryDescriptor;
          (result, descriptors', key, version) = bs_get_memory_map bs sz descriptors
      in bind_r (assert_r (result = 0)) (\<lambda>_.
         let result2 = bs_exit_boot_services bs image_handle key
         in bind_r (assert_r (result2 = 0)) (\<lambda>_. Inr (descriptors', version))))"

section \<open>The configuration table iterator\<close>

text \<open>
  The firmware's configuration table is an array of \<open>entry_count\<close> pairs of a GUID and a pointer,
  read through a raw pointer: a read past the array is undefined behaviour.
\<close>

record GUID =
  guid_a :: u32
  guid_b :: u16
  guid_c :: u16
  guid_d :: "u8 list"

record ConfigurationTableIterator =
  configuration_base :: "(GUID \<times> nat) list"
  ct_size :: nat
  ct_index :: nat

definition config_tables :: "(GUID \<times> nat) list \<Rightarrow> nat \<Rightarrow> ConfigurationTableIterator" where
  "config_tables configuration_table entry_count =
     \<lparr>configuration_base = configuration_table, ct_size = entry_count, ct_index = 0\<rparr>"

definition config_table_at :: "ConfigurationTableIterator \<Rightarrow> nat \<Rightarrow> (GUID \<times> nat) res" where
  "config_table_at it i =
     (if i < length (configuration_base it) then Inr (configuration_base it ! i)
      else Inl UndefinedBehaviour)"

definition config_next ::
    "ConfigurationTableIterator \<Rightarrow> ((GUID \<times> nat) option \<times> ConfigurationTableIterator) res" where
  "config_next it =
     (if ct_index it < ct_size it then
        bind_r (config_table_at it (ct_index it)) (\<lambda>table.
          Inr (Some table, it\<lparr>ct_index := ct_index it + 1\<rparr>))
      else Inr (None, it))"

interpretation config: indexed_iterator config_next ct_index ct_size config_table_at
    "\<lambda>it. it\<lparr>ct_index := ct_index it + 1\<rparr>"
  by unfold_locales (auto simp: config_next_def config_table_at_def fun_eq_iff)

text \<open>\<open>PartialEq for GUID\<close>.\<close>

definition guid_eq :: "GUID \<Rightarrow> GUID \<Rightarrow> bool" where
  "guid_eq x y \<longleftrightarrow>
     guid_a x = guid_a y \<and> guid_b x = guid_b y \<and> guid_c x = guid_c y \<and> guid_d x = guid_d y"

section \<open>Properties\<close>

lemma mem_size_from_sum:
  "(\<forall>d \<in> set ds. \<not> is_end_entry d) \<Longrightarrow>
   all + (\<Sum>d\<leftarrow>ds. page_count d * 4096) < 2 ^ 64 \<Longrightarrow>
   mem_size_from (ds @ rest) all
     = mem_size_from rest (all + (\<Sum>d\<leftarrow>ds. page_count d * 4096))"
proof (induction ds arbitrary: all)
  case (Cons d ds)
  then have "all + page_count d * 4096 < 2 ^ 64" by simp
  then have "mem_size_from ((d # ds) @ rest) all
      = mem_size_from (ds @ rest) (all + page_count d * 4096)"
    using Cons.prems(1) by (simp add: desc_bytes_def chk_ok)
  with Cons show ?case by (simp add: add.assoc)
qed simp

lemma print_map_from_totals:
  "print_map_from ds all conv out = Inr (all', conv', out') \<Longrightarrow>
     mem_size_from ds all = Inr all' \<and> conv' + all \<le> conv + all'"
proof (induction ds arbitrary: all conv out)
  case (Cons d ds)
  show ?case
  proof (cases "is_end_entry d")
    case False
    then obtain conv1 out1 where
        rec: "print_map_from ds (all + page_count d * 4096) conv1 out1 = Inr (all', conv', out')"
      and bnd: "page_count d * 4096 < 2 ^ 64" "all + page_count d * 4096 < 2 ^ 64"
      and conv1: "conv1 \<le> conv + page_count d * 4096"
      using Cons.prems by (auto simp: desc_bytes_def split: if_splits)
    from Cons.IH [OF rec] bnd conv1 False show ?thesis
      by (auto simp: desc_bytes_def chk_ok)
  qed (use Cons in auto)
qed simp

text \<open>
  The memory size the loader and the kernel compute is the number of bytes of all descriptors up
  to the first empty entry, provided that the sum fits 64 bits; entries after the empty one are not
  counted.
\<close>
theorem get_mem_size_sum:
  assumes "\<forall>d \<in> set ds. \<not> is_end_entry d" "is_end_entry e"
    and "(\<Sum>d\<leftarrow>ds. page_count d * 4096) < 2 ^ 64"
  shows "get_mem_size (ds @ e # rest) = Inr (\<Sum>d\<leftarrow>ds. page_count d * 4096)"
  using mem_size_from_sum [OF assms(1), of 0 "e # rest"] assms(2,3) by (simp add: get_mem_size_def)

theorem get_mem_size_sum_witness:
  "get_mem_size ([empty_descriptor\<lparr>page_count := 2\<rparr>, empty_descriptor\<lparr>physical_address := 8192,
       page_count := 3\<rparr>] @ empty_descriptor # [empty_descriptor\<lparr>page_count := 9\<rparr>]) = Inr 20480"
  using get_mem_size_sum [of "[empty_descriptor\<lparr>page_count := 2\<rparr>,
      empty_descriptor\<lparr>physical_address := 8192, page_count := 3\<rparr>]" empty_descriptor
      "[empty_descriptor\<lparr>page_count := 9\<rparr>]"]
  by (simp add: is_end_entry_def empty_descriptor_def)

text \<open>
  The system table is registered once: in every run of registrations the pointer holds the first
  non-null table that was passed, and every later call fails and leaves it.
\<close>
theorem system_table_registered_once:
  "system_table_run ts cur \<Longrightarrow>
     cur = (case filter (\<lambda>t. t \<noteq> 0) ts of [] \<Rightarrow> 0 | t # _ \<Rightarrow> t)
     \<and> (cur \<noteq> 0 \<longrightarrow> register_global_system_table cur t = (Inl cur, cur))"
  by (induction rule: system_table_run.induct)
    (auto simp: register_global_system_table_def compare_exchange_def
      split: list.splits if_splits dest!: filter_eq_ConsD)

theorem system_table_registered_once_witness:
  "system_table_run [0, 7, 9] 7 \<and> register_global_system_table 7 9 = (Inl 7, 7)"
proof -
  have r: "system_table_run ((([] @ [0]) @ [7]) @ [9]) 7"
    by (rule system_table_run.call [where cur = 7], rule system_table_run.call [where cur = 0],
        rule system_table_run.call [where cur = 0], rule system_table_run.start)
      (simp_all add: register_global_system_table_def compare_exchange_def)
  with system_table_registered_once [OF r, of 9] show ?thesis by simp
qed

text \<open>
  C32: a loop over the configuration tables visits exactly the first \<open>entry_count\<close> entries, in order,
  and reads outside the firmware's array only if \<open>entry_count\<close> exceeds its length.
\<close>
theorem config_tables_visits_all:
  "n \<le> length tbl \<Longrightarrow> drain config_next (Suc n) (config_tables tbl n) = Inr (Some (take n tbl))"
  using config.drain_pure [of "config_tables tbl n" "\<lambda>i. tbl ! i" "Suc n"]
  by (simp add: config_tables_def config_table_at_def map_nth take_map [symmetric] list_eq_iff_nth_eq)

theorem config_tables_visits_all_witness:
  "drain config_next 2 (config_tables [(\<lparr>guid_a = 1, guid_b = 2, guid_c = 3, guid_d = []\<rparr>, 64)] 1)
     = Inr (Some [(\<lparr>guid_a = 1, guid_b = 2, guid_c = 3, guid_d = []\<rparr>, 64)])"
  using config_tables_visits_all [of 1 "[(\<lparr>guid_a = 1, guid_b = 2, guid_c = 3, guid_d = []\<rparr>, 64)]"]
  by (simp add: numeral_2_eq_2)

end
