(* ===== verification/Mem.thy ===== *)
theory Mem
  imports Efi
begin

text \<open>
  \<open>kernel_api/common/src/mem.rs\<close>: the physical frame allocator and the mapping helpers.

  The allocator's \<open>addresses\<close> field is a lazy iterator, \<open>memory_map.iter().filter(usable).map(range)
  .flat_map(step_by 4096).map(frame)\<close>. Its state is the inner range being stepped through
  (\<open>addr_front\<close>) and the descriptors not yet looked at (\<open>addr_rest\<close>); \<open>next_address\<close> is
  \<open>FlatMap::next\<close> over it. The crate \<open>x86_64\<close> is a parameter: \<open>phys_frame a\<close> stands for
  \<open>PhysFrame::containing_address(PhysAddr::new(a))\<close>, \<open>frame_range\<close> and \<open>page_range\<close> for
  \<open>range_inclusive\<close> of the frames and pages containing two addresses, and \<open>map_to\<close>,
  \<open>identity_map\<close>, \<open>translate_page\<close> for the \<open>Mapper\<close> methods acting on the world (page tables and
  the frame allocator they draw from). What the code relies on are the named hypotheses
  \<open>frame_ops_4k\<close> and \<open>mapper_ok\<close>.
\<close>

section \<open>Frames and the address iterator\<close>

record 'f frame_ops =
  phys_frame :: "nat \<Rightarrow> 'f res"
  frame_start :: "'f \<Rightarrow> nat"

definition frame_ops_4k :: "'f frame_ops \<Rightarrow> bool" where
  "frame_ops_4k px \<longleftrightarrow>
     (\<forall>a < 2 ^ 52. \<exists>f. phys_frame px a = Inr f \<and> frame_start px f = a div 4096 * 4096)"

definition address_range :: "MemoryDescriptor \<Rightarrow> (nat \<times> nat) res" where
  "address_range u =
     bind_r (chk 64 (page_count u * 4096)) (\<lambda>b.
     bind_r (chk 64 (physical_address u + b)) (\<lambda>e.
       Inr (physical_address u, e)))"

record PageTableFrameAllocator =
  memory_map :: "MemoryDescriptor list"
  addr_front :: "(nat \<times> nat) option"
  addr_rest :: "MemoryDescriptor list"

function next_address ::
    "(nat \<times> nat) option \<Rightarrow> MemoryDescriptor list
       \<Rightarrow> (nat option \<times> (nat \<times> nat) option \<times> MemoryDescriptor list) res" where
  "next_address (Some (s, e)) ds =
     (if s < e then Inr (Some s, Some (s + 4096, e), ds) else next_address None ds)"
| "next_address None [] = Inr (None, None, [])"
| "next_address None (d # ds) =
     (if is_usable (memory_type d)
      then bind_r (address_range d) (\<lambda>r. next_address (Some r) ds)
      else next_address None ds)"
  by pat_completeness auto
termination
  by (relation "measure (\<lambda>(fr, ds). 2 * length ds + (if fr = None then 0 else 1))") auto

definition allocate_frame ::
    "'f frame_ops \<Rightarrow> PageTableFrameAllocator \<Rightarrow> ('f option \<times> PageTableFrameAllocator) res" where
  "allocate_frame px fa =
     bind_r (next_address (addr_front fa) (addr_rest fa)) (\<lambda>(a, fr, ds).
       let fa' = fa\<lparr>addr_front := fr, addr_rest := ds\<rparr> in
       case a of
         None \<Rightarrow> Inr (None, fa')
       | Some addr \<Rightarrow> bind_r (phys_frame px addr) (\<lambda>f. Inr (Some f, fa')))"

definition new_allocator :: "MemoryDescriptor list \<Rightarrow> PageTableFrameAllocator" where
  "new_allocator mm = \<lparr>memory_map = mm, addr_front = None, addr_rest = mm\<rparr>"

text \<open>\<open>usable_frames\<close>: a fresh iterator over the stored map, of the same shape.\<close>

definition usable_frames :: "PageTableFrameAllocator \<Rightarrow> PageTableFrameAllocator" where
  "usable_frames fa = fa\<lparr>addr_front := None, addr_rest := memory_map fa\<rparr>"

text \<open>
  \<open>swap_map\<close>: the \<open>while\<close> loop calls \<open>address_range.next().unwrap()\<close> until a range does not start
  below the current frame; the range that ends the loop has been taken out of the iterator, and the
  stored \<open>memory_map\<close> is not replaced.
\<close>

fun skip_ranges :: "nat option \<Rightarrow> MemoryDescriptor list \<Rightarrow> MemoryDescriptor list res" where
  "skip_ranges cur [] = Inl (Panic UnwrapNone)"
| "skip_ranges cur (d # ds) =
     (if is_usable (memory_type d) then
        bind_r (address_range d) (\<lambda>(s, e).
        bind_r (unwrap cur) (\<lambda>c. if s < c then skip_ranges cur ds else Inr ds))
      else skip_ranges cur ds)"

text \<open>The static \<open>ALLOCATOR\<close>: \<open>init\<close> puts an allocator there, and \<open>allocator\<close> panics before that.\<close>

definition mem_init :: "PageTableFrameAllocator \<Rightarrow> PageTableFrameAllocator option" where
  "mem_init alloc = Some alloc"

definition mem_allocator :: "PageTableFrameAllocator option \<Rightarrow> PageTableFrameAllocator res" where
  "mem_allocator ALLOCATOR = unwrap ALLOCATOR"

lemma mem_allocator_init [simp]: "mem_allocator (mem_init fa) = Inr fa"
  by (simp add: mem_allocator_def mem_init_def)

definition swap_map ::
    "'f frame_ops \<Rightarrow> MemoryDescriptor list \<Rightarrow> PageTableFrameAllocator
       \<Rightarrow> PageTableFrameAllocator res" where
  "swap_map px mm fa =
     bind_r (allocate_frame px fa) (\<lambda>(curr_frame, fa').
     bind_r (skip_ranges (map_option (frame_start px) curr_frame) mm) (\<lambda>ds.
       Inr (fa'\<lparr>addr_front := None, addr_rest := ds\<rparr>)))"

text \<open>
  \<open>allocate_size\<close>: \<open>n = size / 4096\<close> calls of \<open>allocate_frame\<close>, keeping the first frame; the initial
  value of \<open>ret_frame\<close> is the frame of address \<open>0\<close>.
\<close>

primrec allocate_rest ::
    "('s \<Rightarrow> ('f option \<times> 's) res) \<Rightarrow> nat \<Rightarrow> bool \<Rightarrow> 'f \<Rightarrow> 's \<Rightarrow> ('f option \<times> 's) res" where
  "allocate_rest alloc 0 is_first ret_frame s = Inr (Some ret_frame, s)"
| "allocate_rest alloc (Suc n) is_first ret_frame s =
     bind_r (alloc s) (\<lambda>(r, s').
       case r of
         Some f \<Rightarrow> allocate_rest alloc n False (if is_first then f else ret_frame) s'
       | None \<Rightarrow> Inr (None, s'))"

definition allocate_size ::
    "'f frame_ops \<Rightarrow> nat \<Rightarrow> PageTableFrameAllocator
       \<Rightarrow> (('f \<times> nat) option \<times> PageTableFrameAllocator) res" where
  "allocate_size px sz fa =
     (let n = sz div 4096 in
      bind_r (phys_frame px 0) (\<lambda>ret_frame.
      bind_r (allocate_rest (allocate_frame px) n True ret_frame fa) (\<lambda>(r, fa').
        Inr (map_option (\<lambda>f. (f, n)) r, fa'))))"

section \<open>The contract of a frame source\<close>

text \<open>
  What a client of \<open>FrameAllocator\<close> relies on: the allocator holds a finite sequence of frames still
  to be handed out; \<open>allocate_frame\<close> returns the first and keeps the others, and returns \<open>None\<close> when
  there is none.
\<close>

primrec alloc_many :: "('s \<Rightarrow> ('f option \<times> 's) res) \<Rightarrow> nat \<Rightarrow> 's \<Rightarrow> ('f list \<times> 's) res" where
  "alloc_many alloc 0 s = Inr ([], s)"
| "alloc_many alloc (Suc n) s =
     bind_r (alloc s) (\<lambda>(r, s').
     bind_r (unwrap r) (\<lambda>f.
     bind_r (alloc_many alloc n s') (\<lambda>(fs, s''). Inr (f # fs, s''))))"

locale frame_source =
  fixes alloc :: "'s \<Rightarrow> ('f option \<times> 's) res"
    and left :: "'s \<Rightarrow> 'f list"
    and inv :: "'s \<Rightarrow> bool"
  assumes alloc_none: "inv s \<Longrightarrow> left s = [] \<Longrightarrow>
      \<exists>s'. alloc s = Inr (None, s') \<and> left s' = [] \<and> inv s'"
    and alloc_some: "inv s \<Longrightarrow> left s = f # fs \<Longrightarrow>
      \<exists>s'. alloc s = Inr (Some f, s') \<and> left s' = fs \<and> inv s'"
begin

lemma alloc_many_take:
  "inv s \<Longrightarrow> n \<le> length (left s) \<Longrightarrow>
     \<exists>s'. alloc_many alloc n s = Inr (take n (left s), s') \<and> left s' = drop n (left s) \<and> inv s'"
proof (induction n arbitrary: s)
  case (Suc n)
  then obtain f fs where fs: "left s = f # fs" by (cases "left s") auto
  with alloc_some Suc.prems(1) obtain s1 where
    s1: "alloc s = Inr (Some f, s1)" "left s1 = fs" "inv s1" by blast
  with Suc.IH [of s1] Suc.prems(2) fs show ?case by fastforce
qed simp

lemma alloc_many_enough:
  "inv s \<Longrightarrow> alloc_many alloc n s = Inr (fs, s') \<Longrightarrow> n \<le> length (left s)"
proof (induction n arbitrary: s fs s')
  case (Suc n)
  show ?case
  proof (cases "left s")
    case Nil
    with alloc_none Suc.prems show ?thesis by fastforce
  next
    case (Cons g gs)
    with alloc_some Suc.prems(1) obtain s1 where
      s1: "alloc s = Inr (Some g, s1)" "left s1 = gs" "inv s1" by blast
    with Suc.IH [of s1] Suc.prems(2) Cons show ?thesis by fastforce
  qed
qed simp

lemma alloc_many_result:
  assumes "inv s" "alloc_many alloc n s = Inr (fs, s')"
  shows "fs = take n (left s) \<and> left s' = drop n (left s) \<and> inv s'"
  using alloc_many_take [OF assms(1) alloc_many_enough [OF assms]] assms(2) by auto

lemma allocate_rest_spec:
  "inv s \<Longrightarrow>
     \<exists>s'. allocate_rest alloc n b r s =
            Inr (if n \<le> length (left s) then Some (if b \<and> 0 < n then hd (left s) else r) else None, s')
        \<and> left s' = drop n (left s) \<and> inv s'"
proof (induction n arbitrary: s b r)
  case (Suc n)
  show ?case
  proof (cases "left s")
    case Nil
    with alloc_none Suc.prems show ?thesis by fastforce
  next
    case (Cons f fs)
    with alloc_some Suc.prems obtain s1 where
      s1: "alloc s = Inr (Some f, s1)" "left s1 = fs" "inv s1" by blast
    with Suc.IH [of s1 False "if b then f else r"] Cons show ?thesis by auto
  qed
qed simp

end

section \<open>What the allocator still holds\<close>

function step_addrs :: "nat \<Rightarrow> nat \<Rightarrow> nat list" where
  "step_addrs s e = (if s < e then s # step_addrs (s + 4096) e else [])"
  by pat_completeness auto
termination
  by (relation "measure (\<lambda>(s, e). e - s)") auto

declare step_addrs.simps [simp del]

definition desc_end :: "MemoryDescriptor \<Rightarrow> nat" where
  "desc_end d = physical_address d + page_count d * 4096"

definition usable_descs :: "MemoryDescriptor list \<Rightarrow> MemoryDescriptor list" where
  "usable_descs ds = filter (\<lambda>d. is_usable (memory_type d)) ds"

definition map_addrs :: "MemoryDescriptor list \<Rightarrow> nat list" where
  "map_addrs ds = concat (map (\<lambda>d. step_addrs (physical_address d) (desc_end d)) (usable_descs ds))"

definition addrs_left :: "(nat \<times> nat) option \<Rightarrow> MemoryDescriptor list \<Rightarrow> nat list" where
  "addrs_left fr ds = (case fr of None \<Rightarrow> [] | Some (s, e) \<Rightarrow> step_addrs s e) @ map_addrs ds"

definition frame_at :: "'f frame_ops \<Rightarrow> nat \<Rightarrow> 'f" where
  "frame_at px a = (case phys_frame px a of Inr f \<Rightarrow> f | Inl e \<Rightarrow> undefined)"

definition frames_left :: "'f frame_ops \<Rightarrow> PageTableFrameAllocator \<Rightarrow> 'f list" where
  "frames_left px fa = map (frame_at px) (addrs_left (addr_front fa) (addr_rest fa))"

text \<open>Usable memory lies below the physical-address limit of the architecture.\<close>

definition map_ok :: "MemoryDescriptor list \<Rightarrow> bool" where
  "map_ok ds \<longleftrightarrow> (\<forall>d \<in> set (usable_descs ds). desc_end d \<le> 2 ^ 52)"

definition alloc_ok :: "'f frame_ops \<Rightarrow> PageTableFrameAllocator \<Rightarrow> bool" where
  "alloc_ok px fa \<longleftrightarrow>
     frame_ops_4k px \<and> map_ok (addr_rest fa)
     \<and> (case addr_front fa of None \<Rightarrow> True | Some (s, e) \<Rightarrow> e \<le> 2 ^ 52)"

lemma usable_descs_simps [simp]:
  "usable_descs [] = []"
  "usable_descs (d # ds) =
     (if is_usable (memory_type d) then d # usable_descs ds else usable_descs ds)"
  by (simp_all add: usable_descs_def)

lemma map_addrs_simps [simp]:
  "map_addrs [] = []"
  "map_addrs (d # ds) =
     (if is_usable (memory_type d) then step_addrs (physical_address d) (desc_end d) @ map_addrs ds
      else map_addrs ds)"
  by (simp_all add: map_addrs_def)

lemma address_range_ok:
  "desc_end d \<le> 2 ^ 52 \<Longrightarrow> address_range d = Inr (physical_address d, desc_end d)"
  by (simp add: address_range_def desc_end_def chk_ok)

lemma next_address_left:
  "map_ok ds \<Longrightarrow> (case fr of None \<Rightarrow> True | Some (s, e) \<Rightarrow> e \<le> 2 ^ 52) \<Longrightarrow>
   (case addrs_left fr ds of
      [] \<Rightarrow> next_address fr ds = Inr (None, None, [])
    | a # as \<Rightarrow> \<exists>fr' ds'. next_address fr ds = Inr (Some a, fr', ds') \<and> addrs_left fr' ds' = as
        \<and> a < 2 ^ 52 \<and> map_ok ds' \<and> (case fr' of None \<Rightarrow> True | Some (s, e) \<Rightarrow> e \<le> 2 ^ 52))"
proof (induction fr ds rule: next_address.induct)
  case (1 s e ds)
  then show ?case
    by (auto simp: addrs_left_def step_addrs.simps [of s e] split: list.splits)
next
  case 2
  then show ?case by (simp add: addrs_left_def)
next
  case (3 d ds)
  show ?case
  proof (cases "is_usable (memory_type d)")
    case True
    then have d: "desc_end d \<le> 2 ^ 52" "map_ok ds" using 3 by (auto simp: map_ok_def)
    have e1: "addrs_left None (d # ds) = addrs_left (Some (physical_address d, desc_end d)) ds"
      using True by (simp add: addrs_left_def)
    have e2: "next_address None (d # ds)
        = next_address (Some (physical_address d, desc_end d)) ds"
      using True d by (simp add: address_range_ok del: next_address.simps(1))
    show ?thesis
      unfolding e1 e2
      by (rule "3.IH"(1) [OF True address_range_ok [OF d(1)] d(2)]) (use d(1) in simp)
  next
    case False
    then have e1: "addrs_left None (d # ds) = addrs_left None ds"
      and e2: "next_address None (d # ds) = next_address None ds"
      and ok: "map_ok ds"
      using "3.prems" by (simp_all add: addrs_left_def map_ok_def)
    show ?thesis
      unfolding e1 e2 by (rule "3.IH"(2) [OF False ok]) simp
  qed
qed

interpretation fa: frame_source "allocate_frame px" "frames_left px" "alloc_ok px"
  for px :: "'f frame_ops"
proof unfold_locales
  fix fa
  assume ok: "alloc_ok px fa" and "frames_left px fa = []"
  then show "\<exists>fa'. allocate_frame px fa = Inr (None, fa') \<and> frames_left px fa' = [] \<and> alloc_ok px fa'"
    using next_address_left [of "addr_rest fa" "addr_front fa"]
    by (auto simp: allocate_frame_def frames_left_def alloc_ok_def addrs_left_def map_ok_def)
next
  fix fa and f :: 'f and fs
  assume ok: "alloc_ok px fa" and l: "frames_left px fa = f # fs"
  then obtain a as where as: "addrs_left (addr_front fa) (addr_rest fa) = a # as"
      "f = frame_at px a" "fs = map (frame_at px) as"
    by (auto simp: frames_left_def)
  with next_address_left [of "addr_rest fa" "addr_front fa"] ok obtain fr' ds' where
    nx: "next_address (addr_front fa) (addr_rest fa) = Inr (Some a, fr', ds')"
      "addrs_left fr' ds' = as" "a < 2 ^ 52" "map_ok ds'"
      "case fr' of None \<Rightarrow> True | Some (s, e) \<Rightarrow> e \<le> 2 ^ 52"
    by (auto simp: alloc_ok_def)
  moreover have "phys_frame px a = Inr (frame_at px a)"
    using ok nx(3) by (auto simp: alloc_ok_def frame_ops_4k_def frame_at_def)
  ultimately show "\<exists>fa'. allocate_frame px fa = Inr (Some f, fa') \<and> frames_left px fa' = fs \<and> alloc_ok px fa'"
    using as ok by (auto simp: allocate_frame_def frames_left_def alloc_ok_def)
qed

section \<open>Order and disjointness\<close>

text \<open>
  A firmware map that lists its usable regions in ascending order, page-aligned and without overlap.
\<close>

definition regions_sorted :: "MemoryDescriptor list \<Rightarrow> bool" where
  "regions_sorted ds \<longleftrightarrow>
     sorted_wrt (\<lambda>d e. desc_end d \<le> physical_address e) (usable_descs ds)
     \<and> (\<forall>d \<in> set (usable_descs ds). physical_address d mod 4096 = 0)"

lemma step_addrs_mem: "a \<in> set (step_addrs s e) \<longleftrightarrow> (\<exists>i. a = s + 4096 * i \<and> a < e)"
proof (induction s e rule: step_addrs.induct)
  case (1 s e)
  show ?case
  proof (cases "s < e")
    case True
    have "(\<exists>i. a = s + 4096 * i \<and> a < e) \<longleftrightarrow> a = s \<or> (\<exists>i. a = s + 4096 + 4096 * i \<and> a < e)"
    proof
      assume "\<exists>i. a = s + 4096 * i \<and> a < e"
      then obtain i where i: "a = s + 4096 * i" "a < e" by blast
      then show "a = s \<or> (\<exists>i. a = s + 4096 + 4096 * i \<and> a < e)"
        by (cases i) auto
    next
      assume "a = s \<or> (\<exists>i. a = s + 4096 + 4096 * i \<and> a < e)"
      then show "\<exists>i. a = s + 4096 * i \<and> a < e"
        using True by (auto intro: exI [of _ 0] exI [of _ "Suc _"])
    qed
    with 1 True show ?thesis by (subst step_addrs.simps) auto
  qed (subst step_addrs.simps, auto)
qed

lemma step_addrs_sorted: "sorted_wrt (<) (step_addrs s e)"
proof (induction s e rule: step_addrs.induct)
  case (1 s e)
  then show ?case by (subst step_addrs.simps) (auto simp: step_addrs_mem)
qed

lemma map_addrs_mem:
  "a \<in> set (map_addrs ds) \<longleftrightarrow>
     (\<exists>d \<in> set (usable_descs ds). \<exists>i. a = physical_address d + 4096 * i \<and> a < desc_end d)"
  by (auto simp: map_addrs_def step_addrs_mem)

lemma regions_sorted_Cons:
  "regions_sorted (d # ds) \<Longrightarrow> regions_sorted ds"
  by (auto simp: regions_sorted_def split: if_splits)

lemma map_addrs_sorted: "regions_sorted ds \<Longrightarrow> sorted_wrt (<) (map_addrs ds)"
proof (induction ds)
  case (Cons d ds)
  have "\<And>a b. is_usable (memory_type d) \<Longrightarrow> a \<in> set (step_addrs (physical_address d) (desc_end d))
      \<Longrightarrow> b \<in> set (map_addrs ds) \<Longrightarrow> a < b"
    using Cons.prems by (fastforce simp: regions_sorted_def step_addrs_mem map_addrs_mem)
  with Cons show ?case
    by (auto simp: sorted_wrt_append step_addrs_sorted dest: regions_sorted_Cons)
qed simp

lemma map_addrs_aligned: "regions_sorted ds \<Longrightarrow> a \<in> set (map_addrs ds) \<Longrightarrow> a mod 4096 = 0"
  by (auto simp: map_addrs_mem regions_sorted_def mod_mult_self2)

lemma map_addrs_bound: "map_ok ds \<Longrightarrow> a \<in> set (map_addrs ds) \<Longrightarrow> a < 2 ^ 52"
  by (fastforce simp: map_addrs_mem map_ok_def)

lemma frame_start_at:
  "frame_ops_4k px \<Longrightarrow> a < 2 ^ 52 \<Longrightarrow> frame_start px (frame_at px a) = a div 4096 * 4096"
  by (auto simp: frame_ops_4k_def frame_at_def)

lemma frame_starts:
  assumes "frame_ops_4k px" "regions_sorted ds" "map_ok ds"
  shows "map (frame_start px \<circ> frame_at px) (map_addrs ds) = map_addrs ds"
proof (rule map_idI)
  fix a assume a: "a \<in> set (map_addrs ds)"
  then have "a mod 4096 = 0" "a < 2 ^ 52"
    using assms map_addrs_aligned map_addrs_bound by blast+
  then show "(frame_start px \<circ> frame_at px) a = a"
    using frame_start_at [OF assms(1)] by (auto simp: mult.commute)
qed

lemma new_allocator_left:
  "frames_left px (new_allocator mm) = map (frame_at px) (map_addrs mm)"
  by (simp add: frames_left_def new_allocator_def addrs_left_def)

lemma new_allocator_ok: "frame_ops_4k px \<Longrightarrow> map_ok mm \<Longrightarrow> alloc_ok px (new_allocator mm)"
  by (simp add: alloc_ok_def new_allocator_def)

lemma skip_ranges_above:
  "regions_sorted mm \<Longrightarrow> map_ok mm \<Longrightarrow> skip_ranges (Some c) mm = Inr ds \<Longrightarrow>
     map_ok ds \<and> regions_sorted ds \<and> (\<forall>a \<in> set (map_addrs ds). c \<le> a)"
proof (induction mm)
  case (Cons d mm)
  show ?case
  proof (cases "is_usable (memory_type d) \<and> \<not> physical_address d < c")
    case True
    then have ds: "ds = mm" "map_ok mm" "regions_sorted mm"
      using Cons.prems by (auto simp: map_ok_def address_range_ok regions_sorted_Cons)
    have "c \<le> a" if "a \<in> set (map_addrs mm)" for a
      using that True Cons.prems(1) by (fastforce simp: map_addrs_mem regions_sorted_def desc_end_def)
    with ds show ?thesis by simp
  next
    case False
    then have "skip_ranges (Some c) mm = Inr ds"
      using Cons.prems by (auto simp: map_ok_def address_range_ok split: if_splits)
    with Cons show ?thesis by (auto simp: map_ok_def dest: regions_sorted_Cons split: if_splits)
  qed
qed simp

lemma swap_map_left:
  assumes "alloc_ok px fa" "regions_sorted mm2" "map_ok mm2" "swap_map px mm2 fa = Inr fa2"
  obtains c cs where "frames_left px fa = c # cs" "alloc_ok px fa2"
    "regions_sorted (addr_rest fa2)"
    "frames_left px fa2 = map (frame_at px) (map_addrs (addr_rest fa2))"
    "\<forall>a \<in> set (map_addrs (addr_rest fa2)). frame_start px c \<le> a"
proof (cases "frames_left px fa")
  case Nil
  with fa.alloc_none [OF assms(1)] assms(4) have "\<exists>ds. skip_ranges None mm2 = Inr ds"
    by (auto simp: swap_map_def)
  moreover have "skip_ranges None ds \<noteq> Inr x" for ds x
    by (induction ds) (auto elim!: bind_r_InrE)
  ultimately show ?thesis by blast
next
  case (Cons c cs)
  with fa.alloc_some [OF assms(1)] obtain fa1 where
    fa1: "allocate_frame px fa = Inr (Some c, fa1)" "alloc_ok px fa1" by blast
  with assms(4) obtain ds where ds: "skip_ranges (Some (frame_start px c)) mm2 = Inr ds"
      "fa2 = fa1\<lparr>addr_front := None, addr_rest := ds\<rparr>"
    by (auto simp: swap_map_def)
  from skip_ranges_above [OF assms(2,3) ds(1)] fa1(2) that [OF Cons] ds(2) show ?thesis
    by (simp add: alloc_ok_def frames_left_def addrs_left_def)
qed

section \<open>Properties of the allocator\<close>

text \<open>A concrete instance of the paging parameter, for the witnesses: a frame is its address.\<close>

definition addr_frames :: "nat frame_ops" where
  "addr_frames = \<lparr>phys_frame = (\<lambda>a. Inr (a div 4096 * 4096)), frame_start = id\<rparr>"

definition sample_desc :: "nat \<Rightarrow> nat \<Rightarrow> MemoryDescriptor" where
  "sample_desc a n = empty_descriptor\<lparr>memory_type := Conventional, physical_address := a, page_count := n\<rparr>"

lemma addr_frames_4k: "frame_ops_4k addr_frames"
  by (simp add: addr_frames_def frame_ops_4k_def)

lemma sample_desc_simps [simp]:
  "memory_type (sample_desc a n) = Conventional"
  "physical_address (sample_desc a n) = a"
  "page_count (sample_desc a n) = n"
  "desc_end (sample_desc a n) = a + n * 4096"
  "attributes (sample_desc a n) = 0"
  by (simp_all add: sample_desc_def desc_end_def empty_descriptor_def)

text \<open>
  C9: the frames handed out by a fresh allocator are pairwise distinct, are handed out in ascending
  order of address, and each lies in a usable region of the firmware's map; and as many frames can be
  allocated as the usable regions hold pages.
\<close>
theorem allocated_frames_distinct:
  assumes "frame_ops_4k px" "regions_sorted mm" "map_ok mm"
  shows "(n \<le> length (map_addrs mm) \<longrightarrow>
            (\<exists>fs fa'. alloc_many (allocate_frame px) n (new_allocator mm) = Inr (fs, fa')))
    \<and> (\<forall>fs fa'. alloc_many (allocate_frame px) n (new_allocator mm) = Inr (fs, fa') \<longrightarrow>
         length fs = n \<and> sorted_wrt (<) (map (frame_start px) fs) \<and> distinct fs
         \<and> (\<forall>f \<in> set fs. \<exists>d \<in> set mm. is_usable (memory_type d)
              \<and> physical_address d \<le> frame_start px f \<and> frame_start px f + 4096 \<le> desc_end d))"
proof -
  note ok = new_allocator_ok [OF assms(1,3)]
  have "\<exists>fs fa'. alloc_many (allocate_frame px) n (new_allocator mm) = Inr (fs, fa')"
    if "n \<le> length (map_addrs mm)"
    using fa.alloc_many_take [OF ok, of n] that by (auto simp: new_allocator_left)
  moreover have "length fs = n \<and> sorted_wrt (<) (map (frame_start px) fs) \<and> distinct fs
      \<and> (\<forall>f \<in> set fs. \<exists>d \<in> set mm. is_usable (memory_type d)
           \<and> physical_address d \<le> frame_start px f \<and> frame_start px f + 4096 \<le> desc_end d)"
    if r: "alloc_many (allocate_frame px) n (new_allocator mm) = Inr (fs, fa')" for fs fa'
  proof -
    have n: "n \<le> length (map_addrs mm)"
      using fa.alloc_many_enough [OF ok r] by (simp add: new_allocator_left)
    have fs: "fs = map (frame_at px) (take n (map_addrs mm))"
      using fa.alloc_many_result [OF ok r] by (simp add: new_allocator_left take_map)
    then have st: "map (frame_start px) fs = take n (map_addrs mm)"
      using frame_starts [OF assms] by (metis map_map take_map)
    then have "sorted_wrt (<) (map (frame_start px) fs)"
      using map_addrs_sorted [OF assms(2)] by (simp add: sorted_wrt_take)
    moreover from this have "distinct fs"
      using distinct_map strict_sorted_iff by blast
    moreover have "\<exists>d \<in> set mm. is_usable (memory_type d)
        \<and> physical_address d \<le> frame_start px f \<and> frame_start px f + 4096 \<le> desc_end d"
      if "f \<in> set fs" for f
    proof -
      have "frame_start px f \<in> set (map_addrs mm)"
        using that st by (metis in_set_takeD image_eqI image_set)
      then obtain d i where "d \<in> set mm" "is_usable (memory_type d)"
          "frame_start px f = physical_address d + 4096 * i" "frame_start px f < desc_end d"
        by (auto simp: map_addrs_mem usable_descs_def)
      moreover from this have "i < page_count d" by (simp add: desc_end_def)
      ultimately show ?thesis by (intro bexI [of _ d]) (auto simp: desc_end_def)
    qed
    ultimately show ?thesis using fs n by simp
  qed
  ultimately show ?thesis by blast
qed

theorem allocated_frames_distinct_witness:
  "\<exists>fs fa'. alloc_many (allocate_frame addr_frames) 3
       (new_allocator [sample_desc 8192 2, sample_desc 32768 4]) = Inr (fs, fa')
     \<and> sorted_wrt (<) (map (frame_start addr_frames) fs)"
proof -
  let ?mm = "[sample_desc 8192 2, sample_desc 32768 4]"
  have h: "frame_ops_4k addr_frames" "regions_sorted ?mm" "map_ok ?mm"
    by (simp_all add: addr_frames_4k regions_sorted_def map_ok_def)
  have "3 \<le> length (map_addrs ?mm)"
    by (simp add: step_addrs.simps)
  with allocated_frames_distinct [OF h, of 3] show ?thesis by blast
qed

lemma swap_map_above:
  assumes "frame_ops_4k px" "regions_sorted mm" "map_ok mm" "regions_sorted mm2" "map_ok mm2"
    and "alloc_many (allocate_frame px) n (new_allocator mm) = Inr (fs, fa1)"
    and "swap_map px mm2 fa1 = Inr fa2"
    and "alloc_many (allocate_frame px) k fa2 = Inr (gs, fa3)"
  shows "\<forall>f \<in> set fs. \<forall>g \<in> set gs. frame_start px f < frame_start px g"
proof -
  note ok = new_allocator_ok [OF assms(1,3)]
  note fs = fa.alloc_many_result [OF ok assms(6)]
  from fs obtain c cs where c: "frames_left px fa1 = c # cs" "alloc_ok px fa2"
      "regions_sorted (addr_rest fa2)"
      "frames_left px fa2 = map (frame_at px) (map_addrs (addr_rest fa2))"
      "\<forall>a \<in> set (map_addrs (addr_rest fa2)). frame_start px c \<le> a"
    using swap_map_left [OF _ assms(4,5,7)] by blast
  note starts = frame_starts [OF assms(1,2,3)]
  have "sorted_wrt (<) (map (frame_start px) (take n (frames_left px (new_allocator mm)) @ c # cs))"
    using map_addrs_sorted [OF assms(2)] fs c(1) starts
    by (metis append_take_drop_id map_map new_allocator_left)
  then have below: "\<forall>f \<in> set fs. frame_start px f < frame_start px c"
    using fs by (simp add: sorted_wrt_append)
  have "map_ok (addr_rest fa2)" using c(2) by (simp add: alloc_ok_def)
  then have st2: "map (frame_start px) (frames_left px fa2) = map_addrs (addr_rest fa2)"
    using frame_starts [OF assms(1) c(3)] c(4) by (metis map_map)
  have "set gs \<subseteq> set (frames_left px fa2)"
    using fa.alloc_many_result [OF c(2) assms(8)] set_take_subset by metis
  then have "\<forall>g \<in> set gs. frame_start px c \<le> frame_start px g"
    using c(5) st2 by (metis image_eqI image_set subsetD)
  with below show ?thesis by (meson less_le_trans)
qed

text \<open>
  C10: no frame is handed out twice across \<open>swap_map\<close>: when the kernel replaces the loader's map by the
  one it was passed, every frame allocated afterwards lies above every frame allocated before, whatever
  the two maps are, as long as each lists its usable regions in ascending order.
\<close>
theorem swap_map_no_reuse:
  assumes "frame_ops_4k px" "regions_sorted mm" "map_ok mm" "regions_sorted mm2" "map_ok mm2"
    and "alloc_many (allocate_frame px) n (new_allocator mm) = Inr (fs, fa1)"
    and "swap_map px mm2 fa1 = Inr fa2"
    and "alloc_many (allocate_frame px) k fa2 = Inr (gs, fa3)"
  shows "\<forall>f \<in> set fs. \<forall>g \<in> set gs. frame_start px f < frame_start px g"
  by (rule swap_map_above [OF assms])

theorem swap_map_no_reuse_witness:
  "\<exists>fs fa1 fa2 gs fa3.
     alloc_many (allocate_frame addr_frames) 1
       (new_allocator [sample_desc 4096 4, sample_desc 32768 4]) = Inr (fs, fa1)
   \<and> swap_map addr_frames [sample_desc 4096 4, sample_desc 32768 4, sample_desc 65536 2] fa1 = Inr fa2
   \<and> alloc_many (allocate_frame addr_frames) 1 fa2 = Inr (gs, fa3)
   \<and> (\<forall>f \<in> set fs. \<forall>g \<in> set gs. frame_start addr_frames f < frame_start addr_frames g)"
proof -
  let ?mm = "[sample_desc 4096 4, sample_desc 32768 4]"
  let ?mm2 = "[sample_desc 4096 4, sample_desc 32768 4, sample_desc 65536 2]"
  let ?fa1 = "\<lparr>memory_map = ?mm, addr_front = Some (8192, 20480), addr_rest = [sample_desc 32768 4]\<rparr>"
  let ?fa2 = "\<lparr>memory_map = ?mm, addr_front = None, addr_rest = [sample_desc 65536 2]\<rparr>"
  let ?fa3 = "\<lparr>memory_map = ?mm, addr_front = Some (69632, 73728), addr_rest = []\<rparr>"
  have h: "regions_sorted ?mm" "map_ok ?mm" "regions_sorted ?mm2" "map_ok ?mm2"
    by (simp_all add: regions_sorted_def map_ok_def)
  have ar: "address_range (sample_desc a n) = Inr (a, a + n * 4096)" if "a + n * 4096 \<le> 2 ^ 52" for a n
    using that by (simp add: address_range_ok)
  have r1: "alloc_many (allocate_frame addr_frames) 1 (new_allocator ?mm) = Inr ([4096], ?fa1)"
    by (simp add: new_allocator_def allocate_frame_def addr_frames_def ar)
  have r2: "swap_map addr_frames ?mm2 ?fa1 = Inr ?fa2"
    by (simp add: swap_map_def allocate_frame_def addr_frames_def ar)
  have r3: "alloc_many (allocate_frame addr_frames) 1 ?fa2 = Inr ([65536], ?fa3)"
    by (simp add: allocate_frame_def addr_frames_def ar)
  from swap_map_no_reuse [OF addr_frames_4k h r1 r2 r3] r1 r2 r3 show ?thesis by blast
qed

text \<open>
  \<open>swap_map\<close> drops memory: when every usable region of the new map starts below the frame that is
  next to be handed out (as when the kernel still allocates from the last region), the call panics on
  \<open>unwrap\<close> instead of keeping the rest of that region.
\<close>
theorem swap_map_last_region_panics:
  assumes "alloc_ok px fa" "frames_left px fa = f # fs" "map_ok mm"
    and "\<forall>d \<in> set (usable_descs mm). physical_address d < frame_start px f"
  shows "swap_map px mm fa = Inl (Panic UnwrapNone)"
proof -
  from fa.alloc_some [OF assms(1,2)] obtain fa' where "allocate_frame px fa = Inr (Some f, fa')"
    by blast
  moreover have "skip_ranges (Some (frame_start px f)) mm = Inl (Panic UnwrapNone)"
    using assms(3,4)
    by (induction mm) (auto simp: map_ok_def address_range_ok split: if_splits)
  ultimately show ?thesis by (simp add: swap_map_def)
qed

theorem swap_map_last_region_panics_witness:
  "swap_map addr_frames [sample_desc 4096 10]
     \<lparr>memory_map = [], addr_front = Some (8192, 45056), addr_rest = []\<rparr> = Inl (Panic UnwrapNone)"
proof (rule swap_map_last_region_panics)
  let ?fa = "\<lparr>memory_map = [], addr_front = Some (8192, 45056), addr_rest = []\<rparr>"
  show "alloc_ok addr_frames ?fa"
    by (simp add: alloc_ok_def addr_frames_4k map_ok_def)
  show "frames_left addr_frames ?fa = 8192 # map (frame_at addr_frames) (step_addrs 12288 45056)"
    by (simp add: frames_left_def addrs_left_def step_addrs.simps [of 8192] frame_at_def addr_frames_def)
qed (simp_all add: map_ok_def addr_frames_def)

text \<open>
  \<open>allocate_size\<close> takes \<open>size / 4096\<close> frames (rounded down) from the allocator and returns the
  first together with the count, or \<open>None\<close> when too few are left, in which case every remaining frame
  has been consumed. For \<open>size < 4096\<close> nothing is allocated and the frame of address \<open>0\<close> is returned.
\<close>
theorem allocate_size_spec:
  assumes "alloc_ok px fa" "n = sz div 4096"
  shows "\<exists>fa'. allocate_size px sz fa =
      Inr (if n \<le> length (frames_left px fa)
           then Some (if 0 < n then hd (frames_left px fa) else frame_at px 0, n) else None, fa')
    \<and> frames_left px fa' = drop n (frames_left px fa) \<and> alloc_ok px fa'"
proof -
  have "phys_frame px 0 = Inr (frame_at px 0)"
    using assms(1) by (auto simp: alloc_ok_def frame_ops_4k_def frame_at_def dest: spec [of _ 0])
  then show ?thesis
    using fa.allocate_rest_spec [OF assms(1), of n True "frame_at px 0"] assms(2)
    by (auto simp: allocate_size_def Let_def)
qed

theorem allocate_size_spec_witness:
  "\<exists>fa'. allocate_size addr_frames 8192 (new_allocator [sample_desc 4096 3])
     = Inr (Some (4096, 2), fa') \<and> frames_left addr_frames fa' = [12288]"
proof -
  have ok: "alloc_ok addr_frames (new_allocator [sample_desc 4096 3])"
    by (rule new_allocator_ok) (simp_all add: addr_frames_4k map_ok_def)
  have "frames_left addr_frames (new_allocator [sample_desc 4096 3]) = [4096, 8192, 12288]"
    by (simp add: new_allocator_left step_addrs.simps frame_at_def addr_frames_def)
  with allocate_size_spec [OF ok, of 2 8192] show ?thesis by auto
qed

section \<open>Mapping helpers\<close>

datatype page_flag = PRESENT | WRITABLE | USER_ACCESSIBLE

datatype map_to_error = FrameAllocationFailed | ParentEntryHugePage | PageAlreadyMapped nat

record ('p, 'f, 'w) mapper =
  map_to :: "'p \<Rightarrow> 'f \<Rightarrow> page_flag set \<Rightarrow> 'w \<Rightarrow> ((map_to_error + unit) \<times> 'w) res"
  identity_map :: "'f \<Rightarrow> page_flag set \<Rightarrow> 'w \<Rightarrow> ((map_to_error + unit) \<times> 'w) res"
  identity_page :: "'f \<Rightarrow> 'p"
  translate_page :: "'w \<Rightarrow> 'p \<Rightarrow> 'f option"
  frame_containing :: "nat \<Rightarrow> 'f res"
  frame_range :: "nat \<Rightarrow> nat \<Rightarrow> 'f list res"
  page_range :: "nat \<Rightarrow> nat \<Rightarrow> 'p list res"

text \<open>
  The documented behaviour of the \<open>Mapper\<close> methods that the helpers rely on: \<open>map_to\<close> maps a page that
  was not mapped, an error leaves the tables as they were, and \<open>identity_map\<close> is \<open>map_to\<close> of the page
  whose address is the frame's.
\<close>

definition mapper_ok :: "('p, 'f, 'w) mapper \<Rightarrow> bool" where
  "mapper_ok mp \<longleftrightarrow>
     (\<forall>p f fl w w'. map_to mp p f fl w = Inr (Inr (), w') \<longrightarrow>
        translate_page mp w p = None \<and> translate_page mp w' = (translate_page mp w)(p := Some f))
   \<and> (\<forall>p f fl w e w'. map_to mp p f fl w = Inr (Inl e, w') \<longrightarrow>
        translate_page mp w' = translate_page mp w)
   \<and> (\<forall>f fl w. identity_map mp f fl w = map_to mp (identity_page mp f) f fl w)"

primrec map_pairs ::
    "('p, 'f, 'w) mapper \<Rightarrow> ('f \<times> 'p) list \<Rightarrow> 'w \<Rightarrow> ((map_to_error + unit) \<times> 'w) res" where
  "map_pairs mp [] w = Inr (Inr (), w)"
| "map_pairs mp (x # xs) w =
     bind_r (map_to mp (snd x) (fst x) {PRESENT, WRITABLE} w) (\<lambda>(r, w').
       case r of Inr _ \<Rightarrow> map_pairs mp xs w' | Inl e \<Rightarrow> Inr (Inl e, w'))"

definition map_virt ::
    "('p, 'f, 'w) mapper \<Rightarrow> nat \<Rightarrow> nat \<Rightarrow> nat \<Rightarrow> 'w \<Rightarrow> ((map_to_error + unit) \<times> 'w) res" where
  "map_virt mp phys virt sz w =
     bind_r (frame_range mp phys (phys + sz)) (\<lambda>frames.
     bind_r (page_range mp virt (virt + sz)) (\<lambda>pages.
       map_pairs mp (zip frames pages) w))"

primrec identity_map_all ::
    "('p, 'f, 'w) mapper \<Rightarrow> 'f list \<Rightarrow> 'w \<Rightarrow> ((map_to_error + unit) \<times> 'w) res" where
  "identity_map_all mp [] w = Inr (Inr (), w)"
| "identity_map_all mp (f # fs) w =
     bind_r (identity_map mp f {PRESENT, WRITABLE} w) (\<lambda>(r, w').
       case r of Inr _ \<Rightarrow> identity_map_all mp fs w' | Inl e \<Rightarrow> Inr (Inl e, w'))"

definition map_phys ::
    "('p, 'f, 'w) mapper \<Rightarrow> nat \<Rightarrow> nat \<Rightarrow> 'w \<Rightarrow> ((map_to_error + unit) \<times> 'w) res" where
  "map_phys mp phys sz w =
     bind_r (frame_range mp phys (phys + sz)) (\<lambda>frames. identity_map_all mp frames w)"

text \<open>
  \<open>map_phys_table\<close> iterates over the frames but maps the frame containing \<open>phys\<close> every time.
\<close>

definition map_phys_table ::
    "('p, 'f, 'w) mapper \<Rightarrow> nat \<Rightarrow> nat \<Rightarrow> 'w \<Rightarrow> ((map_to_error + unit) \<times> 'w) res" where
  "map_phys_table mp phys sz w =
     bind_r (frame_range mp phys (phys + sz)) (\<lambda>frames.
     bind_r (frame_containing mp phys) (\<lambda>f.
       identity_map_all mp (map (\<lambda>frame. f) frames) w))"

text \<open>
  The typed wrappers: a reference is its address and the size of what it points to, a slice its
  address, element size and length (\<open>&ptr[0]\<close> panics on an empty slice).
\<close>

definition map_ref ::
    "('p, 'f, 'w) mapper \<Rightarrow> nat \<Rightarrow> nat \<Rightarrow> 'w \<Rightarrow> ((map_to_error + unit) \<times> 'w) res" where
  "map_ref mp ptr size_of_val w = map_phys mp ptr size_of_val w"

definition map_ref_len ::
    "('p, 'f, 'w) mapper \<Rightarrow> nat \<Rightarrow> nat \<Rightarrow> nat \<Rightarrow> 'w \<Rightarrow> ((map_to_error + unit) \<times> 'w) res" where
  "map_ref_len mp ptr size_of_val sz w =
     bind_r (chk 64 (size_of_val * sz)) (\<lambda>n. map_phys mp ptr n w)"

definition map_arr_len ::
    "('p, 'f, 'w) mapper \<Rightarrow> nat \<times> nat \<times> nat \<Rightarrow> nat \<Rightarrow> 'w \<Rightarrow> ((map_to_error + unit) \<times> 'w) res" where
  "map_arr_len mp slc len w =
     (case slc of (ptr, elem_size, n) \<Rightarrow>
        if n = 0 then Inl (Panic OutOfBounds)
        else bind_r (chk 64 (elem_size * len)) (\<lambda>b. map_phys mp ptr b w))"

definition map_arr ::
    "('p, 'f, 'w) mapper \<Rightarrow> nat \<times> nat \<times> nat \<Rightarrow> 'w \<Rightarrow> ((map_to_error + unit) \<times> 'w) res" where
  "map_arr mp slc w =
     (case slc of (ptr, elem_size, n) \<Rightarrow>
        if n = 0 then Inl (Panic OutOfBounds)
        else bind_r (chk 64 (elem_size * n)) (\<lambda>b. map_phys mp ptr b w))"

definition map_ptr_table ::
    "('p, 'f, 'w) mapper \<Rightarrow> nat \<Rightarrow> nat \<Rightarrow> 'w \<Rightarrow> ((map_to_error + unit) \<times> 'w) res" where
  "map_ptr_table mp ptr size_of w = map_phys_table mp ptr size_of w"

definition map_arr_table ::
    "('p, 'f, 'w) mapper \<Rightarrow> nat \<times> nat \<times> nat \<Rightarrow> 'w \<Rightarrow> ((map_to_error + unit) \<times> 'w) res" where
  "map_arr_table mp slc w =
     (case slc of (ptr, elem_size, n) \<Rightarrow>
        if n = 0 then Inl (Panic OutOfBounds)
        else bind_r (chk 64 (elem_size * n)) (\<lambda>b. map_phys_table mp ptr b w))"

lemma identity_map_all_pairs:
  "mapper_ok mp \<Longrightarrow>
     identity_map_all mp fs w = map_pairs mp (map (\<lambda>f. (f, identity_page mp f)) fs) w"
  by (induction fs arbitrary: w) (auto simp: mapper_ok_def split: sum.splits intro!: bind_r_cong)

lemma map_pairs_ok:
  assumes "mapper_ok mp" "map_pairs mp xs w = Inr (Inr u, w')"
  shows "distinct (map snd xs)
    \<and> translate_page mp w' = translate_page mp w ++ map_of (map (\<lambda>(f, p). (p, f)) xs)
    \<and> (\<forall>p \<in> set (map snd xs). translate_page mp w p = None)"
  using assms(2)
proof (induction xs arbitrary: w)
  case (Cons x xs)
  obtain f p where x: "x = (f, p)" by force
  from Cons.prems x obtain w1 where
    w1: "map_to mp p f {PRESENT, WRITABLE} w = Inr (Inr (), w1)" "map_pairs mp xs w1 = Inr (Inr u, w')"
    by (auto split: sum.splits)
  then have tr: "translate_page mp w p = None" "translate_page mp w1 = (translate_page mp w)(p := Some f)"
    using assms(1) by (auto simp: mapper_ok_def)
  note IH = Cons.IH [OF w1(2)]
  have p: "p \<notin> set (map snd xs)" using IH tr(2) by auto
  then have "map_of (map (\<lambda>(f, p). (p, f)) xs) p = None"
    by (auto simp: map_of_eq_None_iff image_iff split_beta)
  then have "translate_page mp w1 ++ map_of (map (\<lambda>(f, p). (p, f)) xs)
      = translate_page mp w ++ map_of (map (\<lambda>(f, p). (p, f)) (x # xs))"
    by (auto simp: tr(2) x map_add_def fun_eq_iff split: option.splits)
  with IH p tr x show ?case by (auto simp: fun_upd_def split: if_splits)
qed (simp add: map_add_def)

text \<open>
  C22: when \<open>map_virt\<close> succeeds, page \<open>i\<close> of the virtual range translates to frame \<open>i\<close> of the physical
  range, no page of the range was mapped before, and every other page translates as before.
\<close>
theorem map_virt_maps_range:
  assumes "mapper_ok mp" "frame_range mp phys (phys + sz) = Inr frames"
    and "page_range mp virt (virt + sz) = Inr pages" "length frames = length pages"
    and "map_virt mp phys virt sz w = Inr (Inr (), w')"
  shows "distinct pages
    \<and> (\<forall>i < length pages. translate_page mp w' (pages ! i) = Some (frames ! i))
    \<and> (\<forall>q. q \<notin> set pages \<longrightarrow> translate_page mp w' q = translate_page mp w q)
    \<and> (\<forall>q \<in> set pages. translate_page mp w q = None)"
proof -
  from assms have "map_pairs mp (zip frames pages) w = Inr (Inr (), w')" by (simp add: map_virt_def)
  note r = map_pairs_ok [OF assms(1) this]
  have sw: "map (\<lambda>(f, p). (p, f)) (zip frames pages) = zip pages frames"
    using assms(4) by (induction rule: list_induct2) auto
  from r assms(4) have d: "distinct pages" by simp
  have tr: "translate_page mp w' q = (case map_of (zip pages frames) q of
      None \<Rightarrow> translate_page mp w q | Some f \<Rightarrow> Some f)" for q
    using r sw by (simp add: map_add_def)
  have "translate_page mp w' (pages ! i) = Some (frames ! i)" if "i < length pages" for i
    using that d assms(4) by (simp add: tr map_of_zip_nth del: map_of_eq_Some_iff)
  moreover have "translate_page mp w' q = translate_page mp w q" if "q \<notin> set pages" for q
  proof -
    have "map_of (zip pages frames) q = None" using that assms(4) by simp
    then show ?thesis by (simp only: tr option.case)
  qed
  ultimately show ?thesis using r assms(4) d by simp
qed

text \<open>
  \<open>map_phys_table\<close> cannot map more than one frame: on a range of two or more frames it never
  succeeds, because it maps the first frame again on the second iteration.
\<close>
theorem map_phys_table_one_frame:
  assumes "mapper_ok mp" "frame_range mp phys (phys + sz) = Inr frames" "2 \<le> length frames"
  shows "map_phys_table mp phys sz w \<noteq> Inr (Inr (), w')"
proof
  assume "map_phys_table mp phys sz w = Inr (Inr (), w')"
  with assms(2) obtain f where
    "map_pairs mp (map (\<lambda>f. (f, identity_page mp f)) (map (\<lambda>frame. f) frames)) w = Inr (Inr (), w')"
    by (auto simp: map_phys_table_def identity_map_all_pairs [OF assms(1)])
  from map_pairs_ok [OF assms(1) this] have "distinct (map (\<lambda>x. identity_page mp f) frames)"
    by (simp add: comp_def)
  moreover obtain a b xs where "frames = a # b # xs"
    using assms(3) by (cases frames; cases "tl frames") auto
  ultimately show False by simp
qed

text \<open>A page table as a finite map, for the witnesses: pages and frames are addresses.\<close>

definition table_mapper :: "(nat, nat, nat \<Rightarrow> nat option) mapper" where
  "table_mapper =
     \<lparr>map_to = (\<lambda>p f fl w. Inr (case w p of
          None \<Rightarrow> (Inr (), w(p := Some f)) | Some g \<Rightarrow> (Inl (PageAlreadyMapped g), w))),
      identity_map = (\<lambda>f fl w. Inr (case w f of
          None \<Rightarrow> (Inr (), w(f := Some f)) | Some g \<Rightarrow> (Inl (PageAlreadyMapped g), w))),
      identity_page = id,
      translate_page = (\<lambda>w. w),
      frame_containing = (\<lambda>a. Inr (a div 4096 * 4096)),
      frame_range = (\<lambda>a b. Inr (map (\<lambda>i. (a div 4096 + i) * 4096) [0..<Suc (b div 4096) - a div 4096])),
      page_range = (\<lambda>a b. Inr (map (\<lambda>i. (a div 4096 + i) * 4096) [0..<Suc (b div 4096) - a div 4096]))\<rparr>"

lemma table_mapper_ok: "mapper_ok table_mapper"
  by (auto simp: mapper_ok_def table_mapper_def split: option.splits)

theorem map_virt_maps_range_witness:
  "\<exists>w'. map_virt table_mapper 8192 40960 4095 Map.empty = Inr (Inr (), w') \<and> w' 40960 = Some 8192"
proof -
  let ?w' = "[40960 \<mapsto> 8192] :: nat \<Rightarrow> nat option"
  have h: "frame_range table_mapper 8192 (8192 + 4095) = Inr [8192]"
      "page_range table_mapper 40960 (40960 + 4095) = Inr [40960]"
      "map_virt table_mapper 8192 40960 4095 Map.empty = Inr (Inr (), ?w')"
    by (simp_all add: table_mapper_def map_virt_def)
  from map_virt_maps_range [OF table_mapper_ok h(1,2) _ h(3)] h(3) show ?thesis
    by (auto simp: table_mapper_def)
qed

theorem map_phys_table_one_frame_witness:
  "\<forall>w. map_phys_table table_mapper 8192 4096 Map.empty \<noteq> Inr (Inr (), w)"
  by (rule allI, rule map_phys_table_one_frame [OF table_mapper_ok, where frames = "[8192, 12288]"])
    (simp_all add: table_mapper_def upt_conv_Cons)

end
