(* ===== verification/Heap.thy ===== *)
theory Heap
  imports Mem
begin

text \<open>
  \<open>kernel_api/common/src/linked_list_allocator.rs\<close> and \<open>allocator.rs\<close>: the kernel heap.

  \<open>Heap\<close> wraps the \<open>HoleList\<close> of the crate \<open>linked_list_allocator\<close>, a parameter (\<open>hole_ops\<close>); what
  the wrapper relies on is \<open>holes_ok\<close>: the list accounts for its free bytes exactly. The
  \<open>Spinlock\<close> of \<open>LockedHeap\<close> serialises its operations, so a locked operation is the operation on
  the protected heap. \<open>heap_step\<close> is one operation of the global allocator and \<open>heap_reachable\<close> the
  states it can be in after \<open>init\<close>.
\<close>

section \<open>The heap over a hole list\<close>

record layout =
  l_size :: nat
  l_align :: nat

record 'h hole_ops =
  hl_empty :: 'h
  hl_new :: "nat \<Rightarrow> nat \<Rightarrow> 'h"
  hl_min_size :: nat
  hl_allocate_first_fit :: "layout \<Rightarrow> 'h \<Rightarrow> (nat \<times> layout) option \<times> 'h"
  hl_deallocate :: "nat \<Rightarrow> layout \<Rightarrow> 'h \<Rightarrow> layout \<times> 'h"

record 'h Heap =
  bottom :: nat
  hsize :: nat
  used :: nat
  holes :: 'h

definition heap_empty :: "'h hole_ops \<Rightarrow> 'h Heap" where
  "heap_empty ho = \<lparr>bottom = 0, hsize = 0, used = 0, holes = hl_empty ho\<rparr>"

definition heap_update :: "'h Heap \<Rightarrow> 'h Heap \<Rightarrow> 'h Heap" where
  "heap_update self other =
     self\<lparr>bottom := bottom other, hsize := hsize other, used := used other, holes := holes other\<rparr>"

definition heap_init :: "'h hole_ops \<Rightarrow> nat \<Rightarrow> nat \<Rightarrow> 'h Heap \<Rightarrow> 'h Heap" where
  "heap_init ho heap_bottom heap_size self =
     self\<lparr>bottom := heap_bottom, hsize := heap_size, used := 0,
          holes := hl_new ho heap_bottom heap_size\<rparr>"

definition heap_init_from_slice :: "'h hole_ops \<Rightarrow> nat \<times> nat \<Rightarrow> 'h Heap \<Rightarrow> 'h Heap res" where
  "heap_init_from_slice ho memory self =
     bind_r (assert_r (bottom self = 0)) (\<lambda>_.
       let (address, sz) = memory in Inr (heap_init ho address sz self))"

definition heap_new :: "'h hole_ops \<Rightarrow> nat \<Rightarrow> nat \<Rightarrow> 'h Heap" where
  "heap_new ho heap_bottom heap_size =
     (if heap_size < hl_min_size ho then heap_empty ho
      else \<lparr>bottom = heap_bottom, hsize = heap_size, used = 0, holes = hl_new ho heap_bottom heap_size\<rparr>)"

definition heap_from_slice :: "'h hole_ops \<Rightarrow> nat \<times> nat \<Rightarrow> 'h Heap" where
  "heap_from_slice ho memory = (let (address, sz) = memory in heap_new ho address sz)"

definition allocate_first_fit :: "'h hole_ops \<Rightarrow> layout \<Rightarrow> 'h Heap \<Rightarrow> (nat option \<times> 'h Heap) res" where
  "allocate_first_fit ho lay self =
     (case hl_allocate_first_fit ho lay (holes self) of
        (Some (ptr, aligned_layout), hs) \<Rightarrow>
          bind_r (chk 64 (used self + l_size aligned_layout)) (\<lambda>u.
            Inr (Some ptr, self\<lparr>used := u, holes := hs\<rparr>))
      | (None, hs) \<Rightarrow> Inr (None, self\<lparr>holes := hs\<rparr>))"

definition heap_deallocate :: "'h hole_ops \<Rightarrow> nat \<Rightarrow> layout \<Rightarrow> 'h Heap \<Rightarrow> 'h Heap res" where
  "heap_deallocate ho ptr lay self =
     (let (aligned_layout, hs) = hl_deallocate ho ptr lay (holes self) in
      bind_r (sub_chk (used self) (l_size aligned_layout)) (\<lambda>u.
        Inr (self\<lparr>used := u, holes := hs\<rparr>)))"

definition heap_top :: "'h Heap \<Rightarrow> nat res" where
  "heap_top self = chk 64 (bottom self + hsize self)"

definition heap_free :: "'h Heap \<Rightarrow> nat res" where
  "heap_free self = sub_chk (hsize self) (used self)"

text \<open>\<open>Layout::from_size_align(by, 1).unwrap()\<close>: the size may not exceed \<open>isize::MAX\<close>.\<close>

definition layout_align1 :: "nat \<Rightarrow> layout res" where
  "layout_align1 by =
     (if by < 2 ^ 63 then Inr \<lparr>l_size = by, l_align = 1\<rparr> else Inl (Panic UnwrapNone))"

definition heap_extend :: "'h hole_ops \<Rightarrow> nat \<Rightarrow> 'h Heap \<Rightarrow> 'h Heap res" where
  "heap_extend ho by self =
     bind_r (heap_top self) (\<lambda>top.
     bind_r (layout_align1 by) (\<lambda>lay.
       let (_, hs) = hl_deallocate ho top lay (holes self) in
       bind_r (chk 64 (hsize self + by)) (\<lambda>sz.
         Inr (self\<lparr>holes := hs, hsize := sz\<rparr>))))"

section \<open>The global allocator\<close>

definition locked_heap_new :: "'h hole_ops \<Rightarrow> nat \<Rightarrow> nat \<Rightarrow> 'h Heap" where
  "locked_heap_new ho heap_bottom heap_size =
     \<lparr>bottom = heap_bottom, hsize = heap_size, used = 0, holes = hl_new ho heap_bottom heap_size\<rparr>"

text \<open>\<open>GlobalAlloc::alloc\<close> returns the null pointer on failure.\<close>

definition global_alloc :: "'h hole_ops \<Rightarrow> layout \<Rightarrow> 'h Heap \<Rightarrow> (nat \<times> 'h Heap) res" where
  "global_alloc ho lay self =
     bind_r (allocate_first_fit ho lay self) (\<lambda>(r, self').
       Inr (case r of None \<Rightarrow> 0 | Some allocation \<Rightarrow> allocation, self'))"

definition global_dealloc :: "'h hole_ops \<Rightarrow> nat \<Rightarrow> layout \<Rightarrow> 'h Heap \<Rightarrow> 'h Heap res" where
  "global_dealloc ho ptr lay self = heap_deallocate ho ptr lay self"

definition locked_heap_empty :: "'h hole_ops \<Rightarrow> 'h Heap" where
  "locked_heap_empty ho = heap_empty ho"

definition locked_heap_update :: "'h Heap \<Rightarrow> 'h Heap \<Rightarrow> 'h Heap" where
  "locked_heap_update heap self = heap_update self heap"

text \<open>The loader hands \<open>allocator::heap()\<close>, a clone of its allocator, to the kernel, whose own \<open>ALLOCATOR\<close> is empty.\<close>

definition allocator_heap :: "'h Heap \<Rightarrow> 'h Heap" where
  "allocator_heap ALLOCATOR = \<lparr>bottom = bottom ALLOCATOR, hsize = hsize ALLOCATOR, used = used ALLOCATOR, holes = holes ALLOCATOR\<rparr>"

definition init_heap :: "'h Heap \<Rightarrow> 'h Heap \<Rightarrow> 'h Heap" where
  "init_heap heap ALLOCATOR = heap_update ALLOCATOR heap"

text \<open>
  \<open>heap_range\<close>: first and last address of the pages; the end adds \<open>offset\<close> to an address that already
  has it.
\<close>

definition heap_range :: "nat \<Rightarrow> (nat \<times> nat) res" where
  "heap_range offset =
     bind_r (chk 64 (HEAP_START + offset)) (\<lambda>heap_start.
     bind_r (chk 64 (HEAP_SIZE + offset)) (\<lambda>n.
     bind_r (chk 64 (heap_start + n)) (\<lambda>e.
     bind_r (sub_chk e 1) (\<lambda>heap_end. Inr (heap_start, heap_end)))))"

text \<open>
  \<open>init_heap_new\<close> maps a fresh frame for every page of the range and ignores the result of
  \<open>map_to\<close>; the allocator of the frames and the page tables are one world.
\<close>

primrec map_heap_pages ::
    "('p, 'f, 'w) mapper \<Rightarrow> ('w \<Rightarrow> ('f option \<times> 'w) res) \<Rightarrow> bool \<Rightarrow> 'p list \<Rightarrow> 'w
       \<Rightarrow> ((map_to_error + unit) \<times> 'w) res" where
  "map_heap_pages mp alloc user [] w = Inr (Inr (), w)"
| "map_heap_pages mp alloc user (page # pages) w =
     bind_r (alloc w) (\<lambda>(r, w1).
       case r of
         None \<Rightarrow> Inr (Inl FrameAllocationFailed, w1)
       | Some frame \<Rightarrow>
           bind_r (map_to mp page frame ({PRESENT, WRITABLE} \<union> (if user then {USER_ACCESSIBLE} else {})) w1)
             (\<lambda>(_, w2). map_heap_pages mp alloc user pages w2))"

definition init_heap_new ::
    "'h hole_ops \<Rightarrow> ('p, 'f, 'w) mapper \<Rightarrow> ('w \<Rightarrow> ('f option \<times> 'w) res) \<Rightarrow> nat \<Rightarrow> bool
       \<Rightarrow> 'w \<Rightarrow> 'h Heap \<Rightarrow> ((map_to_error + unit) \<times> 'w \<times> 'h Heap) res" where
  "init_heap_new ho mp alloc offset user w ALLOCATOR =
     bind_r (heap_range offset) (\<lambda>(s, e).
     bind_r (page_range mp s e) (\<lambda>pages.
     bind_r (map_heap_pages mp alloc user pages w) (\<lambda>(r, w').
       case r of
         Inl err \<Rightarrow> Inr (Inl err, w', ALLOCATOR)
       | Inr _ \<Rightarrow>
           bind_r (chk 64 (HEAP_START + offset)) (\<lambda>b.
             Inr (Inr (), w', heap_init ho b HEAP_SIZE ALLOCATOR)))))"

section \<open>Accounting\<close>

text \<open>
  The documented accounting of the hole list: a new list at an aligned address has all bytes free, an
  allocation takes exactly the bytes of the layout it returns, a deallocation gives them back; a layout
  that is a multiple of the hole alignment and not below the minimal size is not rounded. The extension
  of a heap by another size is outside the contract, so \<open>heap_step\<close> does not take it.
\<close>

definition holes_ok :: "'h hole_ops \<Rightarrow> ('h \<Rightarrow> nat) \<Rightarrow> bool" where
  "holes_ok ho free \<longleftrightarrow>
     (\<forall>b s. 8 dvd b \<longrightarrow> free (hl_new ho b s) = s)
   \<and> (\<forall>lay h p lay' h'. hl_allocate_first_fit ho lay h = (Some (p, lay'), h') \<longrightarrow>
        free h = free h' + l_size lay')
   \<and> (\<forall>lay h h'. hl_allocate_first_fit ho lay h = (None, h') \<longrightarrow> free h' = free h)
   \<and> (\<forall>p lay h lay' h'. hl_deallocate ho p lay h = (lay', h') \<longrightarrow> free h' = free h + l_size lay')
   \<and> (\<forall>p n h. 8 dvd n \<and> hl_min_size ho \<le> n \<longrightarrow>
        l_size (fst (hl_deallocate ho p \<lparr>l_size = n, l_align = 1\<rparr> h)) = n)"

definition heap_inv :: "('h \<Rightarrow> nat) \<Rightarrow> 'h Heap \<Rightarrow> bool" where
  "heap_inv free h \<longleftrightarrow> used h + free (holes h) = hsize h"

inductive heap_step :: "'h hole_ops \<Rightarrow> 'h Heap \<Rightarrow> 'h Heap \<Rightarrow> bool" for ho where
  alloc: "global_alloc ho lay h = Inr (p, h') \<Longrightarrow> heap_step ho h h'"
| dealloc: "global_dealloc ho p lay h = Inr h' \<Longrightarrow> heap_step ho h h'"
| extend: "8 dvd by \<Longrightarrow> hl_min_size ho \<le> by \<Longrightarrow> heap_extend ho by h = Inr h' \<Longrightarrow> heap_step ho h h'"

inductive heap_reachable :: "'h hole_ops \<Rightarrow> nat \<Rightarrow> nat \<Rightarrow> 'h Heap \<Rightarrow> bool" for ho b n where
  init: "8 dvd b \<Longrightarrow> heap_reachable ho b n (heap_init ho b n (heap_empty ho))"
| step: "heap_reachable ho b n h \<Longrightarrow> heap_step ho h h' \<Longrightarrow> heap_reachable ho b n h'"
| hand_over: "heap_reachable ho b n h \<Longrightarrow> heap_reachable ho b n (init_heap (allocator_heap h) (locked_heap_empty ho))"

lemma hand_over_same: "init_heap (allocator_heap h) (locked_heap_empty ho) = (h :: 'h Heap)"
  by (simp add: init_heap_def heap_update_def allocator_heap_def locked_heap_empty_def heap_empty_def)

lemma heap_init_inv: "holes_ok ho free \<Longrightarrow> 8 dvd b \<Longrightarrow> heap_inv free (heap_init ho b n h)"
  by (simp add: heap_inv_def heap_init_def holes_ok_def)

lemma global_alloc_inv:
  assumes "holes_ok ho free" "heap_inv free h" "global_alloc ho lay h = Inr (p, h')"
  shows "heap_inv free h'"
proof (cases "hl_allocate_first_fit ho lay (holes h)")
  case (Pair r hs)
  with assms show ?thesis
    by (cases r) (auto simp: global_alloc_def allocate_first_fit_def heap_inv_def holes_ok_def)
qed

lemma global_dealloc_inv:
  assumes "holes_ok ho free" "heap_inv free h" "global_dealloc ho p lay h = Inr h'"
  shows "heap_inv free h'"
proof (cases "hl_deallocate ho p lay (holes h)")
  case (Pair l hs)
  then have "free hs = free (holes h) + l_size l" using assms(1) by (simp add: holes_ok_def)
  with Pair assms show ?thesis
    by (auto simp: global_dealloc_def heap_deallocate_def heap_inv_def)
qed

lemma heap_extend_inv:
  assumes "holes_ok ho free" "heap_inv free h" "8 dvd by" "hl_min_size ho \<le> by" "heap_extend ho by h = Inr h'"
  shows "heap_inv free h'"
proof -
  from assms(5) obtain l hs where d: "hl_deallocate ho (bottom h + hsize h) \<lparr>l_size = by, l_align = 1\<rparr> (holes h) = (l, hs)"
      "h' = h\<lparr>holes := hs, hsize := hsize h + by\<rparr>"
    by (auto simp: heap_extend_def heap_top_def layout_align1_def split: if_splits prod.splits)
  then have "free hs = free (holes h) + by"
    using assms(1,3,4) unfolding holes_ok_def by (metis fst_conv)
  with d assms(2) show ?thesis by (simp add: heap_inv_def)
qed

lemma heap_reachable_inv: "heap_reachable ho b n h \<Longrightarrow> holes_ok ho free \<Longrightarrow> heap_inv free h"
proof (induction rule: heap_reachable.induct)
  case init
  then show ?case by (auto intro: heap_init_inv)
next
  case (step h h')
  from step.hyps(2) step.IH [OF step.prems] step.prems show ?case
    by (cases rule: heap_step.cases)
      (blast intro: global_alloc_inv global_dealloc_inv heap_extend_inv)+
next
  case hand_over
  then show ?case by (simp add: hand_over_same)
qed

section \<open>Properties\<close>

text \<open>A hole list that only counts its free bytes, for the witnesses.\<close>

definition counting_holes :: "nat hole_ops" where
  "counting_holes =
     \<lparr>hl_empty = 0, hl_new = (\<lambda>b s. s), hl_min_size = 16,
      hl_allocate_first_fit = (\<lambda>lay h. if l_size lay \<le> h then (Some (h, lay), h - l_size lay) else (None, h)),
      hl_deallocate = (\<lambda>p lay h. (lay, h + l_size lay))\<rparr>"

lemma counting_holes_ok: "holes_ok counting_holes id"
  by (auto simp: holes_ok_def counting_holes_def split: if_splits)

text \<open>
  C15: in every state the global allocator can reach by allocations, deallocations and extensions after
  \<open>init\<close>, the bytes counted as used and the free bytes of the hole list add up to the size of the heap;
  so \<open>free()\<close> never underflows and returns the bytes the hole list has free. The kernel taking the heap over from the loader
  is one of the steps: it goes on with the same holes and the same count.
\<close>
theorem heap_accounting:
  assumes "holes_ok ho free" "heap_reachable ho b n h"
  shows "heap_free h = Inr (free (holes h)) \<and> used h + free (holes h) = hsize h
    \<and> heap_free (init_heap (allocator_heap h) (locked_heap_empty ho)) = heap_free h"
  using heap_reachable_inv [OF assms(2,1)] hand_over_same [of h ho] by (auto simp: heap_inv_def heap_free_def)

lemma counting_alloc:
  "global_alloc counting_holes \<lparr>l_size = 40, l_align = 8\<rparr>
     (heap_init counting_holes 4096 100 (heap_empty counting_holes))
   = Inr (100, \<lparr>bottom = 4096, hsize = 100, used = 40, holes = 60\<rparr>)"
  unfolding global_alloc_def allocate_first_fit_def heap_init_def heap_empty_def counting_holes_def chk_def
  by simp

theorem heap_accounting_witness:
  "\<exists>p h. global_alloc counting_holes \<lparr>l_size = 40, l_align = 8\<rparr>
        (heap_init counting_holes 4096 100 (heap_empty counting_holes)) = Inr (p, h)
     \<and> heap_free h = Inr 60 \<and> used h = 40"
proof -
  have "heap_reachable counting_holes 4096 100 (heap_init counting_holes 4096 100 (heap_empty counting_holes))"
    by (rule heap_reachable.init) simp
  note r = heap_reachable.step [OF this heap_step.alloc [OF counting_alloc]]
  from heap_accounting [OF counting_holes_ok r] counting_alloc show ?thesis by simp
qed

text \<open>
  Named hypotheses on the parameters: drawing a frame does not change the page tables; \<open>map_to\<close> fails
  only on pages that are mapped already.
\<close>

definition alloc_keeps_tables :: "('p, 'f, 'w) mapper \<Rightarrow> ('w \<Rightarrow> ('f option \<times> 'w) res) \<Rightarrow> bool" where
  "alloc_keeps_tables mp alloc \<longleftrightarrow>
     (\<forall>w r w'. alloc w = Inr (r, w') \<longrightarrow> translate_page mp w' = translate_page mp w)"

definition fails_only_mapped :: "('p, 'f, 'w) mapper \<Rightarrow> bool" where
  "fails_only_mapped mp \<longleftrightarrow>
     (\<forall>p f fl w e w'. map_to mp p f fl w = Inr (Inl e, w') \<longrightarrow> translate_page mp w p \<noteq> None)"

lemma heap_range_covers:
  assumes "heap_range offset = Inr (s, e)"
  shows "s = HEAP_START + offset" "s + HEAP_SIZE + offset = e + 1"
  using assms by (auto simp: heap_range_def memory_regions)

lemma map_heap_pages_mapped:
  assumes alloc: "alloc_keeps_tables mp alloc"
    and ok: "mapper_ok mp"
    and err: "fails_only_mapped mp"
    and run: "map_heap_pages mp alloc user pages w = Inr (Inr u, w')"
  shows "(\<forall>p \<in> set pages. translate_page mp w' p \<noteq> None) \<and> translate_page mp w \<subseteq>\<^sub>m translate_page mp w'"
  using run
proof (induction pages arbitrary: w)
  case (Cons page pages)
  let ?fl = "{PRESENT, WRITABLE} \<union> (if user then {USER_ACCESSIBLE} else {})"
  from Cons.prems obtain f w1 r w2 where a: "alloc w = Inr (Some f, w1)"
      and m: "map_to mp page f ?fl w1 = Inr (r, w2)"
      and rest: "map_heap_pages mp alloc user pages w2 = Inr (Inr u, w')"
    by (auto split: option.splits)
  have t1: "translate_page mp w1 = translate_page mp w" using alloc a by (auto simp: alloc_keeps_tables_def)
  have t2: "translate_page mp w2 page \<noteq> None \<and> translate_page mp w1 \<subseteq>\<^sub>m translate_page mp w2"
  proof (cases r)
    case (Inl e)
    with m ok err show ?thesis by (fastforce simp: mapper_ok_def fails_only_mapped_def)
  next
    case (Inr v)
    with m ok have "translate_page mp w1 page = None"
        "translate_page mp w2 = (translate_page mp w1)(page := Some f)"
      by (auto simp: mapper_ok_def)
    then show ?thesis by (auto simp: map_le_def)
  qed
  from Cons.IH [OF rest] t1 t2 show ?case
    by (auto simp: map_le_def dom_def)
qed simp

text \<open>
  When \<open>init_heap_new\<close> returns \<open>Ok\<close>, the heap spans \<open>HEAP_SIZE\<close> bytes from \<open>HEAP_START + offset\<close>,
  the mapped range covers them, and every page of that range is mapped, provided \<open>map_to\<close> only fails on
  pages that are mapped already.
\<close>
theorem init_heap_new_maps:
  assumes "mapper_ok mp"
    and "alloc_keeps_tables mp alloc" "fails_only_mapped mp"
    and "init_heap_new ho mp alloc offset user w h = Inr (Inr (), w', h')"
  shows "bottom h' = HEAP_START + offset \<and> hsize h' = HEAP_SIZE \<and> used h' = 0
    \<and> (\<exists>s e pages. page_range mp s e = Inr pages \<and> s = bottom h' \<and> bottom h' + hsize h' \<le> e + 1
         \<and> (\<forall>p \<in> set pages. translate_page mp w' p \<noteq> None))"
proof -
  from assms(4) obtain s e pages where hr: "heap_range offset = Inr (s, e)"
      and pr: "page_range mp s e = Inr pages"
      and mh: "map_heap_pages mp alloc user pages w = Inr (Inr (), w')"
      and h': "h' = heap_init ho (HEAP_START + offset) HEAP_SIZE h"
    by (auto simp: init_heap_new_def split: sum.splits)
  have "\<forall>p \<in> set pages. translate_page mp w' p \<noteq> None"
    using map_heap_pages_mapped [OF assms(2,1,3) mh] by blast
  moreover have "bottom h' + hsize h' \<le> e + 1" "s = bottom h'"
    using heap_range_covers [OF hr] by (auto simp: h' heap_init_def)
  ultimately show ?thesis using pr by (auto simp: h' heap_init_def)
qed

text \<open>
  \<open>init_heap_new\<close> reports success even when no page could be mapped: with a mapper that refuses
  every request the call still returns \<open>Ok\<close> and installs a heap whose pages are not mapped.
\<close>
theorem init_heap_new_ignores_map_errors:
  assumes "\<forall>p f fl w. map_to mp p f fl w = Inr (Inl ParentEntryHugePage, w)"
    and "\<forall>w. alloc w = Inr (Some f0, w)"
    and "page_range mp HEAP_START (HEAP_START + HEAP_SIZE - 1) = Inr pages"
  shows "init_heap_new ho mp alloc 0 user w h = Inr (Inr (), w, heap_init ho HEAP_START HEAP_SIZE h)"
proof -
  have "map_heap_pages mp alloc user ps w = Inr (Inr (), w)" for ps
    by (induction ps) (simp_all add: assms(1,2))
  moreover have "heap_range 0 = Inr (HEAP_START, HEAP_START + HEAP_SIZE - 1)"
    by (simp add: heap_range_def memory_regions chk_def sub_chk_def)
  ultimately show ?thesis
    using assms(3) by (simp add: init_heap_new_def) (simp add: memory_regions chk_def)
qed

text \<open>
  For the witnesses: a one-page view of the heap range, in a world that counts frames and keeps a page
  table, and the same world with a mapper that refuses every request.
\<close>

definition heap_mapper :: "(nat, nat, nat \<times> (nat \<Rightarrow> nat option)) mapper" where
  "heap_mapper =
     \<lparr>map_to = (\<lambda>p f fl (k, w). Inr (case w p of
          None \<Rightarrow> (Inr (), k, w(p := Some f)) | Some g \<Rightarrow> (Inl (PageAlreadyMapped g), k, w))),
      identity_map = (\<lambda>f fl (k, w). Inr (case w f of
          None \<Rightarrow> (Inr (), k, w(f := Some f)) | Some g \<Rightarrow> (Inl (PageAlreadyMapped g), k, w))),
      identity_page = id,
      translate_page = snd,
      frame_containing = (\<lambda>a. Inr a),
      frame_range = (\<lambda>a b. Inr [a]),
      page_range = (\<lambda>a b. Inr [a])\<rparr>"

definition refusing_mapper :: "(nat, nat, nat \<times> (nat \<Rightarrow> nat option)) mapper" where
  "refusing_mapper = heap_mapper\<lparr>map_to := (\<lambda>p f fl w. Inr (Inl ParentEntryHugePage, w))\<rparr>"

theorem init_heap_new_maps_witness:
  "\<exists>w' h'. init_heap_new counting_holes heap_mapper (\<lambda>(k, w). Inr (Some k, Suc k, w)) 0 False
       (7, Map.empty) (heap_empty counting_holes) = Inr (Inr (), w', h')
     \<and> bottom h' = HEAP_START \<and> translate_page heap_mapper w' HEAP_START \<noteq> None"
proof -
  let ?alloc = "\<lambda>(k::nat, w::nat \<Rightarrow> nat option). (Inr (Some k, Suc k, w) :: (nat option \<times> nat \<times> (nat \<Rightarrow> nat option)) res)"
  let ?w' = "(8, [HEAP_START \<mapsto> 7]) :: nat \<times> (nat \<Rightarrow> nat option)"
  let ?h' = "heap_init counting_holes HEAP_START HEAP_SIZE (heap_empty counting_holes)"
  have ok: "mapper_ok heap_mapper"
    by (auto simp: mapper_ok_def heap_mapper_def split: option.splits)
  have al: "alloc_keeps_tables heap_mapper ?alloc"
    by (auto simp: heap_mapper_def alloc_keeps_tables_def)
  have er: "fails_only_mapped heap_mapper"
    by (auto simp: heap_mapper_def fails_only_mapped_def split: option.splits)
  have r: "init_heap_new counting_holes heap_mapper ?alloc 0 False (7, Map.empty) (heap_empty counting_holes)
      = Inr (Inr (), ?w', ?h')"
    by (simp add: init_heap_new_def heap_range_def chk_def sub_chk_def memory_regions heap_mapper_def)
  from init_heap_new_maps [OF ok al er r] r show ?thesis
    by (auto simp: heap_mapper_def)
qed

theorem init_heap_new_ignores_map_errors_witness:
  "init_heap_new counting_holes refusing_mapper (\<lambda>w. Inr (Some 7, w)) 0 False
     (0, Map.empty) (heap_empty counting_holes)
   = Inr (Inr (), (0, Map.empty), heap_init counting_holes HEAP_START HEAP_SIZE (heap_empty counting_holes))"
  by (rule init_heap_new_ignores_map_errors [where ?f0.0 = 7 and pages = "[HEAP_START]"])
    (simp_all add: refusing_mapper_def heap_mapper_def)

end
