(* ===== verification/Writer.thy ===== *)
theory Writer
  imports Prelude
begin

text \<open>
  The output side of \<open>disk_image_generator\<close>: a seekable file, and the third-party crates the writers
  call.

  \<^item> \<open>out_file\<close> is a \<open>std::fs::File\<close> opened for writing (or an \<open>io::Cursor\<close> over a vector): its bytes and
    its position. Writing past the end extends the file, and a gap left by a seek reads as zeros. Failures
    of the operating system on the output file (a full disk) are not modelled.
  \<^item> The crate \<open>byteorder\<close> is the parameter \<open>bo_*\<close> of \<open>deps\<close>, \<open>byteorder_ok\<close> its documented behaviour; the
    crate \<open>chrono\<close> is the parameter \<open>now\<close>: \<open>Utc::now()\<close> of the \<open>n\<close>-th call, with the accessors the code
    uses and the string \<open>format\<close> produces, \<open>clock_ok\<close> its documented ranges. The state counts the
    calls (\<open>ticks\<close>).
  \<^item> \<open>run\<close> executes a sequence of write operations; \<open>writes_bytes\<close> is the form every straight-line
    writer has: it appends a known byte list at the position.
\<close>

section \<open>The output file\<close>

record out_file =
  fbytes :: "u8 list"
  fpos :: nat
  ticks :: nat

definition file_create :: out_file where
  "file_create = \<lparr>fbytes = [], fpos = 0, ticks = 0\<rparr>"

definition overwrite :: "u8 list \<Rightarrow> nat \<Rightarrow> u8 list \<Rightarrow> u8 list" where
  "overwrite xs p bs =
     (if bs = [] then xs
      else take p (xs @ replicate (p - length xs) 0) @ bs @ drop (p + length bs) xs)"

definition put :: "u8 list \<Rightarrow> out_file \<Rightarrow> out_file" where
  "put bs f = f\<lparr>fbytes := overwrite (fbytes f) (fpos f) bs, fpos := fpos f + length bs\<rparr>"

definition write_all :: "u8 list \<Rightarrow> out_file \<Rightarrow> out_file res" where
  "write_all bs f = Inr (put bs f)"

text \<open>\<open>seek(SeekFrom::Start(p))\<close>; \<open>seek(SeekFrom::Current(0))\<close> only returns \<open>fpos\<close>.\<close>

definition seek_start :: "nat \<Rightarrow> out_file \<Rightarrow> out_file res" where
  "seek_start p f = Inr (f\<lparr>fpos := p\<rparr>)"

definition seek_end :: "out_file \<Rightarrow> out_file res" where
  "seek_end f = Inr (f\<lparr>fpos := length (fbytes f)\<rparr>)"

text \<open>A sequence of operations joined by \<open>?;\<close>.\<close>

definition run :: "(out_file \<Rightarrow> out_file res) list \<Rightarrow> out_file \<Rightarrow> out_file res" where
  "run ops f = fold_r (\<lambda>op. op) ops f"

lemma run_simps [simp]:
  "run [] f = Inr f"
  "run (op # ops) f = bind_r (op f) (run ops)"
  by (simp_all add: run_def fun_eq_iff [symmetric] cong: bind_r_cong)

lemma run_append: "run (xs @ ys) f = bind_r (run xs f) (run ys)"
  by (simp add: run_def fold_r_append) (metis run_def)

subsection \<open>What a write changes\<close>

lemma overwrite_length: "length (overwrite xs p bs) = (if bs = [] then length xs else max (length xs) (p + length bs))"
  by (auto simp: overwrite_def)

lemma overwrite_append: "overwrite (overwrite xs p as) (p + length as) bs = overwrite xs p (as @ bs)"
proof (cases "as = [] \<or> bs = []")
  case False
  have "length (take p (xs @ replicate (p - length xs) 0)) = p" by simp
  with False show ?thesis by (simp add: overwrite_def ac_simps)
qed (auto simp: overwrite_def)

lemma overwrite_nth:
  assumes "i < length (overwrite xs p bs)"
  shows "overwrite xs p bs ! i =
    (if p \<le> i \<and> i < p + length bs then bs ! (i - p) else if i < length xs then xs ! i else 0)"
proof (cases "bs = []")
  case False
  let ?t = "take p (xs @ replicate (p - length xs) 0)"
  have l: "length ?t = p" by simp
  have "i < length xs \<or> i < p + length bs" using assms False by (auto simp: overwrite_length)
  then show ?thesis using False l by (auto simp: overwrite_def nth_append)
qed (use assms in \<open>auto simp: overwrite_def\<close>)

lemma put_simps [simp]:
  "fpos (put bs f) = fpos f + length bs"
  "ticks (put bs f) = ticks f"
  "fbytes (put bs f) = overwrite (fbytes f) (fpos f) bs"
  by (simp_all add: put_def)

lemma put_nil [simp]: "put [] f = f"
  by (simp add: put_def overwrite_def)

lemma put_put [simp]: "put bs (put as f) = put (as @ bs) f"
  by (simp add: put_def overwrite_append)

lemma write_all_simp [simp]: "write_all bs f = Inr (put bs f)"
  by (simp add: write_all_def)

definition tick :: "out_file \<Rightarrow> out_file" where
  "tick f = f\<lparr>ticks := ticks f + 1\<rparr>"

lemma tick_simps [simp]:
  "fpos (tick f) = fpos f" "fbytes (tick f) = fbytes f" "ticks (tick f) = ticks f + 1"
  by (simp_all add: tick_def)

lemma tick_put: "tick (put bs f) = put bs (tick f)"
  by (simp add: tick_def put_def)

text \<open>The bytes an image holds at an offset: what a reader of the finished file sees.\<close>

definition bytes_at :: "u8 list \<Rightarrow> nat \<Rightarrow> nat \<Rightarrow> u8 list" where
  "bytes_at xs p n = take n (drop p xs)"

lemma bytes_at_overwrite_same: "bytes_at (overwrite xs p bs) p (length bs) = bs"
  by (simp add: bytes_at_def overwrite_def)

lemma bytes_at_overwrite_prefix:
  "bytes_at (overwrite xs p (as @ bs)) p (length as) = as"
  by (simp add: bytes_at_def overwrite_def)

lemma bytes_at_overwrite_other:
  assumes "p + n \<le> length xs" "p + n \<le> q \<or> q + length bs \<le> p"
  shows "bytes_at (overwrite xs q bs) p n = bytes_at xs p n"
proof (rule nth_equalityI)
  show len: "length (bytes_at (overwrite xs q bs) p n) = length (bytes_at xs p n)"
    using assms by (auto simp: bytes_at_def overwrite_length)
  fix i assume i: "i < length (bytes_at (overwrite xs q bs) p n)"
  then have "i < n" "p + i < length xs" using len assms(1) by (auto simp: bytes_at_def)
  moreover from this have "p + i < length (overwrite xs q bs)" by (auto simp: overwrite_length)
  ultimately show "bytes_at (overwrite xs q bs) p n ! i = bytes_at xs p n ! i"
    using assms by (auto simp: bytes_at_def overwrite_nth)
qed

lemma bytes_at_put_mid: "bytes_at (fbytes (put (xs @ ys @ zs) f)) (fpos f + length xs) (length ys) = ys"
proof -
  have "fbytes (put (xs @ ys @ zs) f)
      = overwrite (overwrite (fbytes f) (fpos f) xs) (fpos f + length xs) (ys @ zs)"
    by (simp add: overwrite_append)
  then show ?thesis by (simp add: bytes_at_overwrite_prefix)
qed

lemma bytes_at_put_part:
  assumes "k + n \<le> length bs"
  shows "bytes_at (fbytes (put bs f)) (fpos f + k) n = bytes_at bs k n"
proof -
  have "bs = take k bs @ bytes_at bs k n @ drop (k + n) bs"
    by (metis append_take_drop_id bytes_at_def drop_drop add.commute)
  moreover have "length (take k bs) = k" "length (bytes_at bs k n) = n"
    using assms by (simp_all add: bytes_at_def)
  ultimately show ?thesis
    using bytes_at_put_mid [of "take k bs" "bytes_at bs k n" "drop (k + n) bs" f] by metis
qed

section \<open>The crates byteorder and chrono\<close>

datatype endian = LittleEndian | BigEndian

record date_time =
  dt_year :: int
  dt_month :: nat
  dt_day :: nat
  dt_hour :: nat
  dt_minute :: nat
  dt_second :: nat
  dt_format :: "u8 list"

record deps =
  bo_u8 :: "nat \<Rightarrow> u8 list"
  bo_u16 :: "endian \<Rightarrow> nat \<Rightarrow> u8 list"
  bo_u32 :: "endian \<Rightarrow> nat \<Rightarrow> u8 list"
  bo_u64 :: "endian \<Rightarrow> nat \<Rightarrow> u8 list"
  now :: "nat \<Rightarrow> date_time"

definition le_bytes :: "nat \<Rightarrow> nat \<Rightarrow> u8 list" where
  "le_bytes n x = map (\<lambda>i. word_of_nat (x div 256 ^ i)) [0..<n]"

definition endian_bytes :: "endian \<Rightarrow> nat \<Rightarrow> nat \<Rightarrow> u8 list" where
  "endian_bytes e n x = (case e of LittleEndian \<Rightarrow> le_bytes n x | BigEndian \<Rightarrow> rev (le_bytes n x))"

lemma endian_bytes_length [simp]: "length (endian_bytes e n x) = n" "length (le_bytes n x) = n"
  by (simp_all add: endian_bytes_def le_bytes_def split: endian.splits)

text \<open>The value of a little-endian byte list.\<close>

primrec le_val :: "u8 list \<Rightarrow> nat" where
  "le_val [] = 0"
| "le_val (x # xs) = unat x + 256 * le_val xs"

lemma le_val_le_bytes: "le_val (le_bytes n x) = x mod 256 ^ n"
proof (induction n arbitrary: x)
  case (Suc n)
  have "le_bytes (Suc n) x = word_of_nat x # le_bytes n (x div 256)"
    by (simp add: le_bytes_def upt_conv_Cons map_Suc_upt [symmetric] comp_def div_mult2_eq del: upt_Suc)
  with Suc show ?case by (simp add: unat_of_nat take_bit_eq_mod mod_mult2_eq)
qed (simp add: le_bytes_def)

definition byteorder_ok :: "deps \<Rightarrow> bool" where
  "byteorder_ok dp \<longleftrightarrow>
     (\<forall>x < 2 ^ 8. bo_u8 dp x = [word_of_nat x])
   \<and> (\<forall>e. \<forall>x < 2 ^ 16. bo_u16 dp e x = endian_bytes e 2 x)
   \<and> (\<forall>e. \<forall>x < 2 ^ 32. bo_u32 dp e x = endian_bytes e 4 x)
   \<and> (\<forall>e. \<forall>x < 2 ^ 64. bo_u64 dp e x = endian_bytes e 8 x)"

definition clock_ok :: "deps \<Rightarrow> bool" where
  "clock_ok dp \<longleftrightarrow>
     (\<forall>n. 1900 \<le> dt_year (now dp n) \<and> dt_year (now dp n) \<le> 9999
        \<and> dt_month (now dp n) \<le> 12 \<and> dt_day (now dp n) \<le> 31 \<and> dt_hour (now dp n) < 24
        \<and> dt_minute (now dp n) < 60 \<and> dt_second (now dp n) < 60
        \<and> length (dt_format (now dp n)) = 16)"

definition write_u8 :: "deps \<Rightarrow> nat \<Rightarrow> out_file \<Rightarrow> out_file res" where
  "write_u8 dp x = write_all (bo_u8 dp x)"

definition write_u16 :: "deps \<Rightarrow> endian \<Rightarrow> nat \<Rightarrow> out_file \<Rightarrow> out_file res" where
  "write_u16 dp e x = write_all (bo_u16 dp e x)"

definition write_u32 :: "deps \<Rightarrow> endian \<Rightarrow> nat \<Rightarrow> out_file \<Rightarrow> out_file res" where
  "write_u32 dp e x = write_all (bo_u32 dp e x)"

definition write_u64 :: "deps \<Rightarrow> endian \<Rightarrow> nat \<Rightarrow> out_file \<Rightarrow> out_file res" where
  "write_u64 dp e x = write_all (bo_u64 dp e x)"

text \<open>The macro \<open>write_bothendian!\<close>: little endian, then big endian.\<close>

definition both_u16 :: "deps \<Rightarrow> nat \<Rightarrow> out_file \<Rightarrow> out_file res" where
  "both_u16 dp x = run [write_u16 dp LittleEndian x, write_u16 dp BigEndian x]"

definition both_u32 :: "deps \<Rightarrow> nat \<Rightarrow> out_file \<Rightarrow> out_file res" where
  "both_u32 dp x = run [write_u32 dp LittleEndian x, write_u32 dp BigEndian x]"

lemma write_num_simps [simp]:
  "byteorder_ok dp \<Longrightarrow> x < 256 \<Longrightarrow> write_u8 dp x f = Inr (put [word_of_nat x] f)"
  "byteorder_ok dp \<Longrightarrow> x < 65536 \<Longrightarrow> write_u16 dp e x f = Inr (put (endian_bytes e 2 x) f)"
  "byteorder_ok dp \<Longrightarrow> x < 4294967296 \<Longrightarrow> write_u32 dp e x f = Inr (put (endian_bytes e 4 x) f)"
  "byteorder_ok dp \<Longrightarrow> x < 18446744073709551616 \<Longrightarrow> write_u64 dp e x f = Inr (put (endian_bytes e 8 x) f)"
  by (simp_all add: byteorder_ok_def write_u8_def write_u16_def write_u32_def write_u64_def)

definition both_bytes :: "nat \<Rightarrow> nat \<Rightarrow> u8 list" where
  "both_bytes n x = le_bytes n x @ rev (le_bytes n x)"

lemma both_simps [simp]:
  "byteorder_ok dp \<Longrightarrow> x < 65536 \<Longrightarrow> both_u16 dp x f = Inr (put (both_bytes 2 x) f)"
  "byteorder_ok dp \<Longrightarrow> x < 4294967296 \<Longrightarrow> both_u32 dp x f = Inr (put (both_bytes 4 x) f)"
  by (simp_all add: both_u16_def both_u32_def both_bytes_def endian_bytes_def)

lemma both_bytes_length [simp]: "length (both_bytes n x) = 2 * n"
  by (simp add: both_bytes_def)

text \<open>An instance for the witnesses: the encodings as documented, and a clock that stands still.\<close>

definition sample_deps :: deps where
  "sample_deps =
     \<lparr>bo_u8 = (\<lambda>x. [word_of_nat x]), bo_u16 = (\<lambda>e. endian_bytes e 2), bo_u32 = (\<lambda>e. endian_bytes e 4),
      bo_u64 = (\<lambda>e. endian_bytes e 8),
      now = (\<lambda>_. \<lparr>dt_year = 2022, dt_month = 3, dt_day = 4, dt_hour = 5, dt_minute = 6, dt_second = 7,
                   dt_format = replicate 16 0x30\<rparr>)\<rparr>"

lemma sample_deps_ok: "byteorder_ok sample_deps" "clock_ok sample_deps"
  by (simp_all add: byteorder_ok_def clock_ok_def sample_deps_def)

section \<open>Signed positions\<close>

text \<open>\<open>x as i32\<close>, the overflow check of \<open>i32\<close> arithmetic, and \<open>x as usize\<close> of an \<open>i32\<close>.\<close>

definition as_i32 :: "nat \<Rightarrow> int" where
  "as_i32 x = (let y = int (x mod 2 ^ 32) in if y < 2 ^ 31 then y else y - 2 ^ 32)"

definition chk_i32 :: "int \<Rightarrow> int res" where
  "chk_i32 x = (if - (2 ^ 31) \<le> x \<and> x < 2 ^ 31 then Inr x else Inl (Panic Overflow))"

definition i32_as_usize :: "int \<Rightarrow> nat" where
  "i32_as_usize x = nat (x mod 2 ^ 64)"

lemma as_i32_small [simp]: "x < 2147483648 \<Longrightarrow> as_i32 x = int x"
  by (simp add: as_i32_def)

lemma chk_i32_Inr [simp]: "chk_i32 x = Inr y \<longleftrightarrow> y = x \<and> - (2 ^ 31) \<le> x \<and> x < 2 ^ 31"
  by (auto simp: chk_i32_def)

lemma i32_as_usize_nonneg [simp]: "0 \<le> x \<Longrightarrow> x < 2147483648 \<Longrightarrow> i32_as_usize x = nat x"
  by (simp add: i32_as_usize_def)

end
