(* ===== verification/Packed.thy ===== *)
theory Packed
  imports Writer
begin

text \<open>
  Packed structures read through raw pointers: \<open>boot_image_generator/src/lib.rs\<close> and
  \<open>kernel_api/common/src/elf.rs\<close> cast a pointer into a byte slice to a pointer to a \<open>repr(C, packed)\<close> struct.
  The cast checks nothing: \<open>raw_bytes\<close> gives the bytes of the struct, or \<open>UndefinedBehaviour\<close> when it does
  not lie within the slice. Fields are little-endian (the code only runs on x86-64), and the offset of a
  field is the sum of the sizes of the fields before it.

  \<open>utf8_valid\<close> is the check of \<open>core::str::from_utf8\<close>.
\<close>

definition raw_bytes :: "u8 list \<Rightarrow> nat \<Rightarrow> nat \<Rightarrow> u8 list res" where
  "raw_bytes xs p n = (if p + n \<le> length xs then Inr (bytes_at xs p n) else Inl UndefinedBehaviour)"

definition field :: "u8 list \<Rightarrow> nat \<Rightarrow> nat \<Rightarrow> nat" where
  "field xs p n = le_val (bytes_at xs p n)"

lemma bytes_at_append1 [simp]: "p + n \<le> length xs \<Longrightarrow> bytes_at (xs @ ys) p n = bytes_at xs p n"
  by (simp add: bytes_at_def)

lemma bytes_at_append2 [simp]: "length xs \<le> p \<Longrightarrow> bytes_at (xs @ ys) p n = bytes_at ys (p - length xs) n"
  by (simp add: bytes_at_def)

lemma bytes_at_all [simp]: "length xs = n \<Longrightarrow> bytes_at xs 0 n = xs"
  by (simp add: bytes_at_def)

lemma bytes_at_length: "p + n \<le> length xs \<Longrightarrow> length (bytes_at xs p n) = n"
  by (simp add: bytes_at_def)

lemma raw_bytes_mid: "raw_bytes (xs @ ys @ zs) (length xs) (length ys) = Inr ys"
  by (simp add: raw_bytes_def)

text \<open>A table of equally sized records: the \<open>i\<close>-th one lies at \<open>i\<close> times the size.\<close>

lemma bytes_at_concat:
  assumes "i < length rs" "\<And>r. r \<in> set rs \<Longrightarrow> length r = n"
  shows "bytes_at (concat rs @ zs) (n * i) n = rs ! i"
  using assms
proof (induction rs arbitrary: i)
  case (Cons r rs)
  then show ?case by (cases i) (simp_all add: add.commute)
qed simp

lemma length_concat_uniform: "(\<And>r. r \<in> set rs \<Longrightarrow> length r = n) \<Longrightarrow> length (concat rs) = n * length rs"
  by (induction rs) simp_all

lemma raw_bytes_table:
  assumes "i < length rs" "\<And>r. r \<in> set rs \<Longrightarrow> length r = n"
  shows "raw_bytes (xs @ concat rs @ zs) (length xs + n * i) n = Inr (rs ! i)"
proof -
  have "n * Suc i \<le> n * length rs" using assms(1) by (intro mult_le_mono2) simp
  then show ?thesis
    using bytes_at_concat [OF assms] length_concat_uniform [OF assms(2)] by (simp add: raw_bytes_def)
qed

text \<open>UTF-8 (RFC 3629, section 4).\<close>

definition utf8_cont :: "u8 \<Rightarrow> bool" where
  "utf8_cont b \<longleftrightarrow> 0x80 \<le> b \<and> b \<le> 0xBF"

definition utf8_second :: "u8 \<Rightarrow> u8 \<Rightarrow> bool" where
  "utf8_second a b \<longleftrightarrow>
     (if a = 0xE0 then 0xA0 \<le> b \<and> b \<le> 0xBF
      else if a = 0xED then 0x80 \<le> b \<and> b \<le> 0x9F
      else if a = 0xF0 then 0x90 \<le> b \<and> b \<le> 0xBF
      else if a = 0xF4 then 0x80 \<le> b \<and> b \<le> 0x8F
      else utf8_cont b)"

fun utf8_valid :: "u8 list \<Rightarrow> bool" where
  "utf8_valid [] = True"
| "utf8_valid (a # xs) =
     (if a < 0x80 then utf8_valid xs
      else if 0xC2 \<le> a \<and> a \<le> 0xDF then
        (case xs of b # ys \<Rightarrow> utf8_cont b \<and> utf8_valid ys | _ \<Rightarrow> False)
      else if 0xE0 \<le> a \<and> a \<le> 0xEF then
        (case xs of b # c # ys \<Rightarrow> utf8_second a b \<and> utf8_cont c \<and> utf8_valid ys | _ \<Rightarrow> False)
      else if 0xF0 \<le> a \<and> a \<le> 0xF4 then
        (case xs of b # c # d # ys \<Rightarrow> utf8_second a b \<and> utf8_cont c \<and> utf8_cont d \<and> utf8_valid ys | _ \<Rightarrow> False)
      else False)"

lemma utf8_valid_ascii: "\<forall>b \<in> set xs. b < 0x80 \<Longrightarrow> utf8_valid xs"
  by (induction xs) simp_all

end
