(* ===== verification/Elf.thy ===== *)
theory Elf
  imports Packed
begin

text \<open>
  \<open>kernel_api/common/src/elf.rs\<close>: the ELF reader.

  \<open>header\<close> and the iterator over the program headers cast pointers into the file to references to packed
  structs. A reference must point to a valid value, so a struct that does not lie within the file, or one
  whose enum fields hold a number that is no discriminant, is \<open>UndefinedBehaviour\<close>; indexing and slicing
  panic out of bounds. \<open>encode_header\<close> and \<open>encode_program_header\<close> are the layout of the ELF specification that
  the reader is checked against.
\<close>

section \<open>Enumerations\<close>

datatype Machine =
    M_None | M32 | SPARC | I386 | M68K | M88K | I860 | MIPS | PowerPC | ARM | SuperH | IA64 | Amd64 | AArch64 | RISCV

primrec machine_as_u16 :: "Machine \<Rightarrow> nat" where
  "machine_as_u16 M_None = 0"
| "machine_as_u16 M32 = 1"
| "machine_as_u16 SPARC = 2"
| "machine_as_u16 I386 = 3"
| "machine_as_u16 M68K = 4"
| "machine_as_u16 M88K = 5"
| "machine_as_u16 I860 = 7"
| "machine_as_u16 MIPS = 8"
| "machine_as_u16 PowerPC = 0x14"
| "machine_as_u16 ARM = 0x28"
| "machine_as_u16 SuperH = 0x2A"
| "machine_as_u16 IA64 = 0x32"
| "machine_as_u16 Amd64 = 0x3E"
| "machine_as_u16 AArch64 = 0xB7"
| "machine_as_u16 RISCV = 0xF3"

datatype ElfFileType = ET_None | Relocatable | Executable | SharedObject | Core

primrec file_type_as_u16 :: "ElfFileType \<Rightarrow> nat" where
  "file_type_as_u16 ET_None = 0"
| "file_type_as_u16 Relocatable = 1"
| "file_type_as_u16 Executable = 2"
| "file_type_as_u16 SharedObject = 3"
| "file_type_as_u16 Core = 4"

datatype BitSize = X32 | X64

primrec bit_size_as_u8 :: "BitSize \<Rightarrow> nat" where
  "bit_size_as_u8 X32 = 1"
| "bit_size_as_u8 X64 = 2"

datatype Endianess = Little | Big

primrec endianess_as_u8 :: "Endianess \<Rightarrow> nat" where
  "endianess_as_u8 Little = 1"
| "endianess_as_u8 Big = 2"

datatype SegmentType = Null | Load | Dynamic | Interpret | Note | SegReserved | ProgramHeaderTable

primrec segment_type_as_u32 :: "SegmentType \<Rightarrow> nat" where
  "segment_type_as_u32 Null = 0"
| "segment_type_as_u32 Load = 1"
| "segment_type_as_u32 Dynamic = 2"
| "segment_type_as_u32 Interpret = 3"
| "segment_type_as_u32 Note = 4"
| "segment_type_as_u32 SegReserved = 5"
| "segment_type_as_u32 ProgramHeaderTable = 6"

definition segment_type_fmt :: "SegmentType \<Rightarrow> string" where
  "segment_type_fmt t =
     (let n = segment_type_as_u32 t in
      if n = 0 then ''Null'' else if n = 1 then ''Load'' else if n = 2 then ''Dynamic''
      else if n = 3 then ''Interpret'' else if n = 4 then ''Note'' else if n = 5 then ''Reserved''
      else if n = 6 then ''ProgramHeader'' else if 0x70000000 \<le> n then ''Lo Proc''
      else if 0x7FFFFFFF \<le> n then ''High Proc'' else ''Unknown Segment Type'')"

text \<open>The enum value with a given discriminant, of those listed; any other number is not a value of the type.\<close>

definition of_discriminant :: "('a \<Rightarrow> nat) \<Rightarrow> 'a list \<Rightarrow> nat \<Rightarrow> 'a res" where
  "of_discriminant disc vs n = (case find (\<lambda>v. disc v = n) vs of None \<Rightarrow> Inl UndefinedBehaviour | Some v \<Rightarrow> Inr v)"

definition machine_of :: "nat \<Rightarrow> Machine res" where
  "machine_of = of_discriminant machine_as_u16
     [M_None, M32, SPARC, I386, M68K, M88K, I860, MIPS, PowerPC, ARM, SuperH, IA64, Amd64, AArch64, RISCV]"

definition file_type_of :: "nat \<Rightarrow> ElfFileType res" where
  "file_type_of = of_discriminant file_type_as_u16 [ET_None, Relocatable, Executable, SharedObject, Core]"

definition bit_size_of :: "nat \<Rightarrow> BitSize res" where
  "bit_size_of = of_discriminant bit_size_as_u8 [X32, X64]"

definition endianess_of :: "nat \<Rightarrow> Endianess res" where
  "endianess_of = of_discriminant endianess_as_u8 [Little, Big]"

definition segment_type_of :: "nat \<Rightarrow> SegmentType res" where
  "segment_type_of = of_discriminant segment_type_as_u32
     [Null, Load, Dynamic, Interpret, Note, SegReserved, ProgramHeaderTable]"

section \<open>Structures\<close>

record Header =
  ident :: nat
  bits :: BitSize
  endianess :: Endianess
  abi :: nat
  header_version :: nat
  h_reserved :: nat
  elf_type :: ElfFileType
  machine :: Machine
  version :: nat
  entry :: nat
  prg_header_tbl :: nat
  sec_header_tbl :: nat
  h_flags :: nat
  header_size :: nat
  prg_entry_size :: nat
  prg_entry_count :: nat
  sec_entry_size :: nat
  sec_entry_count :: nat
  sec_str_index :: nat

record ProgramHeader =
  segement_type :: SegmentType
  p_flags :: nat
  p_offset :: nat
  p_virtual_address :: nat
  p_reserved :: nat
  segment_file_size :: nat
  segment_mem_size :: nat
  p_align :: nat

definition size_of_ProgramHeader :: nat where
  "size_of_ProgramHeader = 56"

text \<open>A reference to the struct at the start of the given bytes.\<close>

definition header_at :: "u8 list \<Rightarrow> Header res" where
  "header_at b =
     bind_r (bit_size_of (field b 4 1)) (\<lambda>bs.
     bind_r (endianess_of (field b 5 1)) (\<lambda>en.
     bind_r (file_type_of (field b 16 2)) (\<lambda>ft.
     bind_r (machine_of (field b 18 2)) (\<lambda>mc.
       Inr \<lparr>ident = field b 0 4, bits = bs, endianess = en, abi = field b 6 1, header_version = field b 7 1,
            h_reserved = field b 8 8, elf_type = ft, machine = mc, version = field b 20 4, entry = field b 24 8,
            prg_header_tbl = field b 32 8, sec_header_tbl = field b 40 8, h_flags = field b 48 4,
            header_size = field b 52 2, prg_entry_size = field b 54 2, prg_entry_count = field b 56 2,
            sec_entry_size = field b 58 2, sec_entry_count = field b 60 2, sec_str_index = field b 62 2\<rparr>))))"

definition program_header_at :: "u8 list \<Rightarrow> ProgramHeader res" where
  "program_header_at b =
     bind_r (segment_type_of (field b 0 4)) (\<lambda>t.
       Inr \<lparr>segement_type = t, p_flags = field b 4 4, p_offset = field b 8 8, p_virtual_address = field b 16 8,
            p_reserved = field b 24 8, segment_file_size = field b 32 8, segment_mem_size = field b 40 8,
            p_align = field b 48 8\<rparr>)"

section \<open>ElfFile\<close>

text \<open>An \<open>ElfFile\<close> is its bytes (\<open>data\<close>). \<open>program_header_table\<close> returns the address of the header itself.\<close>

definition program_header_table :: "nat \<Rightarrow> nat" where
  "program_header_table header_address = header_address + 0"

definition elf_header :: "u8 list \<Rightarrow> Header res" where
  "elf_header data = bind_r (index_r data 0) (\<lambda>_. bind_r (raw_bytes data 0 64) header_at)"

record ProgramHeaderIterator =
  phi_data :: "u8 list"
  phi_base :: nat
  phi_index :: nat
  phi_size :: nat

definition progam_headers :: "u8 list \<Rightarrow> ProgramHeaderIterator res" where
  "progam_headers data =
     bind_r (elf_header data) (\<lambda>h.
     bind_r (index_r data (prg_header_tbl h)) (\<lambda>_.
     bind_r (assert_r (prg_entry_size h = size_of_ProgramHeader \<or> prg_entry_count h = 0)) (\<lambda>_.
       Inr \<lparr>phi_data = data, phi_base = prg_header_tbl h, phi_index = 0, phi_size = prg_entry_count h\<rparr>)))"

definition program_header_next :: "ProgramHeaderIterator \<Rightarrow> (ProgramHeader option \<times> ProgramHeaderIterator) res" where
  "program_header_next it =
     (if phi_index it < phi_size it then
        bind_r (bind_r (raw_bytes (phi_data it) (phi_base it + size_of_ProgramHeader * phi_index it) size_of_ProgramHeader)
          program_header_at) (\<lambda>res.
          Inr (Some res, it\<lparr>phi_index := phi_index it + 1\<rparr>))
      else Inr (None, it))"

definition segment :: "u8 list \<Rightarrow> ProgramHeader \<Rightarrow> u8 list option res" where
  "segment data h =
     (if 0 < segment_file_size h then
        bind_r (chk 64 (p_offset h + segment_file_size h)) (\<lambda>e.
        bind_r (slice_r data (p_offset h) e) (\<lambda>s. Inr (Some s)))
      else Inr None)"

interpretation phdrs: indexed_iterator program_header_next phi_index phi_size
  "\<lambda>it i. bind_r (raw_bytes (phi_data it) (phi_base it + size_of_ProgramHeader * i) size_of_ProgramHeader) program_header_at"
  "\<lambda>it. it\<lparr>phi_index := phi_index it + 1\<rparr>"
  by unfold_locales (simp_all add: program_header_next_def)

text \<open>\<open>for pheader in elf.progam_headers()\<close>: the table entries in order. The count bounds the calls of \<open>next\<close>.\<close>

definition all_program_headers :: "u8 list \<Rightarrow> ProgramHeader list option res" where
  "all_program_headers data =
     bind_r (progam_headers data) (\<lambda>it. drain program_header_next (Suc (phi_size it)) it)"

section \<open>The layout of the specification\<close>

definition encode_header :: "Header \<Rightarrow> u8 list" where
  "encode_header h =
     le_bytes 4 (ident h) @ le_bytes 1 (bit_size_as_u8 (bits h)) @ le_bytes 1 (endianess_as_u8 (endianess h))
       @ le_bytes 1 (abi h) @ le_bytes 1 (header_version h) @ le_bytes 8 (h_reserved h)
       @ le_bytes 2 (file_type_as_u16 (elf_type h)) @ le_bytes 2 (machine_as_u16 (machine h)) @ le_bytes 4 (version h)
       @ le_bytes 8 (entry h) @ le_bytes 8 (prg_header_tbl h) @ le_bytes 8 (sec_header_tbl h) @ le_bytes 4 (h_flags h)
       @ le_bytes 2 (header_size h) @ le_bytes 2 (prg_entry_size h) @ le_bytes 2 (prg_entry_count h)
       @ le_bytes 2 (sec_entry_size h) @ le_bytes 2 (sec_entry_count h) @ le_bytes 2 (sec_str_index h)"

definition encode_program_header :: "ProgramHeader \<Rightarrow> u8 list" where
  "encode_program_header p =
     le_bytes 4 (segment_type_as_u32 (segement_type p)) @ le_bytes 4 (p_flags p) @ le_bytes 8 (p_offset p)
       @ le_bytes 8 (p_virtual_address p) @ le_bytes 8 (p_reserved p) @ le_bytes 8 (segment_file_size p)
       @ le_bytes 8 (segment_mem_size p) @ le_bytes 8 (p_align p)"

text \<open>The fields fit their widths: what makes a record a value of the Rust type.\<close>

definition header_wf :: "Header \<Rightarrow> bool" where
  "header_wf h \<longleftrightarrow>
     ident h < 2 ^ 32 \<and> abi h < 2 ^ 8 \<and> header_version h < 2 ^ 8 \<and> h_reserved h < 2 ^ 64 \<and> version h < 2 ^ 32
     \<and> entry h < 2 ^ 64 \<and> prg_header_tbl h < 2 ^ 64 \<and> sec_header_tbl h < 2 ^ 64 \<and> h_flags h < 2 ^ 32
     \<and> header_size h < 2 ^ 16 \<and> prg_entry_size h < 2 ^ 16 \<and> prg_entry_count h < 2 ^ 16
     \<and> sec_entry_size h < 2 ^ 16 \<and> sec_entry_count h < 2 ^ 16 \<and> sec_str_index h < 2 ^ 16"

definition program_header_wf :: "ProgramHeader \<Rightarrow> bool" where
  "program_header_wf p \<longleftrightarrow>
     p_flags p < 2 ^ 32 \<and> p_offset p < 2 ^ 64 \<and> p_virtual_address p < 2 ^ 64 \<and> p_reserved p < 2 ^ 64
     \<and> segment_file_size p < 2 ^ 64 \<and> segment_mem_size p < 2 ^ 64 \<and> p_align p < 2 ^ 64"

section \<open>Correctness\<close>

lemma le_val_bound: "le_val xs < 256 ^ length xs"
proof (induction xs)
  case (Cons x xs)
  have "unat x < 256" using unsigned_less [of x] by simp
  with Cons show ?case by simp
qed simp

lemma field_bound: "field b p n < 256 ^ n"
proof -
  have "length (bytes_at b p n) \<le> n" by (simp add: bytes_at_def)
  then have "256 ^ length (bytes_at b p n) \<le> (256 :: nat) ^ n" by (intro power_increasing) simp_all
  with le_val_bound [of "bytes_at b p n"] show ?thesis unfolding field_def by linarith
qed

lemma field_bounds:
  "field x p (Suc 0) < 256" "field x p 2 < 65536" "field x p 4 < 4294967296" "field x p 8 < 18446744073709551616"
  using field_bound [of x p 1] field_bound [of x p 2] field_bound [of x p 4] field_bound [of x p 8] by simp_all

lemma struct_wf:
  "header_at b = Inr h \<Longrightarrow> header_wf h"
  "program_header_at b = Inr p \<Longrightarrow> program_header_wf p"
  by (auto simp: header_at_def header_wf_def program_header_at_def program_header_wf_def field_bounds dest!: sym [of _ h] sym [of _ p])

lemma discriminants:
  "bit_size_of (bit_size_as_u8 b) = Inr b" "endianess_of (endianess_as_u8 e) = Inr e"
  "file_type_of (file_type_as_u16 f) = Inr f" "machine_of (machine_as_u16 m) = Inr m"
  "segment_type_of (segment_type_as_u32 s) = Inr s"
      apply (cases b; simp add: bit_size_of_def of_discriminant_def)
     apply (cases e; simp add: endianess_of_def of_discriminant_def)
    apply (cases f; simp add: file_type_of_def of_discriminant_def)
   apply (cases m; simp add: machine_of_def of_discriminant_def)
  apply (cases s; simp add: segment_type_of_def of_discriminant_def)
  done

lemma discriminant_bounds:
  "bit_size_as_u8 b < 256" "endianess_as_u8 e < 256" "file_type_as_u16 f < 65536" "machine_as_u16 m < 65536"
  "segment_type_as_u32 s < 4294967296"
  by (cases b; simp; fail | cases e; simp; fail | cases f; simp; fail | cases m; simp; fail | cases s; simp)+

lemma encode_lengths: "length (encode_header h) = 64" "length (encode_program_header p) = 56"
  by (simp_all add: encode_header_def encode_program_header_def)

lemma header_at_encode: "header_wf h \<Longrightarrow> header_at (encode_header h) = Inr h"
  by (simp add: header_at_def encode_header_def field_def le_val_le_bytes discriminants discriminant_bounds header_wf_def)

lemma program_header_at_encode: "program_header_wf p \<Longrightarrow> program_header_at (encode_program_header p) = Inr p"
  by (simp add: program_header_at_def encode_program_header_def field_def le_val_le_bytes discriminants discriminant_bounds
      program_header_wf_def)

lemma elf_layout_read:
  assumes "header_wf h" "\<forall>p \<in> set ps. program_header_wf p" "prg_header_tbl h = 64 + length gap"
    and "prg_entry_count h = length ps" "prg_entry_size h = 56" "ps \<noteq> [] \<or> rest \<noteq> []"
    and "data = encode_header h @ gap @ concat (map encode_program_header ps) @ rest"
  shows "elf_header data = Inr h \<and> all_program_headers data = Inr (Some ps)"
proof -
  have len: "64 + length gap < length data"
    using assms(6) encode_lengths unfolding assms(7) by (cases ps) auto
  have h: "elf_header data = Inr h"
    using len raw_bytes_mid [of "[]" "encode_header h"] header_at_encode [OF assms(1)]
    by (simp add: elf_header_def assms(7) encode_lengths index_r_def)
  let ?it = "\<lparr>phi_data = data, phi_base = 64 + length gap, phi_index = 0, phi_size = length ps\<rparr>"
  have it: "progam_headers data = Inr ?it"
    using len by (simp add: progam_headers_def h assms(3-5) size_of_ProgramHeader_def index_r_def)
  have "bind_r (raw_bytes data (64 + length gap + size_of_ProgramHeader * i) size_of_ProgramHeader) program_header_at
      = Inr (ps ! i)" if "i < length ps" for i
  proof -
    have "raw_bytes data (64 + length gap + 56 * i) 56 = Inr (map encode_program_header ps ! i)"
      using raw_bytes_table [of i "map encode_program_header ps" 56 "encode_header h @ gap" rest] that
        encode_lengths(2)
      by (fastforce simp: assms(7) encode_lengths(1))
    then show ?thesis
      using that assms(2) by (simp add: size_of_ProgramHeader_def program_header_at_encode)
  qed
  then have "drain program_header_next (Suc (length ps)) ?it = Inr (Some (map (\<lambda>i. ps ! i) [0..<length ps]))"
    by (subst phdrs.drain_pure [where g = "\<lambda>i. ps ! i"]) simp_all
  then show ?thesis using h it by (simp add: all_program_headers_def map_nth del: drain.simps)
qed

text \<open>
  C21: reading a file laid out as the ELF specification says (header, program header table at the announced
  offset) gives back exactly the header and the program headers, in order, and the loop over them ends.
\<close>
theorem elf_roundtrip:
  assumes "header_wf h" "\<forall>p \<in> set ps. program_header_wf p" "prg_header_tbl h = 64 + length gap"
    and "prg_entry_count h = length ps" "prg_entry_size h = 56" "ps \<noteq> [] \<or> rest \<noteq> []"
    and "data = encode_header h @ gap @ concat (map encode_program_header ps) @ rest"
  shows "elf_header data = Inr h \<and> all_program_headers data = Inr (Some ps)"
  using assms by (rule elf_layout_read)


text \<open>
  The enum \<open>SegmentType\<close> only has the types 0 to 6, so a file whose table has an entry of any other type
  (\<open>PT_TLS\<close>, \<open>PT_GNU_STACK\<close>) makes the loop over the program headers undefined, although such files are
  ordinary.
\<close>
theorem elf_unknown_segment_undefined:
  assumes "elf_header data = Inr h" "prg_header_tbl h < length data" "prg_entry_size h = 56"
    and "prg_header_tbl h + 56 * prg_entry_count h \<le> length data"
    and "i < prg_entry_count h" "6 < field data (prg_header_tbl h + 56 * i) 4"
  shows "all_program_headers data = Inl UndefinedBehaviour"
proof -
  let ?it = "\<lparr>phi_data = data, phi_base = prg_header_tbl h, phi_index = 0, phi_size = prg_entry_count h\<rparr>"
  let ?item = "\<lambda>i. bind_r (raw_bytes data (prg_header_tbl h + size_of_ProgramHeader * i) size_of_ProgramHeader) program_header_at"
  have it: "progam_headers data = Inr ?it"
    using assms by (simp add: progam_headers_def size_of_ProgramHeader_def index_r_def)
  have s: "segment_type_of n = Inl UndefinedBehaviour" if "6 < n" for n
    using that by (simp add: segment_type_of_def of_discriminant_def)
  have "field (bytes_at data q 56) 0 4 = field data q 4" for q by (simp add: field_def bytes_at_def)
  then have bad: "?item i = Inl UndefinedBehaviour"
    using assms(4-6) s by (simp add: raw_bytes_def size_of_ProgramHeader_def program_header_at_def)
  have "?item j = Inl UndefinedBehaviour \<or> (\<exists>x. ?item j = Inr x)" if "j < prg_entry_count h" for j
    using that assms(4) s
    by (simp add: raw_bytes_def size_of_ProgramHeader_def program_header_at_def segment_type_of_def of_discriminant_def
        split: option.splits)
  then have "map_r ?item [0..<prg_entry_count h] = Inl UndefinedBehaviour"
    using bad assms(5) by (intro map_r_Inl [of _ i]) auto
  then show ?thesis
    using phdrs.drain_items [of ?it "Suc (prg_entry_count h)"] it by (simp add: all_program_headers_def del: drain.simps)
qed

section \<open>Witnesses\<close>

definition sample_elf_header :: Header where
  "sample_elf_header =
     \<lparr>ident = 0x464c457f, bits = X64, endianess = Little, abi = 0, header_version = 1, h_reserved = 0,
      elf_type = Executable, machine = Amd64, version = 1, entry = 0x401000, prg_header_tbl = 64, sec_header_tbl = 0,
      h_flags = 0, header_size = 64, prg_entry_size = 56, prg_entry_count = 1, sec_entry_size = 0, sec_entry_count = 0,
      sec_str_index = 0\<rparr>"

definition sample_segment :: ProgramHeader where
  "sample_segment =
     \<lparr>segement_type = Load, p_flags = 5, p_offset = 120, p_virtual_address = 0x401000, p_reserved = 0x401000,
      segment_file_size = 2, segment_mem_size = 2, p_align = 4096\<rparr>"

definition sample_elf :: "u8 list" where
  "sample_elf = encode_header sample_elf_header @ encode_program_header sample_segment @ [0xf4, 0xc3]"

lemma sample_elf_wf: "header_wf sample_elf_header" "program_header_wf sample_segment"
  by (simp_all add: sample_elf_header_def sample_segment_def header_wf_def program_header_wf_def)

theorem elf_roundtrip_witness:
  "elf_header sample_elf = Inr sample_elf_header \<and> all_program_headers sample_elf = Inr (Some [sample_segment])"
  by (rule elf_roundtrip [where gap = "[]" and rest = "[0xf4, 0xc3]"])
    (use sample_elf_wf in \<open>simp_all add: sample_elf_def sample_elf_header_def\<close>)


theorem elf_unknown_segment_undefined_witness:
  "all_program_headers (encode_header sample_elf_header @ le_bytes 4 0x6474e551 @ replicate 52 0) = Inl UndefinedBehaviour"
proof (rule elf_unknown_segment_undefined [where i = 0])
  let ?d = "encode_header sample_elf_header @ le_bytes 4 0x6474e551 @ replicate 52 0"
  show "elf_header ?d = Inr sample_elf_header"
    using header_at_encode [OF sample_elf_wf(1)] raw_bytes_mid [of "[]" "encode_header sample_elf_header"]
    by (simp add: elf_header_def encode_lengths index_r_def)
qed (simp_all add: sample_elf_header_def encode_lengths field_def le_val_le_bytes)

end
