(* ===== verification/Process.thy ===== *)
theory Process
  imports Heap Elf
begin

text \<open>
  \<open>kernel_api/common/src/process.rs\<close>: building the address space of a process from an ELF file.

  \<open>kernel_from_elf\<close> (run by the loader for the kernel) and \<open>from_elf\<close> (run by the kernel for a driver) are sequences
  of the phases below. The crate \<open>x86_64\<close> is the parameter \<open>paging\<close>: the current page tables (\<open>cur_map\<close>), the new
  one through \<open>OffsetPageTable\<close> with 4 KiB pages (\<open>new_map\<close>) and with 1 GiB pages (\<open>huge_map\<close>), and the frame
  allocator the caller passes, all acting on one state \<open>'t\<close>. \<open>paging_ok\<close> is their documented behaviour. The physical
  memory the segments are copied to is a function from addresses to bytes; the current tables map it
  identically, which is what the code's \<open>identity_map\<close> before each copy is for.
\<close>

section \<open>The environment\<close>

record ('p, 'f, 'q, 'g, 't) paging =
  cur_map :: "('p, 'f, 't) mapper"
  new_map :: "('p, 'f, 't) mapper"
  huge_map :: "('q, 'g, 't) mapper"
  huge_start :: "'g \<Rightarrow> nat"
  huge_page :: "nat \<Rightarrow> 'q res"
  alloc_frame :: "'t \<Rightarrow> ('f option \<times> 't) res"
  frame_addr :: "'f \<Rightarrow> nat"

definition keeps_cur :: "('p, 'f, 'q, 'g, 't) paging \<Rightarrow> 't \<Rightarrow> 't \<Rightarrow> bool" where
  "keeps_cur pg t t' \<longleftrightarrow> translate_page (cur_map pg) t' = translate_page (cur_map pg) t"

definition keeps_new :: "('p, 'f, 'q, 'g, 't) paging \<Rightarrow> 't \<Rightarrow> 't \<Rightarrow> bool" where
  "keeps_new pg t t' \<longleftrightarrow> translate_page (new_map pg) t' = translate_page (new_map pg) t"

definition paging_ok :: "('p, 'f, 'q, 'g, 't) paging \<Rightarrow> bool" where
  "paging_ok pg \<longleftrightarrow>
     mapper_ok (cur_map pg) \<and> mapper_ok (new_map pg)
   \<and> (\<forall>p f fl t r t'. map_to (cur_map pg) p f fl t = Inr (r, t') \<longrightarrow> keeps_new pg t t')
   \<and> (\<forall>p f fl t r t'. map_to (new_map pg) p f fl t = Inr (r, t') \<longrightarrow> keeps_cur pg t t')
   \<and> (\<forall>p f fl t r t'. map_to (huge_map pg) p f fl t = Inr (r, t') \<longrightarrow> keeps_cur pg t t' \<and> keeps_new pg t t')
   \<and> (\<forall>t r t'. alloc_frame pg t = Inr (r, t') \<longrightarrow> keeps_cur pg t t' \<and> keeps_new pg t t')
   \<and> (\<forall>p f fl t g t'. map_to (new_map pg) p f fl t = Inr (Inl (PageAlreadyMapped g), t')
        \<longrightarrow> translate_page (new_map pg) t p \<noteq> None)
   \<and> (\<forall>a b ps. page_range (new_map pg) a b = Inr ps \<longrightarrow> length ps = b div 4096 + 1 - a div 4096 \<and> distinct ps)"

text \<open>
  Frames handed out are fresh: \<open>free\<close> bounds the frames the allocator may still hand out, the tables only take from it,
  and distinct frames are disjoint pages of memory.
\<close>

definition frames_fresh :: "('p, 'f, 'q, 'g, 't) paging \<Rightarrow> ('t \<Rightarrow> 'f set) \<Rightarrow> bool" where
  "frames_fresh pg free \<longleftrightarrow>
     (\<forall>t f t'. alloc_frame pg t = Inr (Some f, t') \<longrightarrow> f \<in> free t \<and> free t' \<subseteq> free t - {f})
   \<and> (\<forall>p f fl t r t'. map_to (cur_map pg) p f fl t = Inr (r, t') \<longrightarrow> free t' \<subseteq> free t)
   \<and> (\<forall>p f fl t r t'. map_to (new_map pg) p f fl t = Inr (r, t') \<longrightarrow> free t' \<subseteq> free t)
   \<and> (\<forall>f. frame_addr pg f mod 4096 = 0) \<and> inj (frame_addr pg)"

section \<open>Phases\<close>

text \<open>\<open>Result::expect\<close> on a mapping operation; the flush token is dropped.\<close>

definition expect_map :: "string \<Rightarrow> ((map_to_error + unit) \<times> 't) res \<Rightarrow> 't res" where
  "expect_map msg r = bind_r r (\<lambda>(x, t). case x of Inr _ \<Rightarrow> Inr t | Inl _ \<Rightarrow> Inl (Panic (ExplicitPanic msg)))"

definition expect_frame :: "string \<Rightarrow> ('f option \<times> 't) res \<Rightarrow> ('f \<times> 't) res" where
  "expect_frame msg r = bind_r r (\<lambda>(x, t). case x of Some f \<Rightarrow> Inr (f, t) | None \<Rightarrow> Inl (Panic (ExplicitPanic msg)))"

definition get_stack :: "('p, 'f, 'q, 'g, 't) paging \<Rightarrow> 'p list res" where
  "get_stack pg = page_range (new_map pg) (PROCESS_STACK_ADDRESS - size_mb 1) PROCESS_STACK_ADDRESS"

definition map_physical :: "('p, 'f, 'q, 'g, 't) paging \<Rightarrow> nat \<Rightarrow> 't \<Rightarrow> 't res" where
  "map_physical pg mem t =
     bind_r (frame_range (huge_map pg) 0 mem) (\<lambda>phys_frames.
       fold_r (\<lambda>frame t.
         bind_r (huge_page pg (PAGE_TABLE_OFFSET + huge_start pg frame)) (\<lambda>page.
           expect_map ''Unable to identity map!'' (map_to (huge_map pg) page frame {PRESENT, WRITABLE} t))) phys_frames t)"

definition map_stack_page :: "('p, 'f, 'q, 'g, 't) paging \<Rightarrow> 'p \<Rightarrow> 't \<Rightarrow> 't res" where
  "map_stack_page pg page t =
     bind_r (expect_frame ''Unable to allocate page for process stack!'' (alloc_frame pg t)) (\<lambda>(stack_frame, t1).
       expect_map ''Unable to map page for process stack!''
         (map_to (new_map pg) page stack_frame {PRESENT, WRITABLE, USER_ACCESSIBLE} t1))"

definition map_stack :: "('p, 'f, 'q, 'g, 't) paging \<Rightarrow> 't \<Rightarrow> 't res" where
  "map_stack pg t = bind_r (get_stack pg) (\<lambda>stack_pages. fold_r (map_stack_page pg) stack_pages t)"

definition identity_map_frames :: "('p, 'f, 'q, 'g, 't) paging \<Rightarrow> page_flag set \<Rightarrow> 'f list \<Rightarrow> 't \<Rightarrow> 't res" where
  "identity_map_frames pg flags frames t =
     fold_r (\<lambda>frame t. expect_map ''Unable to identity map!'' (identity_map (new_map pg) frame flags t)) frames t"

definition map_kernel_code :: "('p, 'f, 'q, 'g, 't) paging \<Rightarrow> MemoryDescriptor list \<Rightarrow> 't \<Rightarrow> 't res" where
  "map_kernel_code pg descriptors t =
     (case find (\<lambda>d. memory_type d = LoaderCode) descriptors of
        None \<Rightarrow> Inl (Panic (ExplicitPanic ''Unable to find loader code!''))
      | Some d \<Rightarrow>
          bind_r (chk 64 (page_count d * 4096)) (\<lambda>b.
          bind_r (chk 64 (physical_address d + b)) (\<lambda>e.
          bind_r (frame_range (new_map pg) (physical_address d) e) (\<lambda>kernel_code_frames.
            identity_map_frames pg {USER_ACCESSIBLE, PRESENT, WRITABLE} kernel_code_frames t))))"

definition map_kernel_stack :: "('p, 'f, 'q, 'g, 't) paging \<Rightarrow> nat \<Rightarrow> nat \<Rightarrow> 't \<Rightarrow> 't res" where
  "map_kernel_stack pg kernel_stack_start kernel_stack_end t =
     bind_r (frame_range (new_map pg) kernel_stack_end kernel_stack_start) (\<lambda>kernel_stack_frames.
       identity_map_frames pg {PRESENT, WRITABLE} kernel_stack_frames t)"

definition map_apic :: "('p, 'f, 'q, 'g, 't) paging \<Rightarrow> 't \<Rightarrow> 't res" where
  "map_apic pg t =
     bind_r (frame_containing (new_map pg) 0xFEE00000) (\<lambda>frame.
       expect_map ''Unable to map apic regs for process!'' (identity_map (new_map pg) frame {PRESENT, WRITABLE} t))"

text \<open>The pages of a segment: from its address to its end, inclusive.\<close>

definition segment_pages :: "('p, 'f, 'q, 'g, 't) paging \<Rightarrow> ProgramHeader \<Rightarrow> 'p list res" where
  "segment_pages pg h =
     bind_r (chk 64 (p_virtual_address h + segment_mem_size h)) (\<lambda>e.
       page_range (new_map pg) (p_virtual_address h) e)"

text \<open>\<open>copy_from_slice\<close> into the memory at an address.\<close>

definition store :: "nat \<Rightarrow> u8 list \<Rightarrow> memory \<Rightarrow> memory" where
  "store a bs m = (\<lambda>x. if a \<le> x \<and> x < a + length bs then bs ! (x - a) else m x)"

text \<open>What is done with the result of mapping a page of a segment: the loader drops it, the kernel looks at it.\<close>

definition ignore_map_result :: "(map_to_error + unit) \<Rightarrow> unit res" where
  "ignore_map_result r = Inr ()"

definition check_map_result :: "(map_to_error + unit) \<Rightarrow> unit res" where
  "check_map_result r =
     (case r of
        Inr _ \<Rightarrow> Inr ()
      | Inl (PageAlreadyMapped _) \<Rightarrow> Inr ()
      | Inl _ \<Rightarrow> Inl (Panic (ExplicitPanic ''Unable to map frame!'')))"

definition load_page ::
    "('p, 'f, 'q, 'g, 't) paging \<Rightarrow> ((map_to_error + unit) \<Rightarrow> unit res) \<Rightarrow> ProgramHeader \<Rightarrow> u8 list
       \<Rightarrow> 'p \<Rightarrow> 't \<times> memory \<times> nat \<Rightarrow> ('t \<times> memory \<times> nat) res" where
  "load_page pg on_result h data page s =
     (case s of (t, ram, file_size) \<Rightarrow>
      bind_r (expect_frame ''Unable to allocate physical frame for elf process!'' (alloc_frame pg t)) (\<lambda>(frame, t1).
      bind_r (identity_map (cur_map pg) frame {WRITABLE, PRESENT} t1) (\<lambda>(_, t2).
      let frame_start = frame_addr pg frame + (p_virtual_address h - p_virtual_address h div 4096 * 4096);
          n = min file_size 4096;
          offset = segment_file_size h - file_size
      in
      bind_r (slice_r data offset (offset + n)) (\<lambda>chunk.
      bind_r (map_to (new_map pg) page frame {WRITABLE, USER_ACCESSIBLE, PRESENT} t2) (\<lambda>(r, t3).
      bind_r (on_result r) (\<lambda>_.
        Inr (t3, store frame_start chunk ram, if 4096 < file_size then file_size - 4096 else file_size)))))))"

definition load_segment ::
    "('p, 'f, 'q, 'g, 't) paging \<Rightarrow> ((map_to_error + unit) \<Rightarrow> unit res) \<Rightarrow> u8 list
       \<Rightarrow> ProgramHeader \<Rightarrow> 't \<times> memory \<Rightarrow> ('t \<times> memory) res" where
  "load_segment pg on_result elf h s =
     (if segement_type h = Load then
        bind_r (segment_pages pg h) (\<lambda>pages.
        bind_r (segment elf h) (\<lambda>data.
          case data of
            None \<Rightarrow> Inr s
          | Some d \<Rightarrow>
              bind_r (fold_r (load_page pg on_result h d) pages (fst s, snd s, segment_file_size h))
                (\<lambda>(t, ram, _). Inr (t, ram))))
      else Inr s)"

text \<open>\<open>for pheader in elf.progam_headers()\<close>.\<close>

definition for_program_headers :: "u8 list \<Rightarrow> (ProgramHeader \<Rightarrow> 's \<Rightarrow> 's res) \<Rightarrow> 's \<Rightarrow> 's res" where
  "for_program_headers elf body s =
     bind_r (progam_headers elf) (\<lambda>it. for_iter program_header_next (Suc (phi_size it)) body it s)"

definition share_page :: "('p, 'f, 'q, 'g, 't) paging \<Rightarrow> 'p \<Rightarrow> 't \<Rightarrow> 't res" where
  "share_page pg page t =
     (case translate_page (cur_map pg) t page of
        Some frame \<Rightarrow>
          bind_r (map_to (new_map pg) page frame {PRESENT, WRITABLE} t) (\<lambda>(r, t1).
            case r of Inr _ \<Rightarrow> Inr t1 | Inl _ \<Rightarrow> Inl (Panic UnwrapNone))
      | None \<Rightarrow> Inl (Panic (ExplicitPanic ''Unable to map kernel pages!'')))"

definition share_segment :: "('p, 'f, 'q, 'g, 't) paging \<Rightarrow> ProgramHeader \<Rightarrow> 't \<Rightarrow> 't res" where
  "share_segment pg h t =
     (if segement_type h = Load then bind_r (segment_pages pg h) (\<lambda>pages. fold_r (share_page pg) pages t)
      else Inr t)"

section \<open>Processes\<close>

text \<open>The page table of a process is the \<open>new_map\<close> side of the state.\<close>

record Process =
  process_id :: nat
  stack_base :: nat
  process_entry :: nat

text \<open>\<open>IDINDEX.load\<close> followed by \<open>IDINDEX.store\<close> of the same value.\<close>

definition take_id :: "nat \<Rightarrow> nat \<times> nat" where
  "take_id IDINDEX = (let id = IDINDEX; IDINDEX = id in (id, IDINDEX))"

text \<open>The loop of \<open>kernel_from_elf\<close> is the one of \<open>from_elf\<close>, except that it ignores the result of mapping a page.\<close>

definition kernel_load_segments ::
    "('p, 'f, 'q, 'g, 't) paging \<Rightarrow> u8 list \<Rightarrow> 't \<times> memory \<Rightarrow> ('t \<times> memory) res" where
  "kernel_load_segments pg elf s = for_program_headers elf (load_segment pg ignore_map_result elf) s"

definition kernel_from_elf ::
    "('p, 'f, 'q, 'g, 't) paging \<Rightarrow> MemoryDescriptor list \<Rightarrow> u8 list \<Rightarrow> nat \<Rightarrow> nat \<Rightarrow> nat
       \<Rightarrow> 't \<times> memory \<times> nat \<Rightarrow> (Process \<times> 't \<times> memory \<times> nat) res" where
  "kernel_from_elf pg descriptors elf kernel_stack_start kernel_stack_end mem s =
     (case s of (t, ram, idindex) \<Rightarrow>
      bind_r (map_physical pg mem t) (\<lambda>t.
      bind_r (map_stack pg t) (\<lambda>t.
      bind_r (map_kernel_code pg descriptors t) (\<lambda>t.
      bind_r (map_kernel_stack pg kernel_stack_start kernel_stack_end t) (\<lambda>t.
      bind_r (map_apic pg t) (\<lambda>t.
      bind_r (elf_header elf) (\<lambda>header.
      bind_r (kernel_load_segments pg elf (t, ram)) (\<lambda>(t, ram).
      let (id, idindex) = take_id idindex in
        Inr (\<lparr>process_id = id, stack_base = PROCESS_STACK_ADDRESS, process_entry = entry header\<rparr>, t, ram, idindex)))))))))"

definition from_elf ::
    "('p, 'f, 'q, 'g, 't) paging \<Rightarrow> u8 list \<Rightarrow> u8 list \<Rightarrow> nat \<Rightarrow> nat \<Rightarrow> nat
       \<Rightarrow> 't \<times> memory \<times> nat \<Rightarrow> (Process \<times> 't \<times> memory \<times> nat) res" where
  "from_elf pg elf kernel_elf kernel_stack_start kernel_stack_end mem s =
     (case s of (t, ram, idindex) \<Rightarrow>
      bind_r (map_physical pg mem t) (\<lambda>t.
      bind_r (map_stack pg t) (\<lambda>t.
      bind_r (map_kernel_stack pg kernel_stack_start kernel_stack_end t) (\<lambda>t.
      bind_r (elf_header kernel_elf) (\<lambda>_.
      bind_r (for_program_headers kernel_elf (share_segment pg) t) (\<lambda>t.
      bind_r (elf_header elf) (\<lambda>header.
      bind_r (for_program_headers elf (load_segment pg check_map_result elf) (t, ram)) (\<lambda>(t, ram).
      let (id, idindex) = take_id idindex in
        Inr (\<lparr>process_id = id, stack_base = PROCESS_STACK_ADDRESS, process_entry = entry header\<rparr>, t, ram, idindex)))))))))"

section \<open>What the phases do to the tables\<close>

text \<open>Mappings are only ever added to the new table.\<close>

definition extends :: "('p, 'f, 'q, 'g, 't) paging \<Rightarrow> 't \<Rightarrow> 't \<Rightarrow> bool" where
  "extends pg t t' \<longleftrightarrow> (\<forall>p f. translate_page (new_map pg) t p = Some f \<longrightarrow> translate_page (new_map pg) t' p = Some f)"

definition grows :: "('p, 'f, 'q, 'g, 't) paging \<Rightarrow> 't \<Rightarrow> 't \<Rightarrow> bool" where
  "grows pg t t' \<longleftrightarrow> keeps_cur pg t t' \<and> extends pg t t'"

lemma grows_preorder: "grows pg t t" "grows pg t u \<Longrightarrow> grows pg u v \<Longrightarrow> grows pg t v"
  by (auto simp: grows_def keeps_cur_def extends_def)

lemma growsD:
  assumes "grows pg t t'"
  shows "translate_page (cur_map pg) t' = translate_page (cur_map pg) t"
    "translate_page (new_map pg) t p = Some f \<Longrightarrow> translate_page (new_map pg) t' p = Some f"
  using assms by (auto simp: grows_def keeps_cur_def extends_def)

interpretation grows: state_order "grows pg" for pg
  by unfold_locales (fact grows_preorder)+

interpretation extends: state_order "extends pg" for pg
  by unfold_locales (auto simp: extends_def)

lemmas grows_fold = grows.fold_steps

lemma paging_okD:
  assumes "paging_ok pg"
  shows "map_to (cur_map pg) p f fl t = Inr (r, t') \<Longrightarrow> extends pg t t'"
    "map_to (new_map pg) p f fl t = Inr (r, t') \<Longrightarrow> grows pg t t'"
    "map_to (huge_map pg) q g fl t = Inr (r, t') \<Longrightarrow> grows pg t t'"
    "alloc_frame pg t = Inr (x, t') \<Longrightarrow> grows pg t t'"
    "map_to (new_map pg) p f fl t = Inr (Inr u, t') \<Longrightarrow> translate_page (new_map pg) t' p = Some f"
    "identity_map (new_map pg) f fl t = map_to (new_map pg) (identity_page (new_map pg) f) f fl t"
    "identity_map (cur_map pg) f fl t = map_to (cur_map pg) (identity_page (cur_map pg) f) f fl t"
    "map_to (new_map pg) p f fl t = Inr (Inl (PageAlreadyMapped y), t') \<Longrightarrow> translate_page (new_map pg) t p \<noteq> None"
proof -
  note ok = assms [unfolded paging_ok_def mapper_ok_def keeps_new_def]
  show "map_to (cur_map pg) p f fl t = Inr (r, t') \<Longrightarrow> extends pg t t'"
    using ok by (auto simp: extends_def)
  show "map_to (new_map pg) p f fl t = Inr (r, t') \<Longrightarrow> grows pg t t'"
    using ok by (cases r) (auto simp: grows_def extends_def)
  show "map_to (huge_map pg) q g fl t = Inr (r, t') \<Longrightarrow> grows pg t t'"
    using ok by (auto simp: grows_def extends_def)
  show "alloc_frame pg t = Inr (x, t') \<Longrightarrow> grows pg t t'"
    using ok by (auto simp: grows_def extends_def)
  show "map_to (new_map pg) p f fl t = Inr (Inr u, t') \<Longrightarrow> translate_page (new_map pg) t' p = Some f"
    using ok by auto
  show "identity_map (new_map pg) f fl t = map_to (new_map pg) (identity_page (new_map pg) f) f fl t"
    "identity_map (cur_map pg) f fl t = map_to (cur_map pg) (identity_page (cur_map pg) f) f fl t"
    using ok by auto
  show "map_to (new_map pg) p f fl t = Inr (Inl (PageAlreadyMapped y), t') \<Longrightarrow> translate_page (new_map pg) t p \<noteq> None"
    using ok by blast
qed

lemma expect_Inr [simp]:
  "expect_map msg r = Inr t \<longleftrightarrow> r = Inr (Inr (), t)"
  "expect_frame msg x = Inr (f, t) \<longleftrightarrow> x = Inr (Some f, t)"
  by (cases r; cases "fst (projr r)"; auto simp: expect_map_def split: sum.splits)
    (cases x; cases "fst (projr x)"; auto simp: expect_frame_def split: option.splits)

lemma map_physical_grows:
  assumes "paging_ok pg" "map_physical pg mem t = Inr t'"
  shows "grows pg t t'"
proof -
  obtain fs where "fold_r (\<lambda>frame t.
         bind_r (huge_page pg (PAGE_TABLE_OFFSET + huge_start pg frame)) (\<lambda>page.
           expect_map ''Unable to identity map!'' (map_to (huge_map pg) page frame {PRESENT, WRITABLE} t))) fs t = Inr t'"
    using assms(2) by (auto simp: map_physical_def)
  from grows_fold [OF this, of pg] show ?thesis using paging_okD(3) [OF assms(1)] by fastforce
qed

lemma map_stack_grows:
  assumes "paging_ok pg" "map_stack pg t = Inr t'" "get_stack pg = Inr ps"
  shows "grows pg t t' \<and> (\<forall>p \<in> set ps. translate_page (new_map pg) t' p \<noteq> None)"
proof -
  have f: "fold_r (map_stack_page pg) ps t = Inr t'" using assms(2,3) by (simp add: map_stack_def)
  have step: "grows pg a b \<and> translate_page (new_map pg) b p \<noteq> None" if "map_stack_page pg p a = Inr b" for p a b
  proof -
    from that obtain f a1 where s: "alloc_frame pg a = Inr (Some f, a1)"
        "map_to (new_map pg) p f {PRESENT, WRITABLE, USER_ACCESSIBLE} a1 = Inr (Inr (), b)"
      by (auto simp: map_stack_page_def)
    show ?thesis
      using paging_okD(4) [OF assms(1) s(1)] paging_okD(2,5) [OF assms(1) s(2)] grows_preorder(2) [of pg a a1 b] by simp
  qed
  have r: "grows pg t t' \<and> (\<forall>p \<in> set ps. \<exists>a b. grows pg t a \<and> map_stack_page pg p a = Inr b \<and> grows pg b t')"
    by (rule grows_fold [OF f]) (rule step [THEN conjunct1])
  have "translate_page (new_map pg) t' p \<noteq> None" if p: "p \<in> set ps" for p
  proof -
    obtain a b where b: "map_stack_page pg p a = Inr b" "grows pg b t'" using r p by blast
    from step [OF b(1)] growsD(2) [OF b(2)] show ?thesis by auto
  qed
  with r show ?thesis by blast
qed

lemma map_kernel_stack_grows:
  assumes "paging_ok pg" "map_kernel_stack pg a b t = Inr t'"
  shows "grows pg t t'"
proof -
  obtain fs where "fold_r (\<lambda>frame t. expect_map ''Unable to identity map!'' (identity_map (new_map pg) frame {PRESENT, WRITABLE} t)) fs t = Inr t'"
    using assms(2) by (auto simp: map_kernel_stack_def identity_map_frames_def)
  from grows_fold [OF this, of pg] show ?thesis using paging_okD(2,6) [OF assms(1)] by fastforce
qed

lemma for_program_headers_fold:
  assumes "for_program_headers elf body s = Inr s'"
  shows "\<exists>hs. all_program_headers elf = Inr (Some hs) \<and> fold_r body hs s = Inr s'"
proof -
  obtain it where it: "progam_headers elf = Inr it" "for_iter program_header_next (Suc (phi_size it)) body it s = Inr s'"
    using assms by (auto simp: for_program_headers_def)
  let ?item = "\<lambda>i. bind_r (raw_bytes (phi_data it) (phi_base it + size_of_ProgramHeader * i) size_of_ProgramHeader) program_header_at"
  have 0: "phi_size it - phi_index it < Suc (phi_size it)" by simp
  have "fold_r (\<lambda>i s. bind_r (?item i) (\<lambda>x. body x s)) [phi_index it..<phi_size it] s = Inr s'"
    by (rule trans [OF phdrs.for_iter_fold [OF 0, symmetric] it(2)])
  from fold_r_bind [OF this] obtain hs where "map_r ?item [phi_index it..<phi_size it] = Inr hs" "fold_r body hs s = Inr s'"
    by blast
  then show ?thesis using it(1) phdrs.drain_items [OF 0] by (simp add: all_program_headers_def del: drain.simps)
qed

lemma share_page_grows:
  assumes "paging_ok pg" "share_page pg p t = Inr t'"
  shows "grows pg t t' \<and> translate_page (new_map pg) t' p = translate_page (cur_map pg) t p
    \<and> translate_page (cur_map pg) t p \<noteq> None"
proof -
  obtain f where f: "translate_page (cur_map pg) t p = Some f"
      "map_to (new_map pg) p f {PRESENT, WRITABLE} t = Inr (Inr (), t')"
    using assms(2) by (auto simp: share_page_def split: option.splits sum.splits)
  then show ?thesis using paging_okD(2,5) [OF assms(1) f(2)] by simp
qed

lemma share_segment_grows:
  assumes "paging_ok pg" "share_segment pg h t = Inr t'"
  shows "grows pg t t' \<and> (segement_type h = Load \<longrightarrow> (\<exists>ps. segment_pages pg h = Inr ps
    \<and> (\<forall>p \<in> set ps. translate_page (new_map pg) t' p = translate_page (cur_map pg) t p
        \<and> translate_page (cur_map pg) t p \<noteq> None)))"
proof (cases "segement_type h = Load")
  case True
  then obtain ps where ps: "segment_pages pg h = Inr ps" "fold_r (share_page pg) ps t = Inr t'"
    using assms(2) by (auto simp: share_segment_def)
  note r = grows_fold [OF ps(2), of pg]
  have "grows pg t t' \<and> (\<forall>p \<in> set ps. \<exists>a b. grows pg t a \<and> share_page pg p a = Inr b \<and> grows pg b t')"
    using share_page_grows [OF assms(1)] by (intro r) blast
  moreover have "translate_page (new_map pg) t' p = translate_page (cur_map pg) t p \<and> translate_page (cur_map pg) t p \<noteq> None"
    if "grows pg t a" "share_page pg p a = Inr b" "grows pg b t'" for p a b
    using share_page_grows [OF assms(1) that(2)] growsD [OF that(1)] growsD [OF that(3)] by auto
  ultimately show ?thesis using ps(1) by blast
qed (use assms grows_preorder(1) in \<open>auto simp: share_segment_def\<close>)

lemma load_page_extends:
  assumes "paging_ok pg" "load_page pg on_result h d p s = Inr s'"
  shows "extends pg (fst s) (fst s')"
proof -
  obtain t1 t2 f r where s: "alloc_frame pg (fst s) = Inr (Some f, t1)"
      "\<exists>r. identity_map (cur_map pg) f {WRITABLE, PRESENT} t1 = Inr (r, t2)"
      "map_to (new_map pg) p f {WRITABLE, USER_ACCESSIBLE, PRESENT} t2 = Inr (r, fst s')"
    using assms(2) by (cases s) (auto simp: load_page_def Let_def)
  have "extends pg t1 t2" using s(2) paging_okD(1,7) [OF assms(1)] by metis
  with paging_okD(4) [OF assms(1) s(1)] paging_okD(2) [OF assms(1) s(3)] show ?thesis
    by (auto simp: grows_def extends_def)
qed

text \<open>Whatever loading a page keeps, loading the segments keeps.\<close>

context state_order
begin

lemma load_segments_keep:
  assumes "\<And>h d p a b. load_page pg on_result h d p a = Inr b \<Longrightarrow> le (fst a) (fst b)"
    and "fold_r (load_segment pg on_result elf) hs s = Inr s'"
  shows "le (fst s) (fst s')"
proof (rule fold_fst [OF assms(2)])
  fix h a b
  assume l: "load_segment pg on_result elf h a = Inr b"
  have p: "le (fst a) (fst b)" if "fold_r (load_page pg on_result h d) ps a = Inr b" for d ps a b
    by (rule fold_fst [OF that]) (rule assms(1))
  from l show "le (fst a) (fst b)"
    using p [of _ _ "(fst a, snd a, segment_file_size h)"] state_refl
    by (fastforce simp: load_segment_def split: if_splits option.splits)
qed

end

lemma load_segments_extend:
  "paging_ok pg \<Longrightarrow> fold_r (load_segment pg on_result elf) hs s = Inr s' \<Longrightarrow> extends pg (fst s) (fst s')"
  by (rule extends.load_segments_keep [OF load_page_extends])

text \<open>
  C11: the address space \<open>from_elf\<close> builds for a process: when it returns, every page of the stack is mapped,
  every page of the kernel's load segments is mapped to the frame it has in the current address space, and the
  process starts at the entry point of its ELF file with the stack pointer at the top of the stack.
\<close>
theorem process_address_space:
  assumes "paging_ok pg" "from_elf pg elf kernel_elf ks ke mem (t, ram, n) = Inr (P, t', ram', n')"
    and "get_stack pg = Inr stack_pages"
  shows "stack_base P = PROCESS_STACK_ADDRESS \<and> (\<exists>h. elf_header elf = Inr h \<and> process_entry P = entry h)
    \<and> (\<forall>p \<in> set stack_pages. translate_page (new_map pg) t' p \<noteq> None)
    \<and> (\<exists>hs. all_program_headers kernel_elf = Inr (Some hs)
        \<and> (\<forall>h \<in> set hs. segement_type h = Load \<longrightarrow> (\<exists>ps. segment_pages pg h = Inr ps
            \<and> (\<forall>p \<in> set ps. translate_page (cur_map pg) t p \<noteq> None
                \<and> translate_page (new_map pg) t' p = translate_page (cur_map pg) t p))))"
proof -
  obtain t1 t2 t3 t4 h where s: "map_physical pg mem t = Inr t1" "map_stack pg t1 = Inr t2"
      "map_kernel_stack pg ks ke t2 = Inr t3" "for_program_headers kernel_elf (share_segment pg) t3 = Inr t4"
      "elf_header elf = Inr h" "for_program_headers elf (load_segment pg check_map_result elf) (t4, ram) = Inr (t', ram')"
      "P = \<lparr>process_id = n, stack_base = PROCESS_STACK_ADDRESS, process_entry = entry h\<rparr>"
    using assms(2) by (auto simp: from_elf_def take_id_def Let_def)
  have g1: "grows pg t t1" by (rule map_physical_grows [OF assms(1) s(1)])
  note g2 = map_stack_grows [OF assms(1) s(2) assms(3)]
  have g3: "grows pg t2 t3" by (rule map_kernel_stack_grows [OF assms(1) s(3)])
  from for_program_headers_fold [OF s(4)] obtain hs where
    hs: "all_program_headers kernel_elf = Inr (Some hs)" "fold_r (share_segment pg) hs t3 = Inr t4" by blast
  have g4: "grows pg t3 t4 \<and> (\<forall>x \<in> set hs. \<exists>a b. grows pg t3 a \<and> share_segment pg x a = Inr b \<and> grows pg b t4)"
    by (rule grows_fold [OF hs(2)]) (rule share_segment_grows [OF assms(1), THEN conjunct1])
  from for_program_headers_fold [OF s(6)] obtain es where
    es: "fold_r (load_segment pg check_map_result elf) es (t4, ram) = Inr (t', ram')" by blast
  have g5: "extends pg t4 t'" using load_segments_extend [OF assms(1) es] by simp
  have a3: "grows pg t t3" by (rule grows_preorder(2) [OF grows_preorder(2) [OF g1 conjunct1 [OF g2]] g3])
  have kern: "translate_page (cur_map pg) t p \<noteq> None \<and> translate_page (new_map pg) t' p = translate_page (cur_map pg) t p"
    if st: "grows pg t3 a" "grows pg b t4" "translate_page (new_map pg) b p = translate_page (cur_map pg) a p"
      "translate_page (cur_map pg) a p \<noteq> None" for a b p
  proof -
    obtain f where f: "translate_page (cur_map pg) a p = Some f" using st(4) by blast
    then have "translate_page (new_map pg) t' p = Some f"
      using st(3) growsD(2) [OF st(2)] g5 by (simp add: extends_def)
    moreover have "translate_page (cur_map pg) t p = Some f"
      using f growsD(1) [OF a3] growsD(1) [OF st(1)] by simp
    ultimately show ?thesis by simp
  qed
  have "\<exists>ps. segment_pages pg x = Inr ps \<and> (\<forall>p \<in> set ps. translate_page (cur_map pg) t p \<noteq> None
      \<and> translate_page (new_map pg) t' p = translate_page (cur_map pg) t p)" if x: "x \<in> set hs" "segement_type x = Load" for x
  proof -
    obtain a b where ab: "grows pg t3 a" "share_segment pg x a = Inr b" "grows pg b t4" using g4 x(1) by blast
    from share_segment_grows [OF assms(1) ab(2)] x(2) kern [OF ab(1,3)] show ?thesis by blast
  qed
  moreover have "translate_page (new_map pg) t' p \<noteq> None" if p: "p \<in> set stack_pages" for p
  proof -
    obtain f where "translate_page (new_map pg) t2 p = Some f" using g2 p by blast
    then have "translate_page (new_map pg) t4 p = Some f" using growsD(2) [OF g3] g4 growsD(2) [of pg t3 t4] by blast
    then show ?thesis using g5 by (simp add: extends_def)
  qed
  ultimately show ?thesis using s(5,7) hs(1) by auto
qed

section \<open>What the copies put into memory\<close>

text \<open>Which 4096-byte block of the file data goes to the \<open>i\<close>-th page, when \<open>r\<close> bytes are left: the last one repeats.\<close>

definition block :: "nat \<Rightarrow> nat \<Rightarrow> nat" where
  "block r i = min i ((r - 1) div 4096)"

lemma block_0 [simp]: "block r 0 = 0"
  by (simp add: block_def)

lemma block_Suc: "block r (Suc i) = (if 4096 < r then Suc (block (r - 4096) i) else 0)"
proof -
  have "(r - 1) div 4096 = Suc ((r - 4096 - 1) div 4096)" if "4096 < r"
    using that div_add_self1 [of 4096 "r - 4096 - 1"] by simp
  then show ?thesis by (auto simp: block_def)
qed

lemma block_small: "r \<le> 4096 \<Longrightarrow> block r i = 0"
  by (auto simp: block_def)

lemma frames_disjoint:
  assumes "frames_fresh pg free" "f \<noteq> g" "frame_addr pg f \<le> x" "x < frame_addr pg f + 4096"
  shows "\<not> (frame_addr pg g \<le> x \<and> x < frame_addr pg g + 4096)"
proof
  assume g: "frame_addr pg g \<le> x \<and> x < frame_addr pg g + 4096"
  have m: "frame_addr pg f mod 4096 = 0" "frame_addr pg g mod 4096 = 0" "inj (frame_addr pg)"
    using assms(1) by (auto simp: frames_fresh_def)
  then have "frame_addr pg f = x div 4096 * 4096" "frame_addr pg g = x div 4096 * 4096"
    using assms(3,4) g by (auto simp: mod_eq_0_iff_dvd elim!: dvdE)
  then show False using assms(2) injD [OF m(3), of f g] by simp
qed

lemma load_page_step:
  assumes "paging_ok pg" "frames_fresh pg free" "p_virtual_address h mod 4096 = 0" "length d = segment_file_size h"
    and "0 < r" "r \<le> segment_file_size h" "translate_page (new_map pg) t p = None"
    and "load_page pg check_map_result h d p (t, ram, r) = Inr (t', ram', r')"
  shows "r' = (if 4096 < r then r - 4096 else r)
    \<and> (\<exists>f. f \<in> free t \<and> free t' \<subseteq> free t - {f}
        \<and> translate_page (new_map pg) t' = (translate_page (new_map pg) t)(p := Some f)
        \<and> ram' = store (frame_addr pg f) (take (min r 4096) (drop (segment_file_size h - r) d)) ram)"
proof -
  have va: "p_virtual_address h - p_virtual_address h div 4096 * 4096 = 0"
    using assms(3) by (simp add: minus_div_mult_eq_mod)
  from assms(8) obtain f t1 t2 m x where s: "alloc_frame pg t = Inr (Some f, t1)"
      "identity_map (cur_map pg) f {WRITABLE, PRESENT} t1 = Inr (m, t2)"
      "map_to (new_map pg) p f {WRITABLE, USER_ACCESSIBLE, PRESENT} t2 = Inr (x, t')" "check_map_result x = Inr ()"
      "r' = (if 4096 < r then r - 4096 else r)"
      "ram' = store (frame_addr pg f) (take (min r 4096) (drop (segment_file_size h - r) d)) ram"
    by (auto simp: load_page_def Let_def va)
  note ok = assms(1) [unfolded paging_ok_def mapper_ok_def keeps_new_def]
  have tr: "translate_page (new_map pg) t2 = translate_page (new_map pg) t"
    using ok s(1,2) by metis
  have "x = Inr ()"
    using s(3,4) tr assms(7) paging_okD(8) [OF assms(1), of p f _ t2]
    by (cases x) (auto simp: check_map_result_def split: map_to_error.splits)
  then have "translate_page (new_map pg) t' = (translate_page (new_map pg) t)(p := Some f)"
    using ok s(3) tr by metis
  moreover have "f \<in> free t" "free t1 \<subseteq> free t - {f}" "free t2 \<subseteq> free t1" "free t' \<subseteq> free t2"
    using assms(2) s(1-3) paging_okD(7) [OF assms(1)] unfolding frames_fresh_def by metis+
  ultimately show ?thesis using s(5,6) by blast
qed

definition loaded :: "('p, 'f, 'q, 'g, 't) paging \<Rightarrow> ('t \<Rightarrow> 'f set) \<Rightarrow> u8 list \<Rightarrow> 'p list \<Rightarrow> 't \<Rightarrow> memory \<Rightarrow> nat \<Rightarrow> 't \<Rightarrow> memory \<Rightarrow> 'f list \<Rightarrow> bool" where
  "loaded pg free d ps t ram r t' ram' frames \<longleftrightarrow>
     length frames = length ps \<and> distinct frames \<and> set frames \<subseteq> free t
   \<and> (\<forall>i < length ps. translate_page (new_map pg) t' (ps ! i) = Some (frames ! i))
   \<and> (\<forall>p. p \<notin> set ps \<longrightarrow> translate_page (new_map pg) t' p = translate_page (new_map pg) t p)
   \<and> (\<forall>i < length ps. \<forall>k < min 4096 (r - 4096 * block r i).
        ram' (frame_addr pg (frames ! i) + k) = d ! (length d - r + 4096 * block r i + k))
   \<and> (\<forall>x. (\<forall>f \<in> set frames. \<not> (frame_addr pg f \<le> x \<and> x < frame_addr pg f + 4096)) \<longrightarrow> ram' x = ram x)"

lemma loaded_Cons:
  assumes "frames_fresh pg free" "r \<le> length d" "length d = segment_file_size h" "distinct (p # ps)"
    and r1: "n = (if 4096 < r then r - 4096 else r)"
    and f: "f \<in> free t" "free t1 \<subseteq> free t - {f}"
      "translate_page (new_map pg) t1 = (translate_page (new_map pg) t)(p := Some f)"
      "ram1 = store (frame_addr pg f) (take (min r 4096) (drop (segment_file_size h - r) d)) ram"
    and l: "loaded pg free d ps t1 ram1 n t' ram' fs"
  shows "loaded pg free d (p # ps) t ram r t' ram' (f # fs)"
proof -
  note l' = l [unfolded loaded_def]
  have nf: "f \<notin> set fs" using l' f(2) by blast
  have keep: "ram' x = ram1 x" if "frame_addr pg f \<le> x" "x < frame_addr pg f + 4096" for x
  proof -
    have "\<forall>g \<in> set fs. \<not> (frame_addr pg g \<le> x \<and> x < frame_addr pg g + 4096)"
      using nf frames_disjoint [OF assms(1) _ that] by metis
    then show ?thesis using l' by blast
  qed
  have first: "ram' (frame_addr pg f + k) = d ! (length d - r + k)" if "k < min 4096 r" for k
    using that keep [of "frame_addr pg f + k"] f(4) assms(2,3) by (simp add: store_def)
  have later: "ram' (frame_addr pg (fs ! i) + k) = d ! (length d - r + 4096 * block r (Suc i) + k)"
    if i: "i < length ps" "k < min 4096 (r - 4096 * block r (Suc i))" for i k
  proof -
    have "k < min 4096 (n - 4096 * block n i)" "length d - r + 4096 * block r (Suc i) = length d - n + 4096 * block n i"
      using i(2) r1 assms(2) by (auto simp: block_Suc block_small)
    then show ?thesis using l' i(1) by simp
  qed
  show ?thesis
    unfolding loaded_def
  proof (intro conjI allI impI)
    show "length (f # fs) = length (p # ps)" "distinct (f # fs)" "set (f # fs) \<subseteq> free t"
      using l' nf f(1,2) by auto
    show "translate_page (new_map pg) t' ((p # ps) ! i) = Some ((f # fs) ! i)" if "i < length (p # ps)" for i
      using that l' f(3) assms(4) by (cases i) auto
    show "translate_page (new_map pg) t' q = translate_page (new_map pg) t q" if "q \<notin> set (p # ps)" for q
      using that l' f(3) by simp
    show "ram' (frame_addr pg ((f # fs) ! i) + k) = d ! (length d - r + 4096 * block r i + k)"
      if "i < length (p # ps)" "k < min 4096 (r - 4096 * block r i)" for i k
      using that first later by (cases i) auto
    show "ram' x = ram x" if "\<forall>g \<in> set (f # fs). \<not> (frame_addr pg g \<le> x \<and> x < frame_addr pg g + 4096)" for x
      using that l' f(4) by (auto simp: store_def)
  qed
qed

lemma load_pages_loaded:
  assumes "paging_ok pg" "frames_fresh pg free" "p_virtual_address h mod 4096 = 0" "length d = segment_file_size h"
    and "0 < r" "r \<le> length d" "distinct ps" "\<forall>p \<in> set ps. translate_page (new_map pg) t p = None"
    and "fold_r (load_page pg check_map_result h d) ps (t, ram, r) = Inr (t', ram', r')"
  shows "\<exists>frames. loaded pg free d ps t ram r t' ram' frames"
  using assms(5-9)
proof (induction ps arbitrary: t ram r)
  case Nil
  then show ?case by (auto simp: loaded_def)
next
  case (Cons p ps)
  from Cons.prems(5) obtain t1 ram1 r1 where
    s1: "load_page pg check_map_result h d p (t, ram, r) = Inr (t1, ram1, r1)"
    and rest: "fold_r (load_page pg check_map_result h d) ps (t1, ram1, r1) = Inr (t', ram', r')"
    by (cases "load_page pg check_map_result h d p (t, ram, r)") auto
  obtain f where r1: "r1 = (if 4096 < r then r - 4096 else r)"
    and f: "f \<in> free t" "free t1 \<subseteq> free t - {f}"
      "translate_page (new_map pg) t1 = (translate_page (new_map pg) t)(p := Some f)"
      "ram1 = store (frame_addr pg f) (take (min r 4096) (drop (segment_file_size h - r) d)) ram"
    using load_page_step [OF assms(1-4) Cons.prems(1) _ _ s1] Cons.prems(2,4) assms(4) by auto
  have "\<exists>frames. loaded pg free d ps t1 ram1 r1 t' ram' frames"
    using Cons.prems(1-4) r1 f(3) by (intro Cons.IH [OF _ _ _ _ rest]) auto
  then obtain fs where l: "loaded pg free d ps t1 ram1 r1 t' ram' fs" by blast
  have "loaded pg free d (p # ps) t ram r t' ram' (f # fs)"
    by (rule loaded_Cons [OF assms(2) Cons.prems(2) assms(4) Cons.prems(3) r1 f l])
  then show ?case by blast
qed

text \<open>
  C4: a load segment at a page-aligned address whose pages are not mapped yet, with at most its memory size of
  file data: when loading it returns, its pages are mapped to distinct fresh frames, byte \<open>k\<close> of the file
  data is found in the frame of page \<open>k div 4096\<close> at offset \<open>k mod 4096\<close>, no other mapping of the process
  changes, and no byte outside these frames changes.
\<close>
theorem segment_loaded:
  assumes "paging_ok pg" "frames_fresh pg free" "load_segment pg check_map_result elf h (t, ram) = Inr (t', ram')"
    and "segement_type h = Load" "p_virtual_address h mod 4096 = 0" "0 < segment_file_size h"
    and "segment_file_size h \<le> segment_mem_size h" "segment_pages pg h = Inr pages"
    and "\<forall>p \<in> set pages. translate_page (new_map pg) t p = None"
  shows "\<exists>data frames. segment elf h = Inr (Some data) \<and> length data = segment_file_size h
    \<and> length frames = length pages \<and> distinct frames \<and> set frames \<subseteq> free t
    \<and> (\<forall>i < length pages. translate_page (new_map pg) t' (pages ! i) = Some (frames ! i))
    \<and> (\<forall>k < segment_file_size h. k div 4096 < length pages
        \<and> ram' (frame_addr pg (frames ! (k div 4096)) + k mod 4096) = data ! k)
    \<and> (\<forall>p. p \<notin> set pages \<longrightarrow> translate_page (new_map pg) t' p = translate_page (new_map pg) t p)
    \<and> (\<forall>x. (\<forall>f \<in> set frames. \<not> (frame_addr pg f \<le> x \<and> x < frame_addr pg f + 4096)) \<longrightarrow> ram' x = ram x)"
proof -
  let ?fs = "segment_file_size h"
  obtain d r where d: "segment elf h = Inr (Some d)"
      "fold_r (load_page pg check_map_result h d) pages (t, ram, ?fs) = Inr (t', ram', r)"
    using assms(3,4,6,8) by (auto simp: load_segment_def segment_def split: option.splits)
  have l: "length d = ?fs" using d(1) assms(6) by (auto simp: segment_def)
  have n: "length pages = (p_virtual_address h + segment_mem_size h) div 4096 + 1 - p_virtual_address h div 4096"
      "distinct pages"
    using assms(1,8) by (auto simp: segment_pages_def paging_ok_def)
  obtain frames where L: "loaded pg free d pages t ram ?fs t' ram' frames"
    using load_pages_loaded [OF assms(1,2,5) l assms(6) _ n(2) assms(9) d(2)] l by auto
  have len: "length pages = segment_mem_size h div 4096 + 1"
    using n(1) assms(5) by (auto simp: mod_eq_0_iff_dvd elim!: dvdE)
  have "k div 4096 < length pages \<and> ram' (frame_addr pg (frames ! (k div 4096)) + k mod 4096) = d ! k" if k: "k < ?fs" for k
  proof -
    have 1: "k div 4096 < length pages" using k assms(7) len by (simp add: div_le_mono less_Suc_eq_le)
    have "k div 4096 \<le> (?fs - 1) div 4096" using k by (intro div_le_mono) simp
    then have b: "block ?fs (k div 4096) = k div 4096" by (simp add: block_def)
    have "k mod 4096 < min 4096 (?fs - 4096 * (k div 4096))"
      using k by (simp add: minus_mult_div_eq_mod [symmetric] less_diff_iff)
    then have "ram' (frame_addr pg (frames ! (k div 4096)) + k mod 4096) = d ! (4096 * (k div 4096) + k mod 4096)"
      using L 1 l b by (simp add: loaded_def)
    with 1 show ?thesis by simp
  qed
  with d(1) l L show ?thesis unfolding loaded_def by blast
qed

text \<open>
  C39: the pages of a segment behind its file data, which the ELF specification wants zeroed, are filled with a
  copy of the last block of the file data instead.
\<close>
theorem bss_holds_last_block:
  assumes "paging_ok pg" "frames_fresh pg free" "load_segment pg check_map_result elf h (t, ram) = Inr (t', ram')"
    and "segement_type h = Load" "p_virtual_address h mod 4096 = 0" "0 < segment_file_size h"
    and "segment_pages pg h = Inr pages" "\<forall>p \<in> set pages. translate_page (new_map pg) t p = None"
    and "i < length pages" "segment_file_size h \<le> 4096 * i" "q = (segment_file_size h - 1) div 4096"
  shows "\<exists>data f. segment elf h = Inr (Some data) \<and> translate_page (new_map pg) t' (pages ! i) = Some f
    \<and> (\<forall>k < segment_file_size h - 4096 * q. ram' (frame_addr pg f + k) = data ! (4096 * q + k))"
proof -
  let ?fs = "segment_file_size h"
  obtain d r where d: "segment elf h = Inr (Some d)"
      "fold_r (load_page pg check_map_result h d) pages (t, ram, ?fs) = Inr (t', ram', r)"
    using assms(3,4,6,7) by (auto simp: load_segment_def segment_def split: option.splits)
  have l: "length d = ?fs" using d(1) assms(6) by (auto simp: segment_def)
  have "distinct pages" using assms(1,7) by (auto simp: segment_pages_def paging_ok_def)
  then obtain frames where L: "loaded pg free d pages t ram ?fs t' ram' frames"
    using load_pages_loaded [OF assms(1,2,5) l assms(6) _ _ assms(8) d(2)] l by auto
  have "q < i" using assms(6,10,11) by (simp add: div_less_iff_less_mult mult.commute less_eq_div_iff_mult_less_eq)
  then have b: "block ?fs i = q" using assms(11) by (simp add: block_def)
  have "?fs - 4096 * q \<le> 4096"
    using assms(6,11) mod_less_divisor [of 4096 "?fs - 1"] by (simp add: minus_mult_div_eq_mod [symmetric])
  then show ?thesis using L assms(9) l b d(1) by (auto simp: loaded_def)
qed

text \<open>
  When the address is not page-aligned the copy does not stop at the end of the frame: every block but the last one
  runs over into the 4096 bytes behind it.
\<close>

lemma unaligned_copy_overruns:
  assumes "load_page pg on_result h d p (t, ram, r) = Inr (t', ram', r')" "4096 \<le> r"
    and "off = p_virtual_address h mod 4096" "j < off"
  shows "\<exists>f t1. alloc_frame pg t = Inr (Some f, t1)
    \<and> ram' (frame_addr pg f + 4096 + j) = d ! (segment_file_size h - r + (4096 - off + j))"
proof -
  have o: "p_virtual_address h - p_virtual_address h div 4096 * 4096 = off" "off < 4096"
    using assms(3) by (simp_all add: minus_div_mult_eq_mod)
  obtain f t1 where f: "alloc_frame pg t = Inr (Some f, t1)"
      "segment_file_size h - r + min r 4096 \<le> length d"
      "ram' = store (frame_addr pg f + off) (take (min r 4096) (drop (segment_file_size h - r) d)) ram"
    using assms(1) by (auto simp: load_page_def Let_def o(1))
  have "length (take (min r 4096) (drop (segment_file_size h - r) d)) = 4096" using f(2) assms(2) by simp
  then have "ram' (frame_addr pg f + 4096 + j) = take (min r 4096) (drop (segment_file_size h - r) d) ! (4096 - off + j)"
    using f(3) assms(4) o(2) by (simp add: store_def)
  with f(1,2) assms(2,4) o(2) show ?thesis by auto
qed

text \<open>The process identifier is never advanced: every process gets the number the counter started with.\<close>

lemma process_id_unchanged:
  "from_elf pg elf kernel_elf ks ke mem (t, ram, n) = Inr (P, t', ram', n') \<Longrightarrow> process_id P = n \<and> n' = n"
  "kernel_from_elf pg ds elf ks ke mem (t, ram, n) = Inr (P, t', ram', n') \<Longrightarrow> process_id P = n \<and> n' = n"
  by (auto simp: from_elf_def kernel_from_elf_def take_id_def Let_def)

section \<open>Witnesses\<close>

text \<open>Two page tables as finite maps and a counter for the frames handed out.\<close>

record sample_tables =
  cur_tab :: "nat \<Rightarrow> nat option"
  new_tab :: "nat \<Rightarrow> nat option"
  next_frame :: nat

definition sample_mapper ::
    "(sample_tables \<Rightarrow> nat \<Rightarrow> nat option) \<Rightarrow> ((nat \<Rightarrow> nat option) \<Rightarrow> sample_tables \<Rightarrow> sample_tables)
       \<Rightarrow> (nat, nat, sample_tables) mapper" where
  "sample_mapper rd wr =
     \<lparr>map_to = (\<lambda>p f fl w. Inr (case rd w p of
          None \<Rightarrow> (Inr (), wr ((rd w)(p := Some f)) w) | Some g \<Rightarrow> (Inl (PageAlreadyMapped g), w))),
      identity_map = (\<lambda>f fl w. Inr (case rd w f of
          None \<Rightarrow> (Inr (), wr ((rd w)(f := Some f)) w) | Some g \<Rightarrow> (Inl (PageAlreadyMapped g), w))),
      identity_page = id,
      translate_page = rd,
      frame_containing = (\<lambda>a. Inr (a div 4096)),
      frame_range = (\<lambda>a b. Inr [a div 4096..<Suc (b div 4096)]),
      page_range = (\<lambda>a b. Inr [a div 4096..<Suc (b div 4096)])\<rparr>"

definition sample_paging :: "(nat, nat, nat, nat, sample_tables) paging" where
  "sample_paging =
     \<lparr>cur_map = sample_mapper cur_tab (\<lambda>x w. w\<lparr>cur_tab := x\<rparr>), new_map = sample_mapper new_tab (\<lambda>x w. w\<lparr>new_tab := x\<rparr>),
      huge_map = (sample_mapper cur_tab (\<lambda>x w. w))\<lparr>map_to := (\<lambda>p f fl w. Inr (Inr (), w))\<rparr>,
      huge_start = id, huge_page = Inr,
      alloc_frame = (\<lambda>w. Inr (Some (next_frame w), w\<lparr>next_frame := Suc (next_frame w)\<rparr>)),
      frame_addr = (\<lambda>f. 4096 * f)\<rparr>"

definition sample_free :: "sample_tables \<Rightarrow> nat set" where
  "sample_free w = {next_frame w..}"

lemma sample_paging_ok: "paging_ok sample_paging" "frames_fresh sample_paging sample_free"
  by (auto simp: paging_ok_def mapper_ok_def keeps_cur_def keeps_new_def sample_paging_def sample_mapper_def
      frames_fresh_def sample_free_def inj_def split: option.splits)

lemma for_program_headers_eq:
  assumes "all_program_headers elf = Inr (Some hs)"
  shows "for_program_headers elf body s = fold_r body hs s"
proof -
  obtain it where it: "progam_headers elf = Inr it" "drain program_header_next (Suc (phi_size it)) it = Inr (Some hs)"
    using assms by (auto simp: all_program_headers_def simp del: drain.simps)
  have 0: "phi_size it - phi_index it < Suc (phi_size it)" by simp
  let ?item = "\<lambda>i. bind_r (raw_bytes (phi_data it) (phi_base it + size_of_ProgramHeader * i) size_of_ProgramHeader) program_header_at"
  have "map_r ?item [phi_index it..<phi_size it] = Inr hs"
    using it(2) phdrs.drain_items [OF 0] by (auto simp del: drain.simps)
  from trans [OF phdrs.for_iter_fold [OF 0] fold_r_bind_eq [OF this]] show ?thesis
    using it(1) by (simp add: for_program_headers_def del: for_iter.simps)
qed

lemma sample_elf_read: "elf_header sample_elf = Inr sample_elf_header" "all_program_headers sample_elf = Inr (Some [sample_segment])"
  using elf_layout_read [of sample_elf_header "[sample_segment]" "[]" "[0xf4, 0xc3]" sample_elf] sample_elf_wf
  by (simp_all add: sample_elf_def sample_elf_header_def)

lemma sample_stack:
  assumes "distinct ps" "\<forall>p \<in> set ps. new_tab w p = None"
  shows "\<exists>w'. fold_r (map_stack_page sample_paging) ps w = Inr w' \<and> cur_tab w' = cur_tab w
    \<and> (\<forall>p. p \<notin> set ps \<longrightarrow> new_tab w' p = new_tab w p)"
  using assms
proof (induction ps arbitrary: w)
  case (Cons p ps)
  let ?w = "w\<lparr>next_frame := Suc (next_frame w), new_tab := (new_tab w)(p := Some (next_frame w))\<rparr>"
  have "map_stack_page sample_paging p w = Inr ?w"
    using Cons.prems by (simp add: map_stack_page_def sample_paging_def sample_mapper_def expect_map_def expect_frame_def)
  moreover obtain w' where "fold_r (map_stack_page sample_paging) ps ?w = Inr w'" "cur_tab w' = cur_tab ?w"
      "\<forall>q. q \<notin> set ps \<longrightarrow> new_tab w' q = new_tab ?w q"
    using Cons.IH [of ?w] Cons.prems by fastforce
  ultimately show ?case by auto
qed simp

text \<open>The kernel, one page at 0x401000, is mapped in the current tables; the file itself is loaded as the process.\<close>

definition sample_start :: sample_tables where
  "sample_start = \<lparr>cur_tab = [0x401 \<mapsto> 2], new_tab = Map.empty, next_frame = 100\<rparr>"

lemma sample_segment_data: "segment sample_elf sample_segment = Inr (Some [0xf4, 0xc3])"
  by (simp add: segment_def sample_segment_def sample_elf_def chk_def slice_r_def encode_lengths)

lemma sample_segment_pages: "segment_pages sample_paging sample_segment = Inr [0x401]"
  by (simp add: segment_pages_def sample_segment_def sample_paging_def sample_mapper_def chk_def)

lemma sample_from_elf:
  assumes "new_tab w0 = Map.empty" "cur_tab w0 0x401 = Some 2"
  shows "\<exists>P t' ram' n'. from_elf sample_paging sample_elf sample_elf 0 0 mem (w0, m, n) = Inr (P, t', ram', n')"
proof -
  let ?ps = "[1310464..<1310721] :: nat list"
  have st: "get_stack sample_paging = Inr ?ps"
    by (simp add: get_stack_def sample_paging_def sample_mapper_def PROCESS_STACK_ADDRESS_def size_macros)
  obtain w where w: "map_stack sample_paging w0 = Inr w" "cur_tab w = cur_tab w0" "\<forall>p. p \<notin> set ?ps \<longrightarrow> new_tab w p = None"
    using sample_stack [of ?ps w0] st assms by (auto simp: map_stack_def)
  have n: "new_tab w 0 = None" "new_tab w 0x401 = None" using w(3) by auto
  have "fold_r (\<lambda>frame. Inr) xs w0 = Inr w0" for xs :: "nat list" by (induction xs) simp_all
  then have ph: "map_physical sample_paging mem w0 = Inr w0"
    by (simp add: map_physical_def sample_paging_def sample_mapper_def expect_map_def del: upt_Suc)
  let ?w1 = "w\<lparr>new_tab := (new_tab w)(0 \<mapsto> 0)\<rparr>"
  have ks: "map_kernel_stack sample_paging 0 0 w = Inr ?w1"
    using n by (simp add: map_kernel_stack_def identity_map_frames_def sample_paging_def sample_mapper_def expect_map_def)
  let ?w2 = "?w1\<lparr>new_tab := (new_tab ?w1)(0x401 \<mapsto> 2)\<rparr>"
  have "share_page sample_paging 0x401 ?w1 = Inr ?w2"
    using n w(2) assms(2) by (simp add: share_page_def sample_paging_def sample_mapper_def)
  then have sh: "share_segment sample_paging sample_segment ?w1 = Inr ?w2"
    by (simp add: share_segment_def sample_segment_pages) (simp add: sample_segment_def)
  have "\<exists>s. load_page sample_paging check_map_result sample_segment [0xf4, 0xc3] 0x401 (?w2, m, 2) = Inr s"
    by (simp add: load_page_def sample_paging_def sample_mapper_def expect_frame_def sample_segment_def slice_r_def
        check_map_result_def Let_def split: option.splits)
  then obtain t' ram' r where "load_page sample_paging check_map_result sample_segment [0xf4, 0xc3] 0x401 (?w2, m, 2)
      = Inr (t', ram', r)" by (metis prod_cases3)
  then have "load_segment sample_paging check_map_result sample_elf sample_segment (?w2, m) = Inr (t', ram')"
    by (simp add: load_segment_def sample_segment_pages sample_segment_data) (simp add: sample_segment_def)
  then show ?thesis
    using ph w(1) ks sh by (simp add: from_elf_def sample_elf_read for_program_headers_eq take_id_def Let_def)
qed

theorem process_address_space_witness:
  "\<exists>P t' ram' n'. from_elf sample_paging sample_elf sample_elf 0 0 0 (sample_start, \<lambda>_. 0, 0) = Inr (P, t', ram', n')
     \<and> process_entry P = 0x401000 \<and> translate_page (new_map sample_paging) t' 0x401 = Some 2"
proof -
  let ?ps = "[1310464..<1310721] :: nat list"
  have st: "get_stack sample_paging = Inr ?ps"
    by (simp add: get_stack_def sample_paging_def sample_mapper_def PROCESS_STACK_ADDRESS_def size_macros)
  obtain P t' ram' n' where P: "from_elf sample_paging sample_elf sample_elf 0 0 0 (sample_start, \<lambda>_. 0, 0) = Inr (P, t', ram', n')"
    using sample_from_elf [of sample_start 0 "\<lambda>_. 0" 0] by (auto simp: sample_start_def)
  note r = process_address_space [OF sample_paging_ok(1) P st]
  have "\<exists>h. elf_header sample_elf = Inr h \<and> process_entry P = entry h" using r by blast
  then have "process_entry P = 0x401000" by (simp add: sample_elf_read sample_elf_header_def)
  moreover have "\<exists>hs. all_program_headers sample_elf = Inr (Some hs)
      \<and> (\<forall>h \<in> set hs. segement_type h = Load \<longrightarrow> (\<exists>ps. segment_pages sample_paging h = Inr ps
          \<and> (\<forall>p \<in> set ps. translate_page (new_map sample_paging) t' p = translate_page (cur_map sample_paging) sample_start p)))"
    using r by blast
  then have "translate_page (new_map sample_paging) t' 0x401 = translate_page (cur_map sample_paging) sample_start 0x401"
    by (simp add: sample_elf_read sample_segment_pages) (simp add: sample_segment_def)
  moreover have "translate_page (cur_map sample_paging) sample_start 0x401 = Some 2"
    by (simp add: sample_paging_def sample_mapper_def sample_start_def)
  ultimately show ?thesis using P by auto
qed

theorem segment_loaded_witness:
  "\<exists>t' ram' f. load_segment sample_paging check_map_result sample_elf sample_segment (sample_start, \<lambda>_. 0) = Inr (t', ram')
     \<and> translate_page (new_map sample_paging) t' 0x401 = Some f \<and> ram' (frame_addr sample_paging f + 1) = 0xc3"
proof -
  have "\<exists>s. load_segment sample_paging check_map_result sample_elf sample_segment (sample_start, \<lambda>_. 0) = Inr s"
    by (simp add: load_segment_def sample_segment_pages sample_segment_data)
      (simp add: load_page_def sample_paging_def sample_mapper_def expect_frame_def sample_segment_def slice_r_def
        check_map_result_def sample_start_def Let_def split: option.splits)
  then obtain t' ram' where r: "load_segment sample_paging check_map_result sample_elf sample_segment (sample_start, \<lambda>_. 0)
      = Inr (t', ram')" by auto
  have u: "\<forall>p \<in> set [0x401]. translate_page (new_map sample_paging) sample_start p = None"
    by (simp add: sample_paging_def sample_mapper_def sample_start_def)
  have s: "segement_type sample_segment = Load" "p_virtual_address sample_segment mod 4096 = 0"
      "segment_file_size sample_segment = 2" "segment_mem_size sample_segment = 2"
    by (simp_all add: sample_segment_def)
  obtain data frames where d: "segment sample_elf sample_segment = Inr (Some data)"
      "\<forall>i < length [0x401]. translate_page (new_map sample_paging) t' ([0x401] ! i) = Some (frames ! i)"
      "\<forall>k < segment_file_size sample_segment. ram' (frame_addr sample_paging (frames ! (k div 4096)) + k mod 4096) = data ! k"
    using segment_loaded [OF sample_paging_ok r s(1,2) _ _ sample_segment_pages u] s(3,4) by auto
  have "data = [0xf4, 0xc3]" using d(1) by (simp add: sample_segment_data)
  with d(2) d(3) [rule_format, of 1] s(3) r show ?thesis by auto
qed

definition sample_bss :: ProgramHeader where
  "sample_bss = sample_segment\<lparr>segment_mem_size := 4096\<rparr>"

theorem bss_holds_last_block_witness:
  "\<exists>t' ram' f. load_segment sample_paging check_map_result sample_elf sample_bss (sample_start, \<lambda>_. 0) = Inr (t', ram')
     \<and> translate_page (new_map sample_paging) t' 0x402 = Some f \<and> ram' (frame_addr sample_paging f) = 0xf4"
proof -
  have pg: "segment_pages sample_paging sample_bss = Inr [0x401, 0x402]"
    by (simp add: segment_pages_def sample_bss_def sample_segment_def sample_paging_def sample_mapper_def chk_def upt_rec)
  have dat: "segment sample_elf sample_bss = Inr (Some [0xf4, 0xc3])"
    by (simp add: segment_def sample_bss_def sample_segment_def sample_elf_def chk_def slice_r_def encode_lengths)
  have "\<exists>s. load_segment sample_paging check_map_result sample_elf sample_bss (sample_start, \<lambda>_. 0) = Inr s"
    by (simp add: load_segment_def pg dat)
      (simp add: load_page_def sample_paging_def sample_mapper_def expect_frame_def sample_bss_def sample_segment_def slice_r_def
        check_map_result_def sample_start_def Let_def split: option.splits)
  then obtain t' ram' where r: "load_segment sample_paging check_map_result sample_elf sample_bss (sample_start, \<lambda>_. 0)
      = Inr (t', ram')" by auto
  have u: "\<forall>p \<in> set [0x401, 0x402]. translate_page (new_map sample_paging) sample_start p = None"
    by (simp add: sample_paging_def sample_mapper_def sample_start_def)
  have s: "segement_type sample_bss = Load" "p_virtual_address sample_bss mod 4096 = 0" "segment_file_size sample_bss = 2"
    by (simp_all add: sample_bss_def sample_segment_def)
  from bss_holds_last_block [OF sample_paging_ok r s(1,2) _ pg u, of 1 0] s(3) dat obtain f where
    f: "translate_page (new_map sample_paging) t' 0x402 = Some f" "\<forall>k < 2. ram' (frame_addr sample_paging f + k) = [0xf4, 0xc3] ! k"
    by auto
  from f(2) [rule_format, of 0] f(1) r show ?thesis by simp
qed

end
