(* ===== verification/Scheduler.thy ===== *)
theory Scheduler
  imports Interrupts Process
begin

text \<open>
  \<open>kernel/src/process_manager.rs\<close> (the process list and the scheduler) and \<open>kernel/src/syscall.rs\<close> (entering user mode, the
  system call stub).

  The crate \<open>x86_64\<close> is a parameter (\<open>paging\<close> as for processes; \<open>translate_addr\<close> for the address translation of
  \<open>OffsetPageTable\<close>). The model-specific registers are a map, \<open>rdmsr\<close> and \<open>wrmsr\<close> move them through edx:eax.
\<close>

section \<open>Managed processes\<close>

datatype State = Ready | Blocked | Running

definition KERNEL :: nat where "KERNEL = 1"

record ManagedProcess =
  mp_process :: Process
  mp_state :: State
  mp_flags :: nat

record process_manager =
  PROCESSES :: "ManagedProcess list"
  NEXT_PROCESS :: nat

definition manager_init :: process_manager where
  "manager_init = \<lparr>PROCESSES = [], NEXT_PROCESS = 0\<rparr>"

definition new_kernel_process ::
    "('p, 'f, 'q, 'g, 't) paging \<Rightarrow> u8 list \<Rightarrow> u8 list \<Rightarrow> nat \<Rightarrow> nat \<Rightarrow> nat
       \<Rightarrow> 't \<times> memory \<times> nat \<Rightarrow> (ManagedProcess \<times> 't \<times> memory \<times> nat) res" where
  "new_kernel_process pg elf kernel_elf kernel_stack_start kernel_stack_end mem_size s =
     bind_r (from_elf pg elf kernel_elf kernel_stack_start kernel_stack_end mem_size s) (\<lambda>(p, s').
       Inr (\<lparr>mp_process = p, mp_state = Ready, mp_flags = KERNEL\<rparr>, s'))"

definition spawn :: "ManagedProcess \<Rightarrow> process_manager \<Rightarrow> process_manager" where
  "spawn self pm = pm\<lparr>PROCESSES := PROCESSES pm @ [self]\<rparr>"

text \<open>The frame of the page table at a virtual address, and the switch to it (\<open>Cr3::write\<close>).\<close>

definition table_frame :: "(nat \<Rightarrow> nat option) \<Rightarrow> nat \<Rightarrow> nat res" where
  "table_frame translate_addr ptr =
     (case translate_addr ptr of
        Some addr \<Rightarrow> if addr mod 4096 \<noteq> 0 then Inl (Panic (ExplicitPanic ''Unable to get frame! (1)'')) else Inr addr
      | None \<Rightarrow> Inl (Panic (ExplicitPanic ''Unable to get frame! (2)'')))"

definition load_process :: "(nat \<Rightarrow> nat option) \<Rightarrow> nat \<Rightarrow> machine \<Rightarrow> machine res" where
  "load_process translate_addr address_space m =
     bind_r (table_frame translate_addr address_space) (\<lambda>frame. Inr (m\<lparr>cr3 := word_of_nat frame\<rparr>))"

definition schedular :: "('f, process_manager) handler" where
  "schedular frame snapshot pm =
     (if 0 < length (PROCESSES pm) then
        bind_r (index_r (PROCESSES pm) (NEXT_PROCESS pm)) (\<lambda>next.
        bind_r (chk 64 (NEXT_PROCESS pm + 1)) (\<lambda>n. Inr (frame, pm\<lparr>NEXT_PROCESS := n\<rparr>)))
      else Inr (frame, pm))"

definition process_manager_init :: "('f, process_manager) handler list list \<Rightarrow> ('f, process_manager) handler list list res" where
  "process_manager_init HANDLERS = register_handler 0x3C schedular HANDLERS"

section \<open>System calls\<close>

datatype SyscallType = Write | Unknown

definition syscall_type_of :: "nat \<Rightarrow> SyscallType" where
  "syscall_type_of a = (if a = 0 then Write else Unknown)"

text \<open>The body of \<open>syscall_entry\<close> is commented out.\<close>

definition syscall_entry :: "CpuSnapshot \<Rightarrow> 'w kernel \<Rightarrow> 'w kernel" where
  "syscall_entry cpu k = k"

definition syscall_entry_stub :: "'w kernel \<Rightarrow> 'w kernel" where
  "syscall_entry_stub k =
     (let k1 = enter_kernel_stack (k\<lparr>mach := interrupt_begin (mach k)\<rparr>);
          k2 = leave_kernel_stack (syscall_entry (snapshot_at (ram (mach k1)) (regs (mach k1) RDX)) k1)
      in k2\<lparr>mach := interrupt_end (mach k2)\<rparr>)"

record msr_machine =
  eax :: u32
  edx :: u32
  rcx :: u64
  msrs :: "u32 \<Rightarrow> u64"

definition wrmsr :: "msr_machine \<Rightarrow> msr_machine" where
  "wrmsr m = m\<lparr>msrs := (msrs m)(ucast (rcx m) := push_bit 32 (ucast (edx m)) OR ucast (eax m))\<rparr>"

definition rdmsr :: "msr_machine \<Rightarrow> msr_machine" where
  "rdmsr m = m\<lparr>eax := ucast (msrs m (ucast (rcx m))), edx := ucast (drop_bit 32 (msrs m (ucast (rcx m))))\<rparr>"

definition enable_syscalls :: "msr_machine \<Rightarrow> msr_machine" where
  "enable_syscalls m =
     (let m = wrmsr (m\<lparr>rcx := 0xc0000082\<rparr>);
          m = rdmsr (m\<lparr>rcx := 0xc0000080\<rparr>);
          m = wrmsr (m\<lparr>eax := eax m OR 1\<rparr>);
          m = rdmsr (m\<lparr>rcx := 0xc0000081\<rparr>);
          m = wrmsr (m\<lparr>edx := 0x00180008\<rparr>);
          m = m\<lparr>eax := 0x200, rcx := 0xc0000084\<rparr>
      in wrmsr m)"

text \<open>
  The state after \<open>sysretq\<close>: instruction pointer from rcx, flags from r11. The registers r11 and r12 are loaded by the first
  assembly block and read by the second: the model keeps them across \<open>Cr3::write\<close>, as the code relies on.
\<close>

record user_start =
  us_rip :: u64
  us_rsp :: u64
  us_rbp :: u64
  us_flags :: u64
  us_cr3 :: nat
  us_msrs :: "u32 \<Rightarrow> u64"

definition jump_usermode ::
    "(nat \<Rightarrow> nat option) \<Rightarrow> u64 \<Rightarrow> Process \<Rightarrow> nat \<Rightarrow> (u32 \<Rightarrow> u64) \<Rightarrow> user_start res" where
  "jump_usermode translate_addr sepointer process address_space ms =
     (let lower = ucast (sepointer AND 0xFFFFFFFF);
          upper = ucast (drop_bit 32 (sepointer AND 0xFFFFFFFF00000000))
      in
      bind_r (table_frame translate_addr address_space) (\<lambda>frame.
      let m = enable_syscalls \<lparr>eax = lower, edx = upper, rcx = 0, msrs = ms\<rparr>;
          r11 = word_of_nat (process_entry process);
          r12 = word_of_nat (stack_base process)
      in Inr \<lparr>us_rip = r11, us_rsp = r12, us_rbp = r12, us_flags = 0x202, us_cr3 = frame, us_msrs = msrs m\<rparr>))"

section \<open>The scheduler\<close>

text \<open>A number of timer interrupts (vector 0x3C) in a row.\<close>

primrec timer_ticks ::
    "('f, process_manager) handler list list \<Rightarrow> CpuSnapshot \<Rightarrow> nat \<Rightarrow> 'f \<times> process_manager \<Rightarrow> ('f \<times> process_manager) res" where
  "timer_ticks HANDLERS snapshot 0 s = Inr s"
| "timer_ticks HANDLERS snapshot (Suc n) s =
     bind_r (timer_ticks HANDLERS snapshot n s) (interrupt HANDLERS snapshot 0x3C)"

text \<open>
  The life of the process list: processes are started and timer interrupts arrive in any order. A trace is the sequence of events that led to a state.
\<close>

datatype sched_event = Spawned ManagedProcess | Timer

inductive sched_run ::
    "('f, process_manager) handler list list \<Rightarrow> CpuSnapshot \<Rightarrow> 'f \<Rightarrow> sched_event list \<Rightarrow> process_manager \<Rightarrow> bool"
  for HANDLERS snapshot frame where
  start: "sched_run HANDLERS snapshot frame [] manager_init"
| spawned: "sched_run HANDLERS snapshot frame tr pm \<Longrightarrow> sched_run HANDLERS snapshot frame (tr @ [Spawned p]) (spawn p pm)"
| timer: "sched_run HANDLERS snapshot frame tr pm \<Longrightarrow> interrupt HANDLERS snapshot 0x3C (frame, pm) = Inr (frame', pm')
    \<Longrightarrow> sched_run HANDLERS snapshot frame (tr @ [Timer]) pm'"

inductive_cases sched_run_snocE: "sched_run HANDLERS snapshot frame (tr @ [e]) pm"

text \<open>The processes a trace starts, and the timer interrupts that find a process list that is not empty.\<close>

fun started :: "sched_event list \<Rightarrow> ManagedProcess list" where
  "started [] = []"
| "started (Spawned p # tr) = p # started tr"
| "started (Timer # tr) = started tr"

definition busy_ticks :: "sched_event list \<Rightarrow> nat" where
  "busy_ticks tr = length (filter ((=) Timer) (dropWhile ((=) Timer) tr))"

lemma started_append [simp]: "started (xs @ ys) = started xs @ started ys"
  by (induction xs rule: started.induct) auto

lemma started_nil_iff: "started tr = [] \<longleftrightarrow> dropWhile ((=) Timer) tr = []"
  by (induction tr rule: started.induct) auto

lemma dropWhile_snoc: "dropWhile P (xs @ [x]) = (if dropWhile P xs = [] then dropWhile P [x] else dropWhile P xs @ [x])"
  by (induction xs) auto

lemma busy_ticks_snoc:
  "busy_ticks [] = 0" "busy_ticks (tr @ [Spawned p]) = busy_ticks tr"
  "busy_ticks (tr @ [Timer]) = busy_ticks tr + (if started tr = [] then 0 else 1)"
  by (auto simp: busy_ticks_def dropWhile_snoc started_nil_iff simp del: dropWhile_eq_Nil_conv)

lemma timer_dispatch:
  assumes "process_manager_init HANDLERS_init = Inr HANDLERS"
  shows "interrupt HANDLERS snapshot 0x3C (f, pm) = schedular f snapshot pm"
proof -
  have "HANDLERS = HANDLERS_init[28 := [schedular]]"
    using assms by (auto simp: process_manager_init_def register_handler_nth HANDLERS_init_def)
  then show ?thesis by (simp add: interrupt_def index_r_def sub_chk_def HANDLERS_init_def fold_r_nil)
qed

lemma schedular_cases:
  assumes "NEXT_PROCESS pm \<le> length (PROCESSES pm)" "NEXT_PROCESS pm + 1 < 2 ^ 64"
  shows "schedular frame snapshot pm =
    (if PROCESSES pm = [] then Inr (frame, pm)
     else if NEXT_PROCESS pm = length (PROCESSES pm) then Inl (Panic OutOfBounds)
     else Inr (frame, pm\<lparr>NEXT_PROCESS := NEXT_PROCESS pm + 1\<rparr>))"
  using assms by (auto simp: schedular_def index_r_def chk_ok)

lemma sched_run_state:
  assumes "process_manager_init HANDLERS_init = Inr HANDLERS" "sched_run HANDLERS snapshot frame tr pm" "length tr + 1 < 2 ^ 64"
  shows "PROCESSES pm = started tr \<and> NEXT_PROCESS pm = busy_ticks tr \<and> busy_ticks tr \<le> length (started tr) \<and> busy_ticks tr \<le> length tr"
  using assms(2,3)
proof induction
  case (timer tr pm frame' pm')
  then have IH: "PROCESSES pm = started tr" "NEXT_PROCESS pm = busy_ticks tr" "busy_ticks tr \<le> length (started tr)" "busy_ticks tr \<le> length tr"
    by simp_all
  have "schedular frame snapshot pm = Inr (frame', pm')" using timer.hyps(2) timer_dispatch [OF assms(1)] by simp
  moreover have "NEXT_PROCESS pm + 1 < 2 ^ 64" using IH(2,4) timer.prems by simp
  ultimately show ?case using IH schedular_cases [of pm frame snapshot] by (auto simp: busy_ticks_snoc split: if_splits)
qed (simp_all add: manager_init_def spawn_def busy_ticks_snoc)

text \<open>
  C35: the scheduler under every order of starting processes and timer interrupts. A trace runs without panic exactly when at no point more timer interrupts
  (since the first process was started) than processes have been seen: nothing ever takes \<open>NEXT_PROCESS\<close> back to the start of the list. As long as
  it runs the list holds the processes in the order they were started, \<open>NEXT_PROCESS\<close> counts the interrupts, and the next interrupt panics exactly when the
  count has reached the length of the list.
\<close>
theorem scheduler_traces:
  assumes "process_manager_init HANDLERS_init = Inr HANDLERS" "length tr + 1 < 2 ^ 64"
  shows "((\<exists>pm. sched_run HANDLERS snapshot frame tr pm) \<longleftrightarrow> (\<forall>n \<le> length tr. busy_ticks (take n tr) \<le> length (started (take n tr))))
    \<and> (\<forall>pm. sched_run HANDLERS snapshot frame tr pm \<longrightarrow> PROCESSES pm = started tr \<and> NEXT_PROCESS pm = busy_ticks tr
        \<and> (interrupt HANDLERS snapshot 0x3C (frame, pm) = Inl (Panic OutOfBounds) \<longleftrightarrow> started tr \<noteq> [] \<and> busy_ticks tr = length (started tr)))"
proof (intro conjI allI impI)
  show "(\<exists>pm. sched_run HANDLERS snapshot frame tr pm) \<longleftrightarrow> (\<forall>n \<le> length tr. busy_ticks (take n tr) \<le> length (started (take n tr)))"
    using assms(2)
  proof (induction tr rule: rev_induct)
    case Nil
    have "\<exists>pm. sched_run HANDLERS snapshot frame [] pm" by (rule exI) (rule sched_run.start)
    then show ?case by (simp add: busy_ticks_snoc)
  next
    case (snoc e tr)
    let ?ok = "\<lambda>tr. \<forall>n \<le> length tr. busy_ticks (take n tr) \<le> length (started (take n tr))"
    have ok: "?ok (tr @ [e]) \<longleftrightarrow> ?ok tr \<and> busy_ticks (tr @ [e]) \<le> length (started (tr @ [e]))"
      by (auto simp: le_Suc_eq)
    have len: "length tr + 1 < 2 ^ 64" using snoc.prems by simp
    show ?case
    proof
      assume "\<exists>pm. sched_run HANDLERS snapshot frame (tr @ [e]) pm"
      then obtain pm where pm: "sched_run HANDLERS snapshot frame (tr @ [e]) pm" by blast
      then have "\<exists>pm. sched_run HANDLERS snapshot frame tr pm" by (rule sched_run_snocE) auto
      then have "?ok tr" using snoc.IH len by blast
      moreover have "busy_ticks (tr @ [e]) \<le> length (started (tr @ [e]))" using sched_run_state [OF assms(1) pm] snoc.prems by blast
      ultimately show "?ok (tr @ [e])" using ok by blast
    next
      assume "?ok (tr @ [e])"
      then have a: "?ok tr" "busy_ticks (tr @ [e]) \<le> length (started (tr @ [e]))" using ok by blast+
      then obtain pm where pm: "sched_run HANDLERS snapshot frame tr pm" using snoc.IH len by blast
      note st = sched_run_state [OF assms(1) pm len]
      show "\<exists>pm. sched_run HANDLERS snapshot frame (tr @ [e]) pm"
      proof (cases e)
        case (Spawned p)
        then show ?thesis using sched_run.spawned [OF pm] by blast
      next
        case Timer
        have "\<exists>pm'. schedular frame snapshot pm = Inr (frame, pm')"
          using schedular_cases [of pm frame snapshot] st a(2) len Timer by (auto simp: busy_ticks_snoc split: if_splits)
        then show ?thesis using Timer sched_run.timer [OF pm] timer_dispatch [OF assms(1)] by metis
      qed
    qed
  qed
  fix pm assume "sched_run HANDLERS snapshot frame tr pm"
  note st = sched_run_state [OF assms(1) this assms(2)]
  then show "PROCESSES pm = started tr" "NEXT_PROCESS pm = busy_ticks tr" by blast+
  show "interrupt HANDLERS snapshot 0x3C (frame, pm) = Inl (Panic OutOfBounds) \<longleftrightarrow> started tr \<noteq> [] \<and> busy_ticks tr = length (started tr)"
    using st assms(2) schedular_cases [of pm frame snapshot] timer_dispatch [OF assms(1)] by auto
qed

definition sample_process :: ManagedProcess where
  "sample_process = \<lparr>mp_process = \<lparr>process_id = 1, stack_base = 0x7000, process_entry = 0x400000\<rparr>, mp_state = Ready, mp_flags = KERNEL\<rparr>"

theorem scheduler_traces_witness:
  "\<exists>HANDLERS. process_manager_init HANDLERS_init = Inr HANDLERS
     \<and> (\<forall>snapshot. (\<exists>pm. sched_run HANDLERS snapshot () [Timer, Spawned sample_process, Timer] pm)
       \<and> \<not> (\<exists>pm. sched_run HANDLERS snapshot () [Spawned sample_process, Timer, Timer] pm))"
proof -
  let ?a = "[Timer, Spawned sample_process, Timer]" and ?b = "[Spawned sample_process, Timer, Timer]"
  have init: "process_manager_init HANDLERS_init = Inr (HANDLERS_init[28 := [schedular]])"
    by (simp add: process_manager_init_def register_handler_nth HANDLERS_init_def)
  have l: "length ?a + 1 < 2 ^ 64" "length ?b + 1 < 2 ^ 64" by simp_all
  have "\<forall>n \<le> length ?a. busy_ticks (take n ?a) \<le> length (started (take n ?a))"
    by (auto simp: busy_ticks_def le_Suc_eq)
  then have "\<exists>pm. sched_run (HANDLERS_init[28 := [schedular]]) snapshot () ?a pm" for snapshot
    using conjunct1 [OF scheduler_traces [OF init l(1), of snapshot "()"]] by blast
  moreover have "\<not> busy_ticks (take 3 ?b) \<le> length (started (take 3 ?b))" "3 \<le> length ?b" by (simp_all add: busy_ticks_def)
  then have "\<not> (\<exists>pm. sched_run (HANDLERS_init[28 := [schedular]]) snapshot () ?b pm)" for snapshot
    using conjunct1 [OF scheduler_traces [OF init l(2), of snapshot "()"]] by blast
  ultimately show ?thesis using init by blast
qed

section \<open>User mode\<close>

lemma word_halves:
  "push_bit 32 (ucast (ucast (drop_bit 32 (x AND 0xFFFFFFFF00000000)) :: u32)) OR ucast (ucast (x AND 0xFFFFFFFF) :: u32)
     = (x :: u64)"
proof -
  have m: "0xFFFFFFFF = (mask 32 :: u64)" "0xFFFFFFFF00000000 = (push_bit 32 (mask 32) :: u64)"
    by (simp_all add: mask_eq_exp_minus_1 push_bit_eq_mult)
  show ?thesis unfolding m by (rule bit_word_eqI) (auto simp: bit_simps)
qed

lemma enable_syscalls_msrs:
  "msrs (enable_syscalls m) = (msrs m)
     (0xc0000082 := push_bit 32 (ucast (edx m)) OR ucast (eax m),
      0xc0000080 := push_bit 32 (ucast (ucast (drop_bit 32 (msrs m 0xc0000080)) :: u32)) OR ucast (ucast (msrs m 0xc0000080) OR 1 :: u32),
      0xc0000081 := push_bit 32 0x00180008 OR ucast (ucast (msrs m 0xc0000081) :: u32),
      0xc0000084 := push_bit 32 0x00180008 OR 0x200)"
  by (simp add: enable_syscalls_def rdmsr_def wrmsr_def Let_def)

lemma low_half_bit: "bit (push_bit 32 (ucast (ucast (drop_bit 32 x) :: u32)) OR ucast (ucast x OR 1 :: u32) :: u64) k
    \<longleftrightarrow> k = 0 \<or> bit x k" for x :: u64
  by (auto simp: bit_simps dest: bit_imp_le_length)

lemma drop_low_half [simp]: "drop_bit 32 (ucast (b :: u32) :: u64) = 0"
  by (rule bit_word_eqI) (auto simp: bit_simps dest: bit_imp_le_length)

text \<open>
  C27: \<open>jump_usermode\<close> returns to the entry point of the process with its stack, in its address space, with interrupts
  enabled; the system call entry point is in LSTAR, system calls are enabled in EFER, STAR selects the segments
  0x08 and 0x18, the flag mask clears the interrupt flag, and no other model-specific register changes. It panics when
  the page table is not mapped.
\<close>
theorem jump_usermode_state:
  assumes "translate_addr address_space = Some addr" "addr mod 4096 = 0"
  shows "\<exists>u. jump_usermode translate_addr sepointer process address_space ms = Inr u
    \<and> us_rip u = word_of_nat (process_entry process) \<and> us_rsp u = word_of_nat (stack_base process)
    \<and> us_cr3 u = addr \<and> bit (us_flags u) 9
    \<and> us_msrs u 0xc0000082 = sepointer
    \<and> bit (us_msrs u 0xc0000080) 0 \<and> (\<forall>k > 0. bit (us_msrs u 0xc0000080) k = bit (ms 0xc0000080) k)
    \<and> drop_bit 32 (us_msrs u 0xc0000081) = 0x00180008 \<and> bit (us_msrs u 0xc0000084) 9
    \<and> (\<forall>r. r \<notin> {0xc0000080, 0xc0000081, 0xc0000082, 0xc0000084} \<longrightarrow> us_msrs u r = ms r)"
proof -
  let ?m = "\<lparr>eax = ucast (sepointer AND 0xFFFFFFFF), edx = ucast (drop_bit 32 (sepointer AND 0xFFFFFFFF00000000)),
      rcx = 0, msrs = ms\<rparr> :: msr_machine"
  let ?u = "\<lparr>us_rip = word_of_nat (process_entry process), us_rsp = word_of_nat (stack_base process),
      us_rbp = word_of_nat (stack_base process), us_flags = 0x202, us_cr3 = addr, us_msrs = msrs (enable_syscalls ?m)\<rparr>"
  have j: "jump_usermode translate_addr sepointer process address_space ms = Inr ?u"
    using assms by (simp add: jump_usermode_def table_frame_def Let_def)
  have "us_msrs ?u 0xc0000082 = sepointer"
    using word_halves [of sepointer] by (simp add: enable_syscalls_msrs)
  moreover have "bit (us_msrs ?u 0xc0000080) k \<longleftrightarrow> k = 0 \<or> bit (ms 0xc0000080) k" for k
    by (simp add: enable_syscalls_msrs low_half_bit)
  moreover have "drop_bit 32 (us_msrs ?u 0xc0000081) = 0x00180008"
    by (simp add: enable_syscalls_msrs drop_bit_push_bit)
  moreover have "bit (us_msrs ?u 0xc0000084) 9" "bit (us_flags ?u) 9"
    by (simp_all add: enable_syscalls_msrs bit_simps)
  moreover have "us_msrs ?u r = ms r" if "r \<notin> {0xc0000080, 0xc0000081, 0xc0000082, 0xc0000084}" for r
    using that by (simp add: enable_syscalls_msrs)
  ultimately show ?thesis using j by (intro exI [of _ ?u]) simp
qed

theorem jump_usermode_state_witness:
  "\<exists>u. jump_usermode (\<lambda>a. Some 0x3000) 0xFFFF800000001234
        \<lparr>process_id = 1, stack_base = 0x7000, process_entry = 0x400000\<rparr> 0x10000 (\<lambda>r. 0) = Inr u
     \<and> us_rip u = 0x400000 \<and> us_rsp u = 0x7000 \<and> us_cr3 u = 0x3000 \<and> us_msrs u 0xc0000082 = 0xFFFF800000001234"
  using jump_usermode_state [of "\<lambda>a. Some 0x3000" "0x10000" "0x3000" "0xFFFF800000001234"
      "\<lparr>process_id = 1, stack_base = 0x7000, process_entry = 0x400000\<rparr>" "\<lambda>r. 0"]
  by auto

end
