(* ===== verification/Iso_Utils.thy ===== *)
theory Iso_Utils
  imports Writer
begin

text \<open>
  \<open>disk_image_generator/src/iso/utils.rs\<close>: rounding, 8.3 names, the size of a directory record and the
  CHS encoding of the partition table.

  A \<open>&str\<close> is the list of its UTF-8 bytes; slicing it panics when an end is not on a character boundary.
\<close>

definition LOGIC_SIZE :: nat where "LOGIC_SIZE = 0x800"
definition SECTOR_SIZE :: nat where "SECTOR_SIZE = 0x200"

section \<open>Rounding\<close>

definition align_up_i32 :: "int \<Rightarrow> int \<Rightarrow> int res" where
  "align_up_i32 v padding =
     bind_r (chk_i32 (padding - 1)) (\<lambda>p1.
     bind_r (chk_i32 (v + p1)) (\<lambda>s.
     bind_r (chk_i32 (- padding)) (\<lambda>np. Inr (s AND np))))"

section \<open>Names\<close>

definition dot :: u8 where "dot = 0x2e"
definition slash :: u8 where "slash = 0x2f"

primrec split_on :: "u8 \<Rightarrow> str \<Rightarrow> str list" where
  "split_on c [] = [[]]"
| "split_on c (x # xs) =
     (if x = c then [] # split_on c xs
      else (x # hd (split_on c xs)) # tl (split_on c xs))"

definition is_char_boundary :: "str \<Rightarrow> nat \<Rightarrow> bool" where
  "is_char_boundary s i \<longleftrightarrow>
     i = 0 \<or> i = length s \<or> (i < length s \<and> s ! i AND 0xC0 \<noteq> 0x80)"

definition str_slice :: "str \<Rightarrow> nat \<Rightarrow> nat \<Rightarrow> str res" where
  "str_slice s a b =
     (if a \<le> b \<and> is_char_boundary s a \<and> is_char_boundary s b then Inr (take (b - a) (drop a s))
      else Inl (Panic CharBoundary))"

definition convert_name :: "str \<Rightarrow> str res" where
  "convert_name v =
     (let parts = split_on dot v;
          file_name = hd parts;
          file_truncated_size = (if 8 \<le> length file_name then 8 else length file_name);
          extension = (if 1 < length parts then parts ! 1 else []);
          extension_truncated_size = (if 3 < length extension then 3 else length extension)
      in bind_r (str_slice file_name 0 file_truncated_size) (\<lambda>result.
         if extension_truncated_size \<noteq> 0 then
           bind_r (str_slice extension 0 extension_truncated_size) (\<lambda>ext. Inr (result @ [dot] @ ext))
         else Inr result))"

section \<open>The size of a directory record\<close>

definition get_entry_size :: "nat \<Rightarrow> str \<Rightarrow> nat \<Rightarrow> nat \<Rightarrow> nat res" where
  "get_entry_size base_size file_name directory_type padding_type =
     (let file_name_len = length file_name in
      if 251 < file_name_len then Inl (Panic (ExplicitPanic ''File name is too big (max size is 251 bytes)''))
      else
        bind_r (convert_name file_name) (\<lambda>file_name_corrected.
          let file_identifier =
                (if directory_type = 1 then [0]
                 else if directory_type = 2 then [1]
                 else if directory_type = 3 then [0]
                 else if directory_type = 5 then [0]
                 else file_name_corrected);
              file_identifier_len =
                length file_identifier + (if length file_identifier mod 2 \<noteq> padding_type then 1 else 0);
              system_use_field_size =
                (if directory_type < 5 then 0x2c else 0)
                + (if directory_type = 0 then 0x5 + file_name_len else 0)
                + (if directory_type = 3 then 0x7 + 0x1c else 0)
          in chk 32 (base_size + file_identifier_len + system_use_field_size)))"

section \<open>CHS addresses\<close>

definition write_lba_to_cls :: "deps \<Rightarrow> nat \<Rightarrow> nat \<Rightarrow> nat \<Rightarrow> out_file \<Rightarrow> out_file res" where
  "write_lba_to_cls dp disk_lba head_count sector_count f =
     (if sector_count = 0 \<or> head_count = 0 then Inl (Panic DivideByZero)
      else
        let sector_number = disk_lba mod sector_count + 1;
            tmp = disk_lba div sector_count;
            head_number = tmp mod head_count;
            cylinder_number = tmp div head_count;
            (cylinder_number, head_number, sector_number) =
              (if 0x400 < cylinder_number then (0x3FF, head_count, sector_count)
               else (cylinder_number, head_number, sector_number));
            sector_number = sector_number OR drop_bit 2 (cylinder_number AND 0x300);
            cylinder_number = cylinder_number AND 0xFF
        in run [write_u8 dp (as_u8 head_number), write_u8 dp (as_u8 sector_number),
                write_u8 dp (as_u8 cylinder_number)] f)"

section \<open>Lemmas\<close>

lemma LOGIC_SIZE_simp [simp]: "LOGIC_SIZE = 2048"
  by (simp add: LOGIC_SIZE_def)

lemma ascii_length [simp]: "length (ascii s) = length s"
  by (simp add: ascii_def)

lemma split_on_not_nil [simp]: "split_on c s \<noteq> []"
  by (cases s) auto

lemma round_up_int:
  assumes "0 < n"
  shows "(int x + (2 ^ n - 1)) AND - (2 ^ n) = int (round_up (2 ^ n) x)"
proof -
  have "int (2 ^ n - 1) = 2 ^ n - 1" by (subst of_nat_diff) simp_all
  then have "int x + (2 ^ n - 1) = int (x + (2 ^ n - 1))" by (simp only: of_nat_add)
  then show ?thesis by (simp add: and_not_mask_int round_up_def zdiv_int)
qed

lemma align_up_i32_block:
  assumes "x + 2048 \<le> 2147483648"
  shows "align_up_i32 (int x) 2048 = Inr (int (round_up 2048 x))"
  using round_up_int [of 11 x] assms by (simp add: align_up_i32_def chk_i32_def)

text \<open>The 8.3 name that \<open>convert_name\<close> is meant to give, without the boundary checks.\<close>

definition short_name :: "str \<Rightarrow> str" where
  "short_name v =
     (let parts = split_on dot v; ext = (if 1 < length parts then take 3 (parts ! 1) else []) in
      take 8 (hd parts) @ (if ext = [] then [] else dot # ext))"

lemma convert_name_short:
  assumes "convert_name v = Inr r"
  shows "r = short_name v"
proof -
  have t: "take (if n \<le> length xs then n else length xs) xs = take n xs" for n and xs :: str by simp
  have e: "take (if 3 < length xs then 3 else length xs) xs = take 3 xs" for xs :: str by simp
  from assms show ?thesis
    by (auto simp: convert_name_def short_name_def Let_def str_slice_def t e split: if_splits)
qed

lemma short_name_length: "length (short_name v) \<le> 12"
  by (auto simp: short_name_def Let_def)

lemma is_char_boundary_ascii:
  "\<forall>c \<in> set s. c < 0x80 \<Longrightarrow> i \<le> length s \<Longrightarrow> is_char_boundary s i"
proof -
  assume *: "\<forall>c \<in> set s. c < 0x80" "i \<le> length s"
  show ?thesis
  proof (cases "i < length s")
    case True
    then have "s ! i < 0x80" using *(1) by simp
    moreover have "s ! i AND 0xC0 \<le> s ! i" by (simp add: word_and_le2)
    ultimately have "s ! i AND 0xC0 < 0x80" by (rule le_less_trans [rotated])
    then have "s ! i AND 0xC0 \<noteq> 0x80" by (metis less_irrefl)
    with True show ?thesis by (simp add: is_char_boundary_def)
  qed (use * in \<open>simp add: is_char_boundary_def\<close>)
qed

lemma split_on_set: "p \<in> set (split_on c s) \<Longrightarrow> set p \<subseteq> set s"
proof (induction s arbitrary: p)
  case (Cons x xs)
  have h: "set (hd (split_on c xs)) \<subseteq> set xs" by (rule Cons.IH) simp
  have t: "set q \<subseteq> set xs" if "q \<in> set (tl (split_on c xs))" for q
    by (rule Cons.IH) (meson list.set_sel(2) split_on_not_nil that)
  show ?case
  proof (cases "x = c")
    case True
    with Cons show ?thesis by auto
  next
    case False
    with Cons.prems consider "p = x # hd (split_on c xs)" | "p \<in> set (tl (split_on c xs))" by auto
    then show ?thesis by cases (use h t in auto)
  qed
qed simp

lemma convert_name_ascii:
  assumes "\<forall>c \<in> set v. c < 0x80"
  shows "convert_name v = Inr (short_name v)"
proof -
  have parts: "\<forall>c \<in> set p. c < 0x80" if "p \<in> set (split_on dot v)" for p
    using split_on_set [OF that] assms by blast
  have b: "is_char_boundary p i" if "p \<in> set (split_on dot v)" "i \<le> length p" for p i
    using is_char_boundary_ascii parts that by blast
  have "\<exists>r. convert_name v = Inr r"
    by (auto simp: convert_name_def Let_def str_slice_def intro!: b)
  then show ?thesis using convert_name_short by auto
qed

text \<open>What \<open>get_entry_size\<close> returns, with the parity correction resolved.\<close>

definition pad_len :: "nat \<Rightarrow> nat \<Rightarrow> nat" where
  "pad_len parity n = n + (if n mod 2 \<noteq> parity then 1 else 0)"

lemma get_entry_size_cases:
  assumes "length name \<le> 251" "convert_name name = Inr r" "base < 2 ^ 16"
  shows "get_entry_size base name 0 p = Inr (base + pad_len p (length r) + 0x31 + length name)"
    and "get_entry_size base name 1 p = Inr (base + pad_len p 1 + 0x2c)"
    and "get_entry_size base name 2 p = Inr (base + pad_len p 1 + 0x2c)"
    and "get_entry_size base name 3 p = Inr (base + pad_len p 1 + 0x4f)"
    and "get_entry_size base name 5 p = Inr (base + pad_len p 1)"
    and "get_entry_size base name 6 p = Inr (base + pad_len p (length r))"
proof -
  have "length r \<le> 12" using convert_name_short [OF assms(2)] short_name_length by simp
  with assms show
    "get_entry_size base name 0 p = Inr (base + pad_len p (length r) + 0x31 + length name)"
    "get_entry_size base name 1 p = Inr (base + pad_len p 1 + 0x2c)"
    "get_entry_size base name 2 p = Inr (base + pad_len p 1 + 0x2c)"
    "get_entry_size base name 3 p = Inr (base + pad_len p 1 + 0x4f)"
    "get_entry_size base name 5 p = Inr (base + pad_len p 1)"
    "get_entry_size base name 6 p = Inr (base + pad_len p (length r))"
    by (simp_all add: get_entry_size_def pad_len_def chk_def Let_def)
qed

lemma cylinder_high: "c < 1024 \<Longrightarrow> drop_bit 2 ((c::nat) AND 0x300) = 2 ^ 6 * (c div 256)"
  using and_push [of c 8 3] by (simp add: push_bit_eq_mult drop_bit_eq_div and_mask_nat_nums)

text \<open>The CHS address a BIOS reads from the three bytes.\<close>

fun read_chs :: "u8 list \<Rightarrow> nat \<times> nat \<times> nat" where
  "read_chs [h, s, c] = (unat c + 256 * (unat s div 64), unat h, unat s mod 64)"
| "read_chs _ = (0, 0, 0)"

section \<open>Properties\<close>

text \<open>
  The CHS address written for a block below cylinder 1024 reads back as that block, for every disk
  geometry the three bytes can express.
\<close>
theorem chs_roundtrip:
  assumes "byteorder_ok dp" "0 < sector_count" "sector_count < 64" "0 < head_count" "head_count \<le> 256"
    and "disk_lba div sector_count div head_count < 1024"
  shows "\<exists>bs c h s. write_lba_to_cls dp disk_lba head_count sector_count f = Inr (put bs f)
    \<and> read_chs bs = (c, h, s) \<and> length bs = 3 \<and> disk_lba = (c * head_count + h) * sector_count + (s - 1)"
proof -
  let ?s = "disk_lba mod sector_count + 1" and ?t = "disk_lba div sector_count"
  let ?h = "?t mod head_count" and ?c = "?t div head_count"
  let ?s' = "?s + 64 * (?c div 256)"
  have s: "?s < 2 ^ 6" using mod_less_divisor [OF assms(2), of disk_lba] assms(3) by simp
  have h: "?h < 256" using mod_less_divisor [OF assms(4), of ?t] assms(5) by linarith
  have c: "?c div 256 \<le> 3" using assms(6) by auto
  have or: "?s OR drop_bit 2 (?c AND 0x300) = ?s'"
    using or_disjoint [OF s, of "?c div 256"] cylinder_high [OF assms(6)] by simp
  have s': "?s' < 256" using s c by simp
  have w: "write_lba_to_cls dp disk_lba head_count sector_count f
      = Inr (put [word_of_nat ?h, word_of_nat ?s', word_of_nat (?c mod 256)] f)"
    using assms h s' or by (simp add: write_lba_to_cls_def Let_def and_mask_nat_nums del: One_nat_def)
  have r: "read_chs [word_of_nat ?h, word_of_nat ?s', word_of_nat (?c mod 256)] = (?c, ?h, ?s)"
  proof -
    have u: "unat (word_of_nat x :: u8) = x" if "x < 256" for x
      using that by (simp add: unat_of_nat take_bit_eq_mod)
    have "?c mod 256 < 256" by simp
    note us = u [OF h] u [OF s'] u [OF this]
    have dm: "(a + 64 * q) div 64 = q" "(a + 64 * q) mod 64 = a" if "a < 64" for a q :: nat
      using that by simp_all
    have "?s < 64" using s by simp
    from dm [OF this, of "?c div 256"] show ?thesis
      by (simp only: read_chs.simps us prod.inject) (simp only: mod_mult_div_eq simp_thms)
  qed
  have "disk_lba = (?c * head_count + ?h) * sector_count + (?s - 1)" by (simp add: mult.commute)
  with w r show ?thesis by fastforce
qed
theorem chs_roundtrip_witness:
  "\<exists>bs c h s. write_lba_to_cls sample_deps 100000 64 32 file_create = Inr (put bs file_create)
     \<and> read_chs bs = (c, h, s) \<and> 100000 = (c * 64 + h) * 32 + (s - 1)"
  using chs_roundtrip [OF sample_deps_ok(1), of 32 64 100000 file_create] by auto

text \<open>
  The guard against large cylinders is off by one: cylinder 1024 passes it and its first sector is
  written with the address of block 0.
\<close>
theorem chs_cylinder_1024:
  assumes "0 < sector_count" "0 < head_count"
  shows "write_lba_to_cls dp (1024 * head_count * sector_count) head_count sector_count f
       = write_lba_to_cls dp 0 head_count sector_count f"
  using assms by (simp add: write_lba_to_cls_def Let_def)

theorem chs_cylinder_1024_witness:
  "write_lba_to_cls sample_deps 2097152 64 32 file_create = write_lba_to_cls sample_deps 0 64 32 file_create"
  using chs_cylinder_1024 [of 32 64 sample_deps file_create] by simp

end
