(* ===== verification/Iso_Entry.thy ===== *)
theory Iso_Entry
  imports Iso_Utils
begin

text \<open>
  \<open>disk_image_generator/src/iso/file_entry.rs\<close> and the records of \<open>directory_entry.rs\<close>: the data of the
  tree and the writers of one directory record.

  A \<open>PathBuf\<close> is its list of components. \<open>DirectoryEntry\<close> is a datatype because it is recursive; its
  fields are the constructor's selectors. The operating system's files are the parameter \<open>fs\<close>: what
  \<open>File::open\<close> followed by reading to the end gives.
\<close>

section \<open>Paths\<close>

datatype os_str = Unicode str | NonUnicode str

datatype component = RootDir | CurDir | ParentDir | Normal os_str

type_synonym path_buf = "component list"

definition file_name :: "path_buf \<Rightarrow> os_str option" where
  "file_name p =
     (if p = [] then None else case last p of Normal s \<Rightarrow> Some s | _ \<Rightarrow> None)"

fun to_str :: "os_str \<Rightarrow> str option" where
  "to_str (Unicode s) = Some s"
| "to_str (NonUnicode _) = None"

text \<open>\<open>path.file_name().unwrap().to_str().unwrap()\<close>.\<close>

definition path_name :: "path_buf \<Rightarrow> str res" where
  "path_name p = bind_r (unwrap (file_name p)) (\<lambda>s. unwrap (to_str s))"

section \<open>The data\<close>

datatype FileType = Regular path_buf | Buffer str "u8 list"

record FileEntry =
  file_type :: FileType
  fe_size :: nat
  fe_lba :: nat
  aligned_size :: nat

datatype DirectoryEntry = DirectoryEntry
  (path_table_index: nat)
  (parent_index: nat)
  (path: path_buf)
  (dir_childs: "DirectoryEntry list")
  (files_childs: "FileEntry list")
  (continuation_area: "u8 list option")
  (de_lba: nat)

record fs_meta =
  is_dir :: bool
  is_file :: bool
  meta_len :: nat

text \<open>
  The file system: \<open>Path::metadata\<close> (which follows symbolic links), \<open>DirEntry::metadata\<close> (which does not),
  \<open>read_dir\<close> and \<open>open\<close> of a path, \<open>None\<close> for an error of the operating system, and whether \<open>create\<close> succeeds.
\<close>

record fs =
  fs_metadata :: "path_buf \<Rightarrow> fs_meta option"
  fs_entry_metadata :: "path_buf \<Rightarrow> fs_meta option"
  fs_read_dir :: "path_buf \<Rightarrow> path_buf list option"
  fs_open :: "path_buf \<Rightarrow> u8 list option"
  fs_create :: "path_buf \<Rightarrow> bool"

section \<open>File entries\<close>

fun file_type_name :: "FileType \<Rightarrow> str res" where
  "file_type_name (Regular p) = path_name p"
| "file_type_name (Buffer name _) = Inr name"

definition fe_get_file_name :: "FileEntry \<Rightarrow> str res" where
  "fe_get_file_name e = file_type_name (file_type e)"

fun file_type_content :: "fs \<Rightarrow> FileType \<Rightarrow> u8 list res" where
  "file_type_content fsys (Regular p) = unwrap (fs_open fsys p)"
| "file_type_content fsys (Buffer _ content) = Inr content"

definition open_content_provider :: "fs \<Rightarrow> FileEntry \<Rightarrow> u8 list res" where
  "open_content_provider fsys e = file_type_content fsys (file_type e)"

definition fe_get_entry_size :: "FileEntry \<Rightarrow> nat res" where
  "fe_get_entry_size e =
     bind_r (fe_get_file_name e) (\<lambda>name. get_entry_size (0x21 + 2) name 0 1)"

definition fe_update :: "FileEntry \<Rightarrow> FileEntry res" where
  "fe_update e =
     (case file_type e of
        Buffer _ content \<Rightarrow>
          let sz = length content in
          bind_r (align_up_i32 (as_i32 sz) 2048) (\<lambda>a.
            Inr (e\<lparr>fe_size := sz, aligned_size := i32_as_usize a\<rparr>))
      | Regular _ \<Rightarrow> Inl (Panic (ExplicitPanic ''not implemented'')))"

definition new_buffered :: "str \<Rightarrow> FileEntry" where
  "new_buffered name = \<lparr>file_type = Buffer name [], fe_size = 0, fe_lba = 0, aligned_size = 0\<rparr>"

section \<open>Parts of a record\<close>

text \<open>
  The room left in the current block, and the zeros that move a record to the next block when it does not
  fit; both writers of a record begin with them.
\<close>

definition block_room :: "out_file \<Rightarrow> int res" where
  "block_room f =
     (let current_pos = as_i32 (fpos f) in
      bind_r (align_up_i32 current_pos 2048) (\<lambda>expected_aligned_pos.
        chk_i32 (expected_aligned_pos - current_pos)))"

definition pad_record :: "int \<Rightarrow> int \<Rightarrow> out_file \<Rightarrow> out_file res" where
  "pad_record file_entry_size diff_size f =
     (if diff_size < file_entry_size \<and> diff_size \<noteq> 0
      then write_all (replicate (i32_as_usize diff_size) 0) f else Inr f)"

definition write_now :: "deps \<Rightarrow> out_file \<Rightarrow> out_file res" where
  "write_now dp f =
     (let record_datetime = now dp (ticks f) in
      run [write_u8 dp (nat ((dt_year record_datetime - 1900) mod 256)),
           write_u8 dp (as_u8 (dt_month record_datetime)),
           write_u8 dp (as_u8 (dt_day record_datetime)),
           write_u8 dp (as_u8 (dt_hour record_datetime)),
           write_u8 dp (as_u8 (dt_minute record_datetime)),
           write_u8 dp (as_u8 (dt_second record_datetime)),
           write_u8 dp 0] (tick f))"

definition write_px :: "deps \<Rightarrow> nat \<Rightarrow> nat \<Rightarrow> out_file \<Rightarrow> out_file res" where
  "write_px dp mode serial =
     run [write_all (ascii ''PX''), write_u8 dp 0x2c, write_u8 dp 0x1,
          both_u32 dp mode, both_u32 dp 0x1, both_u32 dp 0x0, both_u32 dp 0x0, both_u32 dp serial]"

definition write_nm :: "deps \<Rightarrow> str \<Rightarrow> out_file \<Rightarrow> out_file res" where
  "write_nm dp name =
     run [write_all (ascii ''NM''),
          (\<lambda>f. bind_r (chk 8 (0x5 + as_u8 (length name))) (\<lambda>n. write_u8 dp n f)),
          write_u8 dp 0x1, write_u8 dp 0x0, write_all name]"

definition assert_record_end :: "int \<Rightarrow> int \<Rightarrow> out_file \<Rightarrow> out_file res" where
  "assert_record_end old_pos file_entry_size f =
     (let new_pos = as_i32 (fpos f) in
      bind_r (chk_i32 (old_pos + file_entry_size)) (\<lambda>e.
      bind_r (assert_r (e = new_pos)) (\<lambda>_. Inr f)))"

section \<open>Writing a file record\<close>

definition fe_write_entry :: "deps \<Rightarrow> FileEntry \<Rightarrow> out_file \<Rightarrow> out_file res" where
  "fe_write_entry dp e f0 =
     bind_r (block_room f0) (\<lambda>diff_size.
     bind_r (fe_get_entry_size e) (\<lambda>sz.
     let file_entry_size = as_i32 sz in
     bind_r (pad_record file_entry_size diff_size f0) (\<lambda>f1.
     let old_pos = as_i32 (fpos f1) in
     bind_r (fe_get_file_name e) (\<lambda>name.
     bind_r (convert_name name) (\<lambda>file_identifier.
     let file_identifier_len = length file_identifier + 2 in
     run [write_u8 dp (as_u8 sz),
          write_u8 dp 0,
          both_u32 dp (fe_lba e),
          both_u32 dp (as_u32 (fe_size e)),
          write_now dp,
          write_u8 dp 0,
          write_u8 dp 0,
          write_u8 dp 0,
          both_u16 dp 1,
          write_u8 dp (as_u8 file_identifier_len),
          write_all file_identifier,
          write_all (ascii '';1''),
          (if file_identifier_len mod 2 = 0 then write_u8 dp 0 else Inr),
          write_px dp 33188 (fe_lba e),
          write_nm dp name,
          assert_record_end old_pos file_entry_size] f1)))))"

section \<open>Sizes of directory records and extents\<close>

definition de_get_file_name :: "DirectoryEntry \<Rightarrow> str res" where
  "de_get_file_name d = path_name (path d)"

definition de_get_entry_size :: "nat \<Rightarrow> DirectoryEntry \<Rightarrow> nat res" where
  "de_get_entry_size directory_type d =
     bind_r (de_get_file_name d) (\<lambda>name. get_entry_size 0x21 name directory_type 1)"

text \<open>One step of the loops of \<open>get_extent_size_in_lb\<close>, on the pair of \<open>res\<close> and \<open>size\<close>.\<close>

definition extent_step :: "nat \<Rightarrow> nat \<times> nat \<Rightarrow> (nat \<times> nat) res" where
  "extent_step entry_size s =
     (case s of (blocks, sz) \<Rightarrow>
        bind_r (align_up_i32 (as_i32 sz) 2048) (\<lambda>expected_aligned_size.
        bind_r (chk_i32 (expected_aligned_size - as_i32 sz)) (\<lambda>available_size_in_lb.
        if available_size_in_lb < as_i32 entry_size \<and> available_size_in_lb \<noteq> 0 then
          bind_r (chk 32 (blocks + 1)) (\<lambda>b. Inr (b, entry_size))
        else bind_r (chk 32 (sz + entry_size)) (\<lambda>n. Inr (blocks, n)))))"

definition get_extent_size_in_lb :: "DirectoryEntry \<Rightarrow> nat res" where
  "get_extent_size_in_lb d =
     bind_r (de_get_entry_size 3 d) (\<lambda>a.
     bind_r (de_get_entry_size 2 d) (\<lambda>b.
     bind_r (chk 32 (a + b)) (\<lambda>sz.
     bind_r (fold_r (\<lambda>e s. bind_r (de_get_entry_size 0 e) (\<lambda>n. extent_step n s)) (dir_childs d) (1, sz)) (\<lambda>s.
     bind_r (fold_r (\<lambda>e s. bind_r (fe_get_entry_size e) (\<lambda>n. extent_step n s)) (files_childs d) s) (\<lambda>(blocks, _).
       Inr blocks)))))"

section \<open>Writing a directory record\<close>

text \<open>The SUSP fields of the root's \<open>.\<close> record.\<close>

definition write_susp_root :: "deps \<Rightarrow> DirectoryEntry \<Rightarrow> out_file \<Rightarrow> out_file res" where
  "write_susp_root dp d =
     run [write_all (ascii ''SP''), write_u8 dp 0x7, write_u8 dp 0x1, write_u8 dp 0xBE, write_u8 dp 0xEF,
          write_u8 dp 0x0,
          (case continuation_area d of
             None \<Rightarrow> Inr
           | Some area \<Rightarrow>
               run [write_all (ascii ''CE''), write_u8 dp 0x1c, write_u8 dp 0x1,
                    (\<lambda>f. bind_r (get_extent_size_in_lb d) (\<lambda>n.
                         bind_r (chk 32 (de_lba d + n)) (\<lambda>x. both_u32 dp x f))),
                    both_u32 dp 0,
                    both_u32 dp (as_u32 (length area))])]"

definition de_write_entry :: "deps \<Rightarrow> nat \<Rightarrow> DirectoryEntry \<Rightarrow> out_file \<Rightarrow> out_file res" where
  "de_write_entry dp directory_type d f0 =
     bind_r (block_room f0) (\<lambda>diff_size.
     bind_r (de_get_entry_size directory_type d) (\<lambda>sz.
     let file_entry_size = as_i32 sz in
     bind_r (pad_record file_entry_size diff_size f0) (\<lambda>f1.
     let old_pos = as_i32 (fpos f1) in
     bind_r (de_get_file_name d) (\<lambda>name.
     bind_r (convert_name name) (\<lambda>file_name_fixed.
     let file_identifier =
           (if directory_type = 1 then [0]
            else if directory_type = 2 then [1]
            else if directory_type = 3 then [0]
            else if directory_type = 4 then [1]
            else if directory_type = 5 then [0]
            else file_name_fixed);
         file_identifier_len = length file_identifier
     in
     run [write_u8 dp (as_u8 sz),
          write_u8 dp 0,
          both_u32 dp (de_lba d),
          (\<lambda>f. bind_r (get_extent_size_in_lb d) (\<lambda>n.
               bind_r (chk 32 (n * LOGIC_SIZE)) (\<lambda>x. both_u32 dp x f))),
          write_now dp,
          write_u8 dp 2,
          write_u8 dp 0,
          write_u8 dp 0,
          both_u16 dp 1,
          write_u8 dp (as_u8 file_identifier_len),
          write_all file_identifier,
          (if file_identifier_len mod 2 = 0 then write_u8 dp 0 else Inr),
          (if directory_type = 3 then write_susp_root dp d else Inr),
          (if directory_type < 5 then
             (\<lambda>f. bind_r (chk 32 (de_lba d + path_table_index d)) (\<lambda>serial. write_px dp 16877 serial f))
           else Inr),
          (if directory_type = 0 then write_nm dp name else Inr),
          assert_record_end old_pos file_entry_size] f1)))))"

definition write_as_current :: "deps \<Rightarrow> DirectoryEntry \<Rightarrow> nat \<Rightarrow> out_file \<Rightarrow> out_file res" where
  "write_as_current dp d directory_type = de_write_entry dp directory_type d"

definition write_as_parent :: "deps \<Rightarrow> DirectoryEntry \<Rightarrow> out_file \<Rightarrow> out_file res" where
  "write_as_parent dp d = de_write_entry dp 2 d"

definition write_one :: "deps \<Rightarrow> DirectoryEntry \<Rightarrow> out_file \<Rightarrow> out_file res" where
  "write_one dp d = de_write_entry dp 0 d"

section \<open>The bytes of a record\<close>

definition room :: "nat \<Rightarrow> nat" where
  "room p = round_up 2048 p - p"

definition record_gap :: "nat \<Rightarrow> nat \<Rightarrow> nat" where
  "record_gap p n = (if room p < n then room p else 0)"

definition date_bytes :: "date_time \<Rightarrow> u8 list" where
  "date_bytes dt =
     [word_of_nat (nat ((dt_year dt - 1900) mod 256)), word_of_nat (dt_month dt), word_of_nat (dt_day dt),
      word_of_nat (dt_hour dt), word_of_nat (dt_minute dt), word_of_nat (dt_second dt), 0]"

definition px_bytes :: "nat \<Rightarrow> nat \<Rightarrow> u8 list" where
  "px_bytes mode serial =
     ascii ''PX'' @ [0x2c, 1] @ both_bytes 4 mode @ both_bytes 4 1 @ both_bytes 4 0 @ both_bytes 4 0
       @ both_bytes 4 serial"

definition nm_bytes :: "str \<Rightarrow> u8 list" where
  "nm_bytes name = ascii ''NM'' @ [word_of_nat (5 + length name), 1, 0] @ name"

definition file_record :: "FileEntry \<Rightarrow> str \<Rightarrow> date_time \<Rightarrow> u8 list" where
  "file_record e name dt =
     (let ident = short_name name @ ascii '';1'' in
      [word_of_nat (0x23 + pad_len 1 (length (short_name name)) + 0x31 + length name), 0]
        @ both_bytes 4 (fe_lba e) @ both_bytes 4 (as_u32 (fe_size e)) @ date_bytes dt @ [0, 0, 0]
        @ both_bytes 2 1 @ [word_of_nat (length ident)] @ ident
        @ (if even (length ident) then [0] else []) @ px_bytes 33188 (fe_lba e) @ nm_bytes name)"

lemma bytes_lengths [simp]:
  "length (date_bytes dt) = 7" "length (px_bytes mode serial) = 44" "length (nm_bytes name) = 5 + length name"
  by (simp_all add: date_bytes_def px_bytes_def nm_bytes_def)

lemma pad_len_odd: "pad_len 1 n = n + (if even n then 1 else 0)"
  by (auto simp: pad_len_def odd_iff_mod_2_eq_one)

lemma file_record_length:
  "length (file_record e name dt) = 0x23 + pad_len 1 (length (short_name name)) + 0x31 + length name"
  by (simp add: file_record_def Let_def pad_len_odd del: One_nat_def)

lemma block_room_eq:
  "fpos f + 2048 \<le> 2147483648 \<Longrightarrow> block_room f = Inr (int (room (fpos f)))"
proof -
  assume a: "fpos f + 2048 \<le> 2147483648"
  have b: "fpos f \<le> round_up 2048 (fpos f)" "round_up 2048 (fpos f) < fpos f + 2048"
    using round_up_bounds [of 2048 "fpos f"] by simp_all
  with a show ?thesis by (simp add: block_room_def align_up_i32_block chk_i32_def room_def of_nat_diff)
qed

lemma room_less: "room p < 2048"
  using round_up_bounds [of 2048 p] by (simp add: room_def)

lemma pad_record_eq:
  "pad_record (int n) (int (room p)) f = Inr (put (replicate (record_gap p n) 0) f)"
proof -
  have "i32_as_usize (int (room p)) = room p" using room_less [of p] by simp
  then show ?thesis by (auto simp: pad_record_def record_gap_def)
qed

lemma record_gap_less: "record_gap p n < 2048"
  using room_less [of p] by (simp add: record_gap_def)

lemma word_of_nat_as_u8: "(word_of_nat (as_u8 x) :: u8) = word_of_nat x" "as_u8 x < 256"
proof -
  have "unat (word_of_nat (as_u8 x) :: u8) = unat (word_of_nat x :: u8)"
    by (simp add: as_u8_def unat_of_nat take_bit_eq_mod)
  then show "(word_of_nat (as_u8 x) :: u8) = word_of_nat x" by (rule unsigned_word_eqI)
qed (simp add: as_u8_def)

lemma write_now_eq:
  assumes "byteorder_ok dp"
  shows "write_now dp f = Inr (put (date_bytes (now dp (ticks f))) (tick f))"
proof -
  have y: "nat (x mod 256) < 256" for x :: int by (simp add: nat_less_iff)
  show ?thesis using assms by (simp add: write_now_def Let_def date_bytes_def word_of_nat_as_u8 y)
qed

lemma write_px_eq:
  assumes "byteorder_ok dp" "mode < 2 ^ 32" "serial < 2 ^ 32"
  shows "write_px dp mode serial f = Inr (put (px_bytes mode serial) f)"
  using assms by (simp add: write_px_def px_bytes_def)

lemma write_nm_eq:
  assumes "byteorder_ok dp" "length name \<le> 250"
  shows "write_nm dp name f = Inr (put (nm_bytes name) f)"
  using assms by (simp add: write_nm_def nm_bytes_def chk_def)

lemma as_u32_less: "as_u32 x < 4294967296"
  by (simp add: as_u32_def)

text \<open>
  The end of a record: the position is where the size says, because the record has that many bytes.
\<close>

lemma assert_record_end_ok:
  "p + n < 2147483648 \<Longrightarrow> fpos f = p + n \<Longrightarrow> assert_record_end (int p) (int n) f = Inr f"
  by (simp add: assert_record_end_def chk_i32_def)

lemma pad_byte_eq:
  "byteorder_ok dp \<Longrightarrow> (if n mod 2 = 0 then write_u8 dp 0 else Inr) f = Inr (put (if even n then [0] else []) f)"
  by (simp add: even_iff_mod_2_eq_zero)

lemma file_record_ops:
  assumes "byteorder_ok dp" "length ident + 2 < 256" "length name \<le> 250" "lba < 2 ^ 32"
  shows "run [write_u8 dp (as_u8 n), write_u8 dp 0, both_u32 dp lba, both_u32 dp (as_u32 sz), write_now dp,
          write_u8 dp 0, write_u8 dp 0, write_u8 dp 0, both_u16 dp 1,
          write_u8 dp (as_u8 (length ident + 2)), write_all ident, write_all (ascii '';1''),
          (if (length ident + 2) mod 2 = 0 then write_u8 dp 0 else Inr),
          write_px dp 33188 lba, write_nm dp name] f
    = Inr (put ([word_of_nat n, 0] @ both_bytes 4 lba @ both_bytes 4 (as_u32 sz)
        @ date_bytes (now dp (ticks f)) @ [0, 0, 0] @ both_bytes 2 1 @ [word_of_nat (length ident + 2)]
        @ ident @ ascii '';1'' @ (if even (length ident + 2) then [0] else []) @ px_bytes 33188 lba
        @ nm_bytes name) (tick f))"
  using assms
  by (simp add: word_of_nat_as_u8 as_u32_less write_now_eq write_nm_eq tick_put write_px_eq even_iff_mod_2_eq_zero)

lemma run_snoc: "run ops f = Inr f' \<Longrightarrow> op f' = r \<Longrightarrow> run (ops @ [op]) f = r"
  by (cases r) (simp_all add: run_append)

lemma run_trans: "run xs f = Inr f' \<Longrightarrow> run (xs @ ys) f = run ys f'"
  by (simp add: run_append)

lemma fe_write_entry_eq:
  assumes "byteorder_ok dp" "fe_get_file_name e = Inr name" "convert_name name = Inr ident"
    and "length name \<le> 250" "fe_lba e < 2 ^ 32" "fpos f + 4096 \<le> 2 ^ 31"
  shows "fe_get_entry_size e = Inr (length (file_record e name (now dp (ticks f))))"
    and "fe_write_entry dp e f =
      Inr (put (replicate (record_gap (fpos f) (length (file_record e name (now dp (ticks f))))) 0
        @ file_record e name (now dp (ticks f))) (tick f))"
proof -
  let ?dt = "now dp (ticks f)"
  let ?r = "file_record e name ?dt"
  let ?n = "length ?r"
  have id: "ident = short_name name" by (rule convert_name_short [OF assms(3)])
  have l: "length (short_name name) \<le> 12" by (rule short_name_length)
  have n: "?n = 0x23 + pad_len 1 (length (short_name name)) + 0x31 + length name"
    by (rule file_record_length)
  then have n4: "?n < 512" using l assms(4) by (simp add: pad_len_def)
  show sz: "fe_get_entry_size e = Inr ?n"
    using assms get_entry_size_cases(1) [of name ident "0x23" 1] n id by (simp add: fe_get_entry_size_def)
  let ?g = "record_gap (fpos f) ?n"
  let ?f1 = "put (replicate ?g 0) f"
  have g: "?g < 2048" by (rule record_gap_less)
  have br: "block_room f = Inr (int (room (fpos f)))" using assms(6) by (intro block_room_eq) simp
  have pos: "as_i32 (fpos ?f1) = int (fpos f + ?g)" "as_i32 ?n = int ?n" using g n4 assms(6) by simp_all
  have r: "[word_of_nat ?n, 0] @ both_bytes 4 (fe_lba e) @ both_bytes 4 (as_u32 (fe_size e)) @ date_bytes ?dt @ [0, 0, 0]
        @ both_bytes 2 1 @ [word_of_nat (length ident + 2)] @ ident @ ascii '';1''
        @ (if even (length ident + 2) then [0] else []) @ px_bytes 33188 (fe_lba e) @ nm_bytes name = ?r"
    unfolding n id by (simp add: file_record_def)
  have fin: "assert_record_end (int (fpos f + ?g)) (int ?n) (put ?r (tick ?f1)) = Inr (put (replicate ?g 0 @ ?r) (tick f))"
    using g n4 assms(6) by (subst assert_record_end_ok) (simp_all add: tick_put)
  have il: "length ident + 2 < 256" using l id by simp
  note w = file_record_ops [OF assms(1) il assms(4,5), of ?n "fe_size e" ?f1, unfolded put_simps r]
  show "fe_write_entry dp e f = Inr (put (replicate ?g 0 @ ?r) (tick f))"
    unfolding fe_write_entry_def br sz bind_r_simps Let_def pos(2) pad_record_eq assms(2,3) pos(1)
    using run_snoc [OF w, where op = "assert_record_end (int (fpos f + ?g)) (int ?n)", OF fin] by (simp only: append.simps)
qed

definition dir_ident :: "nat \<Rightarrow> str \<Rightarrow> str" where
  "dir_ident ty name = (if ty \<in> {1, 3, 5} then [0] else if ty \<in> {2, 4} then [1] else short_name name)"

definition susp_bytes :: "DirectoryEntry \<Rightarrow> nat \<Rightarrow> u8 list" where
  "susp_bytes d n =
     ascii ''SP'' @ [7, 1, 0xBE, 0xEF, 0]
       @ (case continuation_area d of None \<Rightarrow> []
          | Some area \<Rightarrow> ascii ''CE'' @ [0x1c, 1] @ both_bytes 4 (de_lba d + n) @ both_bytes 4 0
              @ both_bytes 4 (as_u32 (length area)))"

definition dir_tail :: "DirectoryEntry \<Rightarrow> str \<Rightarrow> nat \<Rightarrow> nat \<Rightarrow> u8 list" where
  "dir_tail d name ty n =
     (if ty = 3 then susp_bytes d n else [])
       @ (if ty < 5 then px_bytes 16877 (de_lba d + path_table_index d) else [])
       @ (if ty = 0 then nm_bytes name else [])"

definition dir_record_size :: "str \<Rightarrow> nat \<Rightarrow> nat" where
  "dir_record_size name ty =
     0x21 + pad_len 1 (length (dir_ident ty name)) + (if ty < 5 then 0x2c else 0)
       + (if ty = 0 then 5 + length name else 0) + (if ty = 3 then 0x23 else 0)"

definition dir_record :: "DirectoryEntry \<Rightarrow> str \<Rightarrow> nat \<Rightarrow> nat \<Rightarrow> date_time \<Rightarrow> u8 list" where
  "dir_record d name ty n dt =
     (let ident = dir_ident ty name in
      [word_of_nat (dir_record_size name ty), 0]
        @ both_bytes 4 (de_lba d) @ both_bytes 4 (n * 2048) @ date_bytes dt @ [2, 0, 0]
        @ both_bytes 2 1 @ [word_of_nat (length ident)] @ ident
        @ (if even (length ident) then [0] else []) @ dir_tail d name ty n)"

lemma susp_bytes_length: "continuation_area d \<noteq> None \<Longrightarrow> length (susp_bytes d n) = 0x23"
  by (auto simp: susp_bytes_def)

lemma dir_record_length:
  "(ty = 3 \<Longrightarrow> continuation_area d \<noteq> None) \<Longrightarrow> length (dir_record d name ty n dt) = dir_record_size name ty"
  by (auto simp: dir_record_def dir_record_size_def Let_def pad_len_odd dir_tail_def susp_bytes_length
      simp del: One_nat_def)

lemma dir_ident_length: "length (dir_ident ty name) \<le> 12"
  using short_name_length [of name] by (simp add: dir_ident_def)

lemma dir_record_size_bound: "length name \<le> 250 \<Longrightarrow> dir_record_size name ty < 512"
  using dir_ident_length [of ty name] by (auto simp: dir_record_size_def pad_len_def)

lemma de_get_entry_size_eq:
  assumes "de_get_file_name d = Inr name" "convert_name name = Inr ident" "length name \<le> 251"
    and "ty \<in> {0, 1, 2, 3, 5}"
  shows "de_get_entry_size ty d = Inr (dir_record_size name ty)"
proof -
  note c = get_entry_size_cases [where name = name and r = ident and base = "0x21" and p = 1, OF assms(3,2)]
  have "ident = short_name name" by (rule convert_name_short [OF assms(2)])
  with assms c show ?thesis
    by (auto simp: de_get_entry_size_def dir_record_size_def dir_ident_def)
qed

lemma write_susp_root_eq:
  assumes "byteorder_ok dp" "get_extent_size_in_lb d = Inr n" "de_lba d + n < 2 ^ 32"
  shows "write_susp_root dp d f = Inr (put (susp_bytes d n) f)"
  using assms
  by (simp add: write_susp_root_def susp_bytes_def chk_ok as_u32_less split: option.splits)

lemma dir_record_ops:
  assumes "byteorder_ok dp" "length ident < 256" "length name \<le> 250" "de_lba d < 2 ^ 32"
    and "get_extent_size_in_lb d = Inr n" "n * 2048 < 2 ^ 32" "de_lba d + n < 2 ^ 32"
    and "de_lba d + path_table_index d < 2 ^ 32"
  shows "run [write_u8 dp (as_u8 sz), write_u8 dp 0, both_u32 dp (de_lba d),
          (\<lambda>f. bind_r (get_extent_size_in_lb d) (\<lambda>n.
               bind_r (chk 32 (n * LOGIC_SIZE)) (\<lambda>x. both_u32 dp x f))),
          write_now dp, write_u8 dp 2, write_u8 dp 0, write_u8 dp 0, both_u16 dp 1,
          write_u8 dp (as_u8 (length ident)), write_all ident,
          (if length ident mod 2 = 0 then write_u8 dp 0 else Inr),
          (if ty = 3 then write_susp_root dp d else Inr),
          (if ty < 5 then
             (\<lambda>f. bind_r (chk 32 (de_lba d + path_table_index d)) (\<lambda>serial. write_px dp 16877 serial f))
           else Inr),
          (if ty = 0 then write_nm dp name else Inr)] f
    = Inr (put ([word_of_nat sz, 0] @ both_bytes 4 (de_lba d) @ both_bytes 4 (n * 2048)
        @ date_bytes (now dp (ticks f)) @ [2, 0, 0] @ both_bytes 2 1 @ [word_of_nat (length ident)]
        @ ident @ (if even (length ident) then [0] else []) @ dir_tail d name ty n) (tick f))"
proof -
  have t: "run [(if ty = 3 then write_susp_root dp d else Inr),
      (if ty < 5 then
         (\<lambda>f. bind_r (chk 32 (de_lba d + path_table_index d)) (\<lambda>serial. write_px dp 16877 serial f))
       else Inr),
      (if ty = 0 then write_nm dp name else Inr)] g = Inr (put (dir_tail d name ty n) g)" for g
    using assms by (auto simp: dir_tail_def write_susp_root_eq write_px_eq write_nm_eq chk_ok)
  have h: "run [write_u8 dp (as_u8 sz), write_u8 dp 0, both_u32 dp (de_lba d),
          (\<lambda>f. bind_r (get_extent_size_in_lb d) (\<lambda>n.
               bind_r (chk 32 (n * LOGIC_SIZE)) (\<lambda>x. both_u32 dp x f))),
          write_now dp, write_u8 dp 2, write_u8 dp 0, write_u8 dp 0, both_u16 dp 1,
          write_u8 dp (as_u8 (length ident)), write_all ident,
          (if length ident mod 2 = 0 then write_u8 dp 0 else Inr)] f
      = Inr (put ([word_of_nat sz, 0] @ both_bytes 4 (de_lba d) @ both_bytes 4 (n * 2048)
        @ date_bytes (now dp (ticks f)) @ [2, 0, 0] @ both_bytes 2 1 @ [word_of_nat (length ident)]
        @ ident @ (if even (length ident) then [0] else [])) (tick f))"
    using assms
    by (simp add: word_of_nat_as_u8 write_now_eq tick_put chk_ok even_iff_mod_2_eq_zero)
  show ?thesis
    using run_trans [OF h, of "[(if ty = 3 then write_susp_root dp d else Inr),
      (if ty < 5 then
         (\<lambda>f. bind_r (chk 32 (de_lba d + path_table_index d)) (\<lambda>serial. write_px dp 16877 serial f))
       else Inr),
      (if ty = 0 then write_nm dp name else Inr)]"]
    by (simp only: append.simps t put_put append_assoc)
qed

lemma de_write_entry_eq:
  assumes "byteorder_ok dp" "de_get_file_name d = Inr name" "convert_name name = Inr ident"
    and "length name \<le> 250" "de_lba d < 2 ^ 32" "fpos f + 4096 \<le> 2 ^ 31"
    and "get_extent_size_in_lb d = Inr n" "n * 2048 < 2 ^ 32" "de_lba d + n < 2 ^ 32"
    and "de_lba d + path_table_index d < 2 ^ 32"
    and ty: "ty \<in> {0, 1, 2, 3, 5}" "ty = 3 \<longrightarrow> continuation_area d \<noteq> None"
  shows "de_write_entry dp ty d f =
      Inr (put (replicate (record_gap (fpos f) (dir_record_size name ty)) 0
        @ dir_record d name ty n (now dp (ticks f))) (tick f))"
proof -
  let ?n = "dir_record_size name ty" and ?r = "dir_record d name ty n (now dp (ticks f))"
  let ?g = "record_gap (fpos f) ?n" and ?id = "dir_ident ty name"
  let ?f1 = "put (replicate ?g 0) f"
  have rl: "length ?r = ?n" using ty(2) by (intro dir_record_length) simp
  have n4: "?n < 512" by (rule dir_record_size_bound [OF assms(4)])
  have g: "?g < 2048" by (rule record_gap_less)
  have id: "(if ty = 1 then [0] else if ty = 2 then [1] else if ty = 3 then [0] else if ty = 4 then [1]
      else if ty = 5 then [0] else ident) = ?id"
    using convert_name_short [OF assms(3)] by (simp add: dir_ident_def)
  have br: "block_room f = Inr (int (room (fpos f)))" using assms(6) by (intro block_room_eq) simp
  have pos: "as_i32 (fpos ?f1) = int (fpos f + ?g)" "as_i32 ?n = int ?n" using g n4 assms(6) by simp_all
  have r: "[word_of_nat ?n, 0] @ both_bytes 4 (de_lba d) @ both_bytes 4 (n * 2048)
        @ date_bytes (now dp (ticks f)) @ [2, 0, 0] @ both_bytes 2 1 @ [word_of_nat (length ?id)]
        @ ?id @ (if even (length ?id) then [0] else []) @ dir_tail d name ty n = ?r"
    by (simp add: dir_record_def Let_def)
  have fin: "assert_record_end (int (fpos f + ?g)) (int ?n) (put ?r (tick ?f1)) = Inr (put (replicate ?g 0 @ ?r) (tick f))"
    using g n4 assms(6) rl by (subst assert_record_end_ok) (simp_all add: tick_put)
  have il: "length ?id < 256" using dir_ident_length [of ty name] by simp
  note w = dir_record_ops [OF assms(1) il assms(4,5,7,8,9,10), of ?n ty ?f1, unfolded put_simps r]
  have sz: "de_get_entry_size ty d = Inr ?n"
    using assms(4) by (intro de_get_entry_size_eq [OF assms(2,3) _ ty(1)]) simp
  show ?thesis
    unfolding de_write_entry_def br sz bind_r_simps Let_def pos(2) pad_record_eq assms(2,3) pos(1) id
    using run_snoc [OF w, where op = "assert_record_end (int (fpos f + ?g)) (int ?n)", OF fin]
    by (simp only: append.simps)
qed

section \<open>Reading a record back\<close>

text \<open>
  What a reader of the image does with a record (ECMA-119 9.1, IEEE P1282 4.1.4): length, extent, data
  length, flags and identifier at their fixed offsets, and the Rock Ridge name found by scanning the
  system use area.
\<close>

definition read_record :: "u8 list \<Rightarrow> nat \<times> nat \<times> nat \<times> u8 \<times> str" where
  "read_record r =
     (unat (r ! 0), le_val (bytes_at r 2 4), le_val (bytes_at r 10 4), r ! 25, bytes_at r 33 (unat (r ! 32)))"

definition system_use :: "u8 list \<Rightarrow> u8 list" where
  "system_use r = (let n = unat (r ! 32) in drop (33 + n + (if even n then 1 else 0)) r)"

function read_nm :: "u8 list \<Rightarrow> str option" where
  "read_nm su =
     (if length su < 5 then None
      else if take 2 su = ascii ''NM'' then Some (take (unat (su ! 2) - 5) (drop 5 su))
      else if su ! 2 = 0 then None
      else read_nm (drop (unat (su ! 2)) su))"
  by auto
termination
proof (relation "measure length")
  fix su :: "u8 list"
  assume "\<not> length su < 5" "su ! 2 \<noteq> 0"
  then show "(drop (unat (su ! 2)) su, su) \<in> measure length"
    by (simp add: unat_eq_0 [symmetric] del: unat_eq_0)
qed simp

declare read_nm.simps [simp del]

lemma both_bytes_value: "x < 256 ^ n \<Longrightarrow> le_val (take n (both_bytes n x)) = x"
  by (simp add: both_bytes_def le_val_le_bytes)

lemma room_eq: "room p = (if p mod 2048 = 0 then 0 else 2048 - p mod 2048)"
proof -
  obtain q r where p: "p = 2048 * q + r" "r < 2048" by (metis mod_less_divisor mult_div_mod_eq zero_less_numeral)
  then have "p mod 2048 = r" "(p + 2047) div 2048 = (if r = 0 then q else q + 1)" by auto
  with p show ?thesis by (auto simp: room_def round_up_def)
qed

lemma no_straddle:
  assumes "n \<le> 2048"
  shows "(p + record_gap p n) mod 2048 + n \<le> 2048"
proof (cases "room p < n")
  case True
  have "p + room p = round_up 2048 p" using round_up_bounds [of 2048 p] by (simp add: room_def)
  then have "(p + room p) mod 2048 = 0" by (simp add: round_up_def)
  with True assms show ?thesis by (simp add: record_gap_def)
next
  case False
  moreover have "p mod 2048 < 2048" by simp
  ultimately have "p mod 2048 + n \<le> 2048" by (auto simp: room_eq split: if_splits)
  with False show ?thesis by (simp add: record_gap_def)
qed

lemma read_nm_skip_px: "read_nm (px_bytes mode serial @ su) = read_nm su"
  by (subst read_nm.simps) (simp add: px_bytes_def ascii_def)

lemma read_nm_nm: "length name \<le> 250 \<Longrightarrow> read_nm (nm_bytes name) = Some name"
proof -
  assume "length name \<le> 250"
  then have "unat (word_of_nat (5 + length name) :: u8) = 5 + length name"
    by (simp only: unat_of_nat take_bit_eq_mod) simp
  moreover have "nm_bytes name ! 2 = word_of_nat (5 + length name)"
      "take 2 (nm_bytes name) = ascii ''NM''" "drop 5 (nm_bytes name) = name"
    by (simp_all add: nm_bytes_def ascii_def del: of_nat_add)
  ultimately show ?thesis by (subst read_nm.simps) simp
qed

lemma read_record_shape:
  assumes "r = [word_of_nat n, 0] @ both_bytes 4 a @ both_bytes 4 b @ date_bytes dt @ [fl, 0, 0]
      @ both_bytes 2 1 @ [word_of_nat (length ident)] @ ident @ (if even (length ident) then [0] else []) @ su"
    and "a < 2 ^ 32" "b < 2 ^ 32" "length ident < 256"
  shows "read_record r = (n mod 256, a, b, fl, ident)" "system_use r = su"
proof -
  let ?i = "ident @ (if even (length ident) then [0] else []) @ su"
  have r: "r = ([word_of_nat n, 0] @ both_bytes 4 a @ both_bytes 4 b @ date_bytes dt) @ fl # ([0, 0]
      @ both_bytes 2 1) @ word_of_nat (length ident) # ?i"
    by (simp add: assms(1))
  have i: "r ! 0 = word_of_nat n" "r ! 25 = fl" "r ! 32 = word_of_nat (length ident)" "drop 33 r = ?i"
    unfolding r by (simp_all add: nth_append)
  have b: "bytes_at r 2 4 = take 4 (both_bytes 4 a)" "bytes_at r 10 4 = take 4 (both_bytes 4 b)"
    unfolding r by (simp_all add: bytes_at_def)
  have v: "le_val (take 4 (both_bytes 4 a)) = a" "le_val (take 4 (both_bytes 4 b)) = b"
    using assms(2,3) by (simp_all add: both_bytes_value)
  have u: "unat (word_of_nat (length ident) :: u8) = length ident" "unat (word_of_nat n :: u8) = n mod 256"
    using assms(4) by (simp_all add: unat_of_nat take_bit_eq_mod)
  show "read_record r = (n mod 256, a, b, fl, ident)"
    by (simp add: read_record_def i(1-3) b v u) (simp add: bytes_at_def i)
  show "system_use r = su"
  proof -
    have "drop (33 + k) r = drop k ?i" for k by (metis i(4) drop_drop add.commute)
    then show ?thesis by (simp add: system_use_def Let_def i(3) u add.assoc)
  qed
qed

lemma file_record_read:
  assumes "fe_lba e < 2 ^ 32" "length name \<le> 250"
  shows "read_record (file_record e name dt)
      = (length (file_record e name dt) mod 256, fe_lba e, as_u32 (fe_size e), 0, short_name name @ ascii '';1'')"
    and "read_nm (system_use (file_record e name dt)) = Some name"
proof -
  let ?n = "0x23 + pad_len 1 (length (short_name name)) + 0x31 + length name"
  let ?id = "short_name name @ ascii '';1''" and ?su = "px_bytes 33188 (fe_lba e) @ nm_bytes name"
  have r: "file_record e name dt = [word_of_nat ?n, 0] @ both_bytes 4 (fe_lba e)
      @ both_bytes 4 (as_u32 (fe_size e)) @ date_bytes dt @ [0, 0, 0] @ both_bytes 2 1
      @ [word_of_nat (length ?id)] @ ?id @ (if even (length ?id) then [0] else []) @ ?su"
    by (simp only: file_record_def Let_def append_assoc append.simps)
  have "length ?id < 256" using short_name_length [of name] by simp
  note rr = read_record_shape [OF r assms(1) _ this]
  show "read_record (file_record e name dt)
      = (length (file_record e name dt) mod 256, fe_lba e, as_u32 (fe_size e), 0, ?id)"
    by (subst file_record_length, rule rr(1)) (simp add: as_u32_def)
  have "system_use (file_record e name dt) = ?su" by (rule rr(2)) (simp add: as_u32_def)
  then show "read_nm (system_use (file_record e name dt)) = Some name"
    by (simp only: read_nm_skip_px read_nm_nm [OF assms(2)])
qed

lemma dir_record_read:
  assumes "de_lba d < 2 ^ 32" "n * 2048 < 2 ^ 32"
  shows "read_record (dir_record d name ty n dt)
      = (dir_record_size name ty mod 256, de_lba d, n * 2048, 2, dir_ident ty name)"
    and "length name \<le> 250 \<Longrightarrow> read_nm (system_use (dir_record d name 0 n dt)) = Some name"
proof -
  have r: "dir_record d name ty n dt = [word_of_nat (dir_record_size name ty), 0]
        @ both_bytes 4 (de_lba d) @ both_bytes 4 (n * 2048) @ date_bytes dt @ [2, 0, 0]
        @ both_bytes 2 1 @ [word_of_nat (length (dir_ident ty name))] @ dir_ident ty name
        @ (if even (length (dir_ident ty name)) then [0] else []) @ dir_tail d name ty n" for ty
    by (simp only: dir_record_def Let_def)
  have l: "length (dir_ident ty name) < 256" for ty using dir_ident_length [of ty name] by simp
  show "read_record (dir_record d name ty n dt)
      = (dir_record_size name ty mod 256, de_lba d, n * 2048, 2, dir_ident ty name)"
    by (rule read_record_shape(1) [OF r assms l])
  have "system_use (dir_record d name 0 n dt) = dir_tail d name 0 n"
    by (rule read_record_shape(2) [OF r assms l])
  then show "length name \<le> 250 \<Longrightarrow> read_nm (system_use (dir_record d name 0 n dt)) = Some name"
    by (simp add: dir_tail_def read_nm_skip_px read_nm_nm)
qed

lemma bytes_at_put_tail:
  "bytes_at (fbytes (put (replicate g 0 @ r) f)) (fpos f + g) (length r) = r"
proof -
  have "overwrite (fbytes f) (fpos f) (replicate g 0 @ r) = overwrite (overwrite (fbytes f) (fpos f) (replicate g 0)) (fpos f + g) r"
    using overwrite_append [of "fbytes f" "fpos f" "replicate g 0" r] by simp
  then show ?thesis by (simp add: bytes_at_overwrite_same)
qed

lemma put_before: "i < fpos f \<Longrightarrow> i < length (fbytes f) \<Longrightarrow> fbytes (put bs f) ! i = fbytes f ! i"
  by (subst put_simps(3), subst overwrite_nth) (auto simp: overwrite_length)

section \<open>Properties\<close>

text \<open>
  C23: writing the directory record of a file succeeds for every name of at most 250 bytes that
  \<open>convert_name\<close> accepts: the final assertion holds, the record has exactly the size
  \<open>get_entry_size\<close> announces, it does not cross a block boundary, what was written before is kept, and a
  reader finds the file's block, its size, its 8.3 identifier and its full name in it.
\<close>
theorem file_entry_written:
  assumes "byteorder_ok dp" "fe_get_file_name e = Inr name" "convert_name name = Inr ident"
    and "length name \<le> 250" "fe_lba e < 2 ^ 32" "fpos f + 4096 \<le> 2 ^ 31"
  shows "\<exists>f' n s r. fe_write_entry dp e f = Inr f' \<and> fe_get_entry_size e = Inr n
    \<and> fpos f \<le> s \<and> s \<le> fpos f + room (fpos f) \<and> fpos f' = s + n \<and> s mod 2048 + n \<le> 2048
    \<and> r = bytes_at (fbytes f') s n
    \<and> read_record r = (n mod 256, fe_lba e, as_u32 (fe_size e), 0, ident @ ascii '';1'')
    \<and> read_nm (system_use r) = Some name
    \<and> (\<forall>i < min (fpos f) (length (fbytes f)). fbytes f' ! i = fbytes f ! i)"
proof -
  let ?r = "file_record e name (now dp (ticks f))"
  let ?g = "record_gap (fpos f) (length ?r)"
  let ?f' = "put (replicate ?g 0 @ ?r) (tick f)"
  note w = fe_write_entry_eq [OF assms]
  have "bytes_at (fbytes ?f') (fpos f + ?g) (length ?r) = ?r"
    using bytes_at_put_tail [of ?g ?r "tick f"] by simp
  moreover have "length ?r \<le> 2048"
    using file_record_length [of e name "now dp (ticks f)"] short_name_length [of name] assms(4)
    by (simp add: pad_len_def)
  moreover have "ident = short_name name" by (rule convert_name_short [OF assms(3)])
  moreover have "\<forall>i < min (fpos f) (length (fbytes f)). fbytes ?f' ! i = fbytes f ! i"
    using put_before [of _ "tick f"] by simp
  ultimately show ?thesis
    using w file_record_read [OF assms(5,4)] no_straddle [of "length ?r" "fpos f"]
    by (intro exI [of _ ?f'] exI [of _ "length ?r"] exI [of _ "fpos f + ?g"] exI [of _ ?r])
      (simp add: record_gap_def)
qed

text \<open>
  Writing a directory record (a child, \<open>.\<close>, \<open>..\<close>, the root's \<open>.\<close> or the copy of the root in the
  primary descriptor) succeeds under the same conditions, provided that the root has its continuation
  area: the assertion holds, and a reader finds the directory's block, the length of its extent, the
  directory flag and the identifier.
\<close>
theorem directory_entry_written:
  assumes "byteorder_ok dp" "de_get_file_name d = Inr name" "convert_name name = Inr ident"
    and "length name \<le> 250" "de_lba d < 2 ^ 32" "fpos f + 4096 \<le> 2 ^ 31"
    and "get_extent_size_in_lb d = Inr n" "n * 2048 < 2 ^ 32" "de_lba d + n < 2 ^ 32"
    and "de_lba d + path_table_index d < 2 ^ 32"
    and "ty \<in> {0, 1, 2, 3, 5}" "ty = 3 \<longrightarrow> continuation_area d \<noteq> None"
  shows "\<exists>f' sz s r. de_write_entry dp ty d f = Inr f' \<and> de_get_entry_size ty d = Inr sz
    \<and> fpos f \<le> s \<and> s \<le> fpos f + room (fpos f) \<and> fpos f' = s + sz \<and> s mod 2048 + sz \<le> 2048
    \<and> r = bytes_at (fbytes f') s sz
    \<and> read_record r = (sz mod 256, de_lba d, n * 2048, 2, dir_ident ty name)
    \<and> (ty = 0 \<longrightarrow> read_nm (system_use r) = Some name)
    \<and> (\<forall>i < min (fpos f) (length (fbytes f)). fbytes f' ! i = fbytes f ! i)"
proof -
  let ?n = "dir_record_size name ty"
  let ?r = "dir_record d name ty n (now dp (ticks f))"
  let ?g = "record_gap (fpos f) ?n"
  let ?f' = "put (replicate ?g 0 @ ?r) (tick f)"
  have l: "length ?r = ?n" using assms(12) by (intro dir_record_length) simp
  then have "bytes_at (fbytes ?f') (fpos f + ?g) ?n = ?r"
    using bytes_at_put_tail [of ?g ?r "tick f"] by simp
  moreover have "?n \<le> 2048" using dir_record_size_bound [OF assms(4), of ty] by simp
  moreover have "de_get_entry_size ty d = Inr ?n"
    using assms(4) by (intro de_get_entry_size_eq [OF assms(2,3) _ assms(11)]) simp
  moreover have "\<forall>i < min (fpos f) (length (fbytes f)). fbytes ?f' ! i = fbytes f ! i"
    using put_before [of _ "tick f"] by simp
  ultimately show ?thesis
    using de_write_entry_eq [OF assms] dir_record_read [OF assms(5,8)] no_straddle [of ?n "fpos f"] l assms(4)
    by (intro exI [of _ ?f'] exI [of _ ?n] exI [of _ "fpos f + ?g"] exI [of _ ?r])
      (auto simp: record_gap_def)
qed

text \<open>
  The record length is stored in one byte without a check: for a name of 171 to 250 bytes the write
  succeeds but the length a reader finds is not the length of the record.
\<close>
theorem long_name_record_length:
  assumes "byteorder_ok dp" "fe_get_file_name e = Inr name" "convert_name name = Inr ident"
    and "171 \<le> length name" "length name \<le> 250" "fe_lba e < 2 ^ 32" "fpos f + 4096 \<le> 2 ^ 31"
  shows "\<exists>f' n s. fe_write_entry dp e f = Inr f' \<and> fe_get_entry_size e = Inr n \<and> fpos f' = s + n
    \<and> fst (read_record (bytes_at (fbytes f') s n)) < n"
proof -
  let ?r = "file_record e name (now dp (ticks f))"
  let ?g = "record_gap (fpos f) (length ?r)"
  let ?f' = "put (replicate ?g 0 @ ?r) (tick f)"
  have "bytes_at (fbytes ?f') (fpos f + ?g) (length ?r) = ?r"
    using bytes_at_put_tail [of ?g ?r "tick f"] by simp
  moreover have "255 < length ?r"
    using file_record_length [of e name "now dp (ticks f)"] assms(4)
    by (cases "length (short_name name)") (auto simp: pad_len_def)
  moreover from this have "length ?r mod 256 < length ?r"
    using mod_less_divisor [of 256 "length ?r"] by linarith
  ultimately show ?thesis
    using fe_write_entry_eq [OF assms(1,2,3,5,6,7)] file_record_read(1) [OF assms(6,5), of "now dp (ticks f)"]
    by (intro exI [of _ ?f'] exI [of _ "length ?r"] exI [of _ "fpos f + ?g"]) simp
qed

text \<open>For the witnesses: a file and a directory of the image.\<close>

definition sample_file :: "str \<Rightarrow> FileEntry" where
  "sample_file name = (new_buffered name)\<lparr>fe_lba := 30, fe_size := 100\<rparr>"

definition sample_dir :: "str \<Rightarrow> DirectoryEntry" where
  "sample_dir name = DirectoryEntry 1 0 [Normal (Unicode name)] [] [] (Some []) 24"

lemma sample_names [simp]:
  "fe_get_file_name (sample_file name) = Inr name" "de_get_file_name (sample_dir name) = Inr name"
  "fe_lba (sample_file name) = 30" "de_lba (sample_dir name) = 24" "path_table_index (sample_dir name) = 1"
  "continuation_area (sample_dir name) = Some []"
  by (simp_all add: sample_file_def sample_dir_def new_buffered_def fe_get_file_name_def de_get_file_name_def
      path_name_def file_name_def)

lemma sample_dir_extent:
  assumes "convert_name name = Inr ident" "length name \<le> 250"
  shows "get_extent_size_in_lb (sample_dir name) = Inr 1"
  using assms
  by (simp add: get_extent_size_in_lb_def de_get_entry_size_eq [of _ name ident] dir_record_size_def pad_len_def
      dir_ident_def chk_def) (simp add: sample_dir_def)

lemma ascii_repeat: "convert_name (replicate n 0x61) = Inr (short_name (replicate n 0x61))"
  by (rule convert_name_ascii) (simp add: in_set_replicate)

theorem file_entry_written_witness:
  "\<exists>f' r. fe_write_entry sample_deps (sample_file (ascii ''boot.catalog'')) file_create = Inr f'
     \<and> read_nm (system_use r) = Some (ascii ''boot.catalog'')"
proof -
  have "convert_name (ascii ''boot.catalog'') = Inr (short_name (ascii ''boot.catalog''))"
    by (rule convert_name_ascii) (simp add: ascii_def)
  from file_entry_written [OF sample_deps_ok(1) sample_names(1) this, of file_create] show ?thesis
    by (fastforce simp: file_create_def)
qed

theorem directory_entry_written_witness:
  "\<exists>f' r. de_write_entry sample_deps 3 (sample_dir (replicate 4 0x61)) file_create = Inr f'
     \<and> read_record r = (113, 24, 2048, 2, [0])"
proof -
  have s: "dir_record_size (replicate 4 0x61) 3 = 113"
    by (simp add: dir_record_size_def pad_len_def dir_ident_def)
  have e: "get_extent_size_in_lb (sample_dir (replicate 4 0x61)) = Inr 1"
    by (rule sample_dir_extent [OF ascii_repeat]) simp
  from directory_entry_written [OF sample_deps_ok(1) sample_names(2) ascii_repeat, of 4 file_create 1 3] e
    de_get_entry_size_eq [OF sample_names(2) ascii_repeat, of 4 3] s
  show ?thesis by (fastforce simp: file_create_def dir_ident_def)
qed

theorem long_name_record_length_witness:
  "\<exists>f' n s. fe_write_entry sample_deps (sample_file (replicate 200 0x61)) file_create = Inr f'
     \<and> fst (read_record (bytes_at (fbytes f') s n)) < n"
  using long_name_record_length [OF sample_deps_ok(1) sample_names(1) ascii_repeat, of 200 file_create]
  by (fastforce simp: file_create_def)

end
