(* ===== verification/Boot_Image.thy ===== *)
theory Boot_Image
  imports Packed Iso_Entry
begin

text \<open>
  \<open>boot_image_generator\<close>: \<open>src/main.rs\<close> packs the kernel and the drivers into \<open>boot_image.bin\<close>, and the crate
  \<open>boot_fs\<close> (\<open>src/lib.rs\<close>), linked into the loader and the kernel, reads it.

  The image is a 16-bit count, room for 64 headers of 26 bytes, and the files. The paths of the input files are
  constants of the build machine and an argument here; the operating system's files are the parameter
  \<open>fs\<close>. A \<open>write\<close> on the output file takes the whole buffer.
\<close>

section \<open>The reader\<close>

record FileHeader =
  fh_magic :: nat
  fh_name :: "u8 list"
  fh_file_offset :: nat
  fh_file_length :: nat

definition size_of_FileHeader :: nat where
  "size_of_FileHeader = 26"

definition file_header_of :: "u8 list \<Rightarrow> FileHeader" where
  "file_header_of bs =
     \<lparr>fh_magic = field bs 0 2, fh_name = bytes_at bs 2 16, fh_file_offset = field bs 18 4, fh_file_length = field bs 22 4\<rparr>"

definition header_name :: "FileHeader \<Rightarrow> str res" where
  "header_name h =
     (if utf8_valid (fh_name h) then Inr (fh_name h)
      else Inl (Panic (ExplicitPanic ''Unable to get string from file name!'')))"

text \<open>The iterator's \<open>base\<close> points into the image: the image and an offset.\<close>

record FileIterator =
  fi_image :: "u8 list"
  fi_base :: nat
  fi_index :: nat
  fi_size :: nat

definition file_iterator_next :: "FileIterator \<Rightarrow> (FileHeader option \<times> FileIterator) res" where
  "file_iterator_next it =
     (if fi_index it < fi_size it then
        bind_r (raw_bytes (fi_image it) (fi_base it + size_of_FileHeader * fi_index it) size_of_FileHeader) (\<lambda>bs.
          Inr (Some (file_header_of bs), it\<lparr>fi_index := fi_index it + 1\<rparr>))
      else Inr (None, it))"

text \<open>\<open>BootImageFS\<close> is a slice: the address of its first byte and its bytes.\<close>

record BootImageFS =
  bi_address :: nat
  bi_data :: "u8 list"

definition new_boot_image :: "nat \<Rightarrow> u8 list \<Rightarrow> BootImageFS" where
  "new_boot_image a data = \<lparr>bi_address = a, bi_data = data\<rparr>"

definition boot_files :: "BootImageFS \<Rightarrow> FileIterator res" where
  "boot_files b =
     bind_r (index_r (bi_data b) 0) (\<lambda>x.
     bind_r (index_r (bi_data b) 1) (\<lambda>y.
       Inr \<lparr>fi_image = bi_data b, fi_base = 2, fi_index = 0, fi_size = le_val [x, y]\<rparr>))"

definition boot_file_data :: "BootImageFS \<Rightarrow> FileHeader \<Rightarrow> u8 list res" where
  "boot_file_data b h =
     bind_r (chk 32 (fh_file_offset h + fh_file_length h)) (\<lambda>e. slice_r (bi_data b) (fh_file_offset h) e)"

definition boot_virtual_address :: "BootImageFS \<Rightarrow> nat res" where
  "boot_virtual_address b = bind_r (index_r (bi_data b) 0) (\<lambda>_. Inr (bi_address b))"

definition boot_len :: "BootImageFS \<Rightarrow> nat" where
  "boot_len b = length (bi_data b)"

section \<open>The generator\<close>

definition MAX_FILES :: nat where "MAX_FILES = 64"
definition HEADER_MAGIC :: nat where "HEADER_MAGIC = 0x6945"

text \<open>\<open>for b in p.iter().zip(name_arr.iter_mut())\<close>: the first 16 bytes, the rest stays zero.\<close>

definition name_arr :: "str \<Rightarrow> u8 list" where
  "name_arr p = take 16 p @ replicate (16 - length p) 0"

definition collect_header :: "fs \<Rightarrow> path_buf \<Rightarrow> nat \<Rightarrow> (FileHeader \<times> nat) res" where
  "collect_header fsys file_path offset =
     bind_r (expect ''Unable to open file for reading!'' (fs_open fsys file_path)) (\<lambda>_.
     bind_r (unwrap (fs_metadata fsys file_path)) (\<lambda>meta.
     let len = meta_len meta in
     bind_r (path_name file_path) (\<lambda>p.
     bind_r (chk 64 (offset + len)) (\<lambda>offset'.
       Inr (\<lparr>fh_magic = HEADER_MAGIC, fh_name = name_arr p, fh_file_offset = as_u32 offset,
             fh_file_length = as_u32 len\<rparr>, offset')))))"

definition header_bytes :: "FileHeader \<Rightarrow> u8 list" where
  "header_bytes h = le_bytes 2 (fh_magic h) @ fh_name h @ le_bytes 4 (fh_file_offset h) @ le_bytes 4 (fh_file_length h)"

definition copy_file :: "fs \<Rightarrow> path_buf \<times> FileHeader \<Rightarrow> out_file \<Rightarrow> out_file res" where
  "copy_file fsys x f =
     bind_r (expect ''Unable to open file for reading!'' (fs_open fsys (fst x))) (\<lambda>buf.
       run [seek_start (fh_file_offset (snd x)), write_all buf] f)"

definition boot_image_path :: path_buf where
  "boot_image_path = [Normal (Unicode (ascii ''boot_image.bin''))]"

definition boot_image_main :: "fs \<Rightarrow> path_buf list \<Rightarrow> out_file res" where
  "boot_image_main fsys files =
     bind_r (map_state (collect_header fsys) files (size_of_FileHeader * MAX_FILES + 4)) (\<lambda>(file_headers, _).
     if \<not> fs_create fsys boot_image_path then Inl (Panic (ExplicitPanic ''Unable to open file for writing!''))
     else
       run [write_all (le_bytes 2 (as_u16 (length file_headers))),
            fold_r (\<lambda>h. write_all (header_bytes h)) file_headers,
            fold_r (copy_file fsys) (zip files file_headers)] file_create)"

section \<open>The iterator\<close>

interpretation files: indexed_iterator file_iterator_next fi_index fi_size
  "\<lambda>it i. bind_r (raw_bytes (fi_image it) (fi_base it + size_of_FileHeader * i) size_of_FileHeader)
     (\<lambda>bs. Inr (file_header_of bs))"
  "\<lambda>it. it\<lparr>fi_index := fi_index it + 1\<rparr>"
  by unfold_locales (simp_all add: file_iterator_next_def bind_r_assoc)

section \<open>Round trip\<close>

lemma header_bytes_length: "length (fh_name h) = 16 \<Longrightarrow> length (header_bytes h) = 26"
  by (simp add: header_bytes_def)

lemma name_arr_length [simp]: "length (name_arr p) = 16"
  by (simp add: name_arr_def)

lemma file_header_of_bytes:
  assumes "length (fh_name h) = 16" "fh_magic h < 2 ^ 16" "fh_file_offset h < 2 ^ 32" "fh_file_length h < 2 ^ 32"
  shows "file_header_of (header_bytes h) = h"
proof -
  have "bytes_at (le_bytes k x) 0 k = le_bytes k x" for k x by simp
  with assms show ?thesis
    by (simp add: file_header_of_def header_bytes_def field_def le_val_le_bytes)
qed

text \<open>What the paths and the operating system have to provide: every input file opens, its announced length is that of its content.\<close>

definition input_ok :: "fs \<Rightarrow> (path_buf \<Rightarrow> str) \<Rightarrow> (path_buf \<Rightarrow> u8 list) \<Rightarrow> path_buf \<Rightarrow> bool" where
  "input_ok fsys nm content p \<longleftrightarrow>
     path_name p = Inr (nm p) \<and> fs_open fsys p = Some (content p)
     \<and> (\<exists>m. fs_metadata fsys p = Some m \<and> meta_len m = length (content p))"

primrec expected_headers :: "(path_buf \<Rightarrow> str) \<Rightarrow> (path_buf \<Rightarrow> u8 list) \<Rightarrow> path_buf list \<Rightarrow> nat \<Rightarrow> FileHeader list" where
  "expected_headers nm content [] off = []"
| "expected_headers nm content (p # ps) off =
     \<lparr>fh_magic = HEADER_MAGIC, fh_name = name_arr (nm p), fh_file_offset = off, fh_file_length = length (content p)\<rparr>
       # expected_headers nm content ps (off + length (content p))"

abbreviation total :: "(path_buf \<Rightarrow> u8 list) \<Rightarrow> path_buf list \<Rightarrow> nat" where
  "total content ps \<equiv> length (concat (map content ps))"

lemma collect_headers_eq:
  assumes "\<forall>p \<in> set ps. input_ok fsys nm content p" "off + total content ps < 2 ^ 32"
  shows "map_state (collect_header fsys) ps off = Inr (expected_headers nm content ps off, off + total content ps)"
  using assms
proof (induction ps arbitrary: off)
  case (Cons p ps)
  then have "off + length (content p) < 2 ^ 64" by simp
  with Cons.prems have "collect_header fsys p off = Inr (\<lparr>fh_magic = HEADER_MAGIC, fh_name = name_arr (nm p),
      fh_file_offset = off, fh_file_length = length (content p)\<rparr>, off + length (content p))"
    by (auto simp: collect_header_def input_ok_def Let_def chk_ok)
  with Cons show ?case by (simp add: add.assoc)
qed simp

lemma expected_headers_length [simp]: "length (expected_headers nm content ps off) = length ps"
  by (induction ps arbitrary: off) simp_all

lemma expected_headers_nth:
  "i < length ps \<Longrightarrow> expected_headers nm content ps off ! i =
     \<lparr>fh_magic = HEADER_MAGIC, fh_name = name_arr (nm (ps ! i)),
      fh_file_offset = off + total content (take i ps), fh_file_length = length (content (ps ! i))\<rparr>"
proof (induction ps arbitrary: off i)
  case (Cons p ps)
  then show ?case by (cases i) (simp_all add: add.assoc)
qed simp

lemma expected_headers_size: "r \<in> set (map header_bytes (expected_headers nm content ps off)) \<Longrightarrow> length r = 26"
  by (auto simp: in_set_conv_nth expected_headers_nth intro!: header_bytes_length)

lemma expected_headers_table:
  "length (concat (map header_bytes (expected_headers nm content ps off))) = 26 * length ps"
  using length_concat_uniform [of "map header_bytes (expected_headers nm content ps off)" 26] expected_headers_size
  by (metis expected_headers_length length_map)

lemma concat_split:
  assumes "i < length ps"
  shows "concat (map g ps) = concat (map g (take i ps)) @ g (ps ! i) @ concat (map g (drop (Suc i) ps))"
proof -
  have "map g ps = map g (take i ps) @ g (ps ! i) # map g (drop (Suc i) ps)"
    using id_take_nth_drop [OF assms] by (metis list.map(2) map_append)
  then show ?thesis by simp
qed

lemma write_headers_eq: "fold_r (\<lambda>h. write_all (header_bytes h)) hs f = Inr (put (concat (map header_bytes hs)) f)"
  by (induction hs arbitrary: f) simp_all

lemma copy_files_eq:
  assumes "\<forall>p \<in> set ps. input_ok fsys nm content p"
  shows "\<exists>f'. fold_r (copy_file fsys) (zip ps (expected_headers nm content ps off)) f = Inr f'
    \<and> fbytes f' = overwrite (fbytes f) off (concat (map content ps))"
  using assms
proof (induction ps arbitrary: f off)
  case (Cons p ps)
  let ?f1 = "put (content p) (f\<lparr>fpos := off\<rparr>)"
  have "copy_file fsys (p, h\<lparr>fh_file_offset := off\<rparr>) f = Inr ?f1" for h
    using Cons.prems by (simp add: copy_file_def input_ok_def seek_start_def)
  from this [of "\<lparr>fh_magic = HEADER_MAGIC, fh_name = name_arr (nm p), fh_file_offset = 0, fh_file_length = length (content p)\<rparr>"]
  obtain f' where "fold_r (copy_file fsys) (zip (p # ps) (expected_headers nm content (p # ps) off)) f = Inr f'"
      "fbytes f' = overwrite (fbytes ?f1) (off + length (content p)) (concat (map content ps))"
    using Cons.IH [of "off + length (content p)" ?f1] Cons.prems by auto
  then show ?case by (simp add: overwrite_append)
qed (simp add: overwrite_def)

text \<open>The image that results: count, headers, a gap of zeros up to the first file, the files one after the other.\<close>

lemma boot_image_bytes:
  assumes "\<forall>p \<in> set ps. input_ok fsys nm content p" "1668 + total content ps < 2 ^ 32" "length ps \<le> 64"
    and "0 < total content ps" "fs_create fsys boot_image_path"
  shows "\<exists>f. boot_image_main fsys ps = Inr f \<and> fbytes f = le_bytes 2 (length ps)
    @ concat (map header_bytes (expected_headers nm content ps 1668)) @ replicate (1666 - 26 * length ps) 0
    @ concat (map content ps)"
proof -
  let ?hs = "expected_headers nm content ps 1668"
  let ?f1 = "put (le_bytes 2 (length ps) @ concat (map header_bytes ?hs)) file_create"
  have len: "length (concat (map header_bytes ?hs)) = 26 * length ps"
    by (rule expected_headers_table)
  obtain f where f: "fold_r (copy_file fsys) (zip ps ?hs) ?f1 = Inr f"
      "fbytes f = overwrite (fbytes ?f1) 1668 (concat (map content ps))"
    using copy_files_eq [OF assms(1)] by blast
  have "boot_image_main fsys ps = Inr f"
    using f(1) collect_headers_eq [OF assms(1,2)] assms(3,5)
    by (simp add: boot_image_main_def size_of_FileHeader_def MAX_FILES_def write_headers_eq)
  moreover have "fbytes ?f1 = le_bytes 2 (length ps) @ concat (map header_bytes ?hs)"
    by (simp add: file_create_def overwrite_def)
  moreover have "concat (map content ps) \<noteq> []" using assms(4) by fastforce
  ultimately show ?thesis using f(2) len assms(3) by (simp add: overwrite_def)
qed

lemma boot_image_read:
  assumes "\<forall>p \<in> set ps. input_ok fsys nm content p" "1668 + total content ps < 2 ^ 32" "length ps \<le> MAX_FILES"
    and "0 < total content ps" "fs_create fsys boot_image_path"
  shows "\<exists>f it hs. boot_image_main fsys ps = Inr f \<and> boot_files (new_boot_image a (fbytes f)) = Inr it
    \<and> fi_size it = length ps
    \<and> drain file_iterator_next (Suc (length ps)) it = Inr (Some hs) \<and> length hs = length ps
    \<and> (\<forall>i < length ps. fh_magic (hs ! i) = HEADER_MAGIC \<and> fh_name (hs ! i) = name_arr (nm (ps ! i))
        \<and> boot_file_data (new_boot_image a (fbytes f)) (hs ! i) = Inr (content (ps ! i)))"
proof -
  let ?hs = "expected_headers nm content ps 1668"
  obtain f where f: "boot_image_main fsys ps = Inr f" "fbytes f = le_bytes 2 (length ps)
    @ concat (map header_bytes ?hs) @ replicate (1666 - 26 * length ps) 0 @ concat (map content ps)"
    using boot_image_bytes [OF assms(1,2) _ assms(4,5)] assms(3) by (auto simp: MAX_FILES_def)
  have n: "length ps < 65536" using assms(3) by (simp add: MAX_FILES_def)
  let ?it = "\<lparr>fi_image = fbytes f, fi_base = 2, fi_index = 0, fi_size = length ps\<rparr>"
  have l2: "le_bytes 2 (length ps) = [word_of_nat (length ps), word_of_nat (length ps div 256)]"
    by (simp add: le_bytes_def upt_rec)
  have it: "boot_files (new_boot_image a (fbytes f)) = Inr ?it"
    using n le_val_le_bytes [of 2 "length ps"] unfolding l2
    by (simp add: boot_files_def new_boot_image_def f(2) l2 index_r_def)
  have item: "bind_r (raw_bytes (fbytes f) (2 + size_of_FileHeader * i) size_of_FileHeader) (\<lambda>bs. Inr (file_header_of bs))
      = Inr (?hs ! i)" if "i < length ps" for i
  proof -
    have "raw_bytes (fbytes f) (2 + 26 * i) 26 = Inr (header_bytes (?hs ! i))"
      using raw_bytes_table [of i "map header_bytes ?hs" 26 "le_bytes 2 (length ps)"] expected_headers_size that
      by (simp add: f(2))
    moreover have "total content (take i ps) + length (content (ps ! i)) \<le> total content ps"
      using concat_split [OF that, of content] by simp
    ultimately show ?thesis
      using assms(2) that by (simp add: size_of_FileHeader_def expected_headers_nth HEADER_MAGIC_def file_header_of_bytes)
  qed
  have d: "drain file_iterator_next (Suc (length ps)) ?it = Inr (Some (map (\<lambda>i. ?hs ! i) [0..<length ps]))"
    using item by (subst files.drain_pure [where g = "\<lambda>i. ?hs ! i"]) simp_all
  have "boot_file_data (new_boot_image a (fbytes f)) (?hs ! i) = Inr (content (ps ! i))" if "i < length ps" for i
  proof -
    let ?pre = "le_bytes 2 (length ps) @ concat (map header_bytes ?hs) @ replicate (1666 - 26 * length ps) 0
        @ concat (map content (take i ps))"
    have c: "fbytes f = ?pre @ content (ps ! i) @ concat (map content (drop (Suc i) ps))"
      using concat_split [OF that, of content] by (simp add: f(2))
    have "length (concat (map header_bytes ?hs)) = 26 * length ps"
      by (rule expected_headers_table)
    then have l: "length ?pre = 1668 + total content (take i ps)"
      using assms(3) by (simp add: MAX_FILES_def)
    have "total content (take i ps) + length (content (ps ! i)) \<le> total content ps"
      using concat_split [OF that, of content] by simp
    then show ?thesis
      using slice_r_middle [of ?pre "content (ps ! i)" "concat (map content (drop (Suc i) ps))"] l assms(2) that
      by (simp only: boot_file_data_def new_boot_image_def BootImageFS.simps expected_headers_nth FileHeader.simps c)
        (simp add: chk_ok)
  qed
  with f(1) it d show ?thesis
    by (intro exI [of _ f] exI [of _ ?it] exI [of _ "map (\<lambda>i. ?hs ! i) [0..<length ps]"])
      (simp add: expected_headers_nth)
qed

text \<open>
  C14: packing at most 64 files (with some content, less than 4 GiB in all) and reading the image back:
  iterating over the image yields one header per file, in order, with the magic number and the first 16
  bytes of the name, and \<open>file_data\<close> of each header is the content of that file.
\<close>
theorem boot_image_roundtrip:
  assumes "\<forall>p \<in> set ps. input_ok fsys nm content p" "1668 + total content ps < 2 ^ 32" "length ps \<le> MAX_FILES"
    and "0 < total content ps" "fs_create fsys boot_image_path"
  shows "\<exists>f it hs. boot_image_main fsys ps = Inr f \<and> boot_files (new_boot_image a (fbytes f)) = Inr it
    \<and> drain file_iterator_next (Suc (length ps)) it = Inr (Some hs) \<and> length hs = length ps
    \<and> (\<forall>i < length ps. fh_magic (hs ! i) = HEADER_MAGIC \<and> fh_name (hs ! i) = name_arr (nm (ps ! i))
        \<and> boot_file_data (new_boot_image a (fbytes f)) (hs ! i) = Inr (content (ps ! i)))"
  using boot_image_read [OF assms] by metis

definition one_content :: fs where
  "one_content =
     \<lparr>fs_metadata = (\<lambda>p. Some \<lparr>is_dir = False, is_file = True, meta_len = 3\<rparr>),
      fs_entry_metadata = (\<lambda>p. Some \<lparr>is_dir = False, is_file = True, meta_len = 3\<rparr>), fs_read_dir = (\<lambda>p. None),
      fs_open = (\<lambda>p. Some [1, 2, 3]), fs_create = (\<lambda>p. True)\<rparr>"

theorem boot_image_roundtrip_witness:
  "\<exists>f it hs. boot_image_main one_content [[Normal (Unicode [0x6b])], [Normal (Unicode [0x64])]] = Inr f
     \<and> boot_files (new_boot_image 0 (fbytes f)) = Inr it \<and> drain file_iterator_next 3 it = Inr (Some hs)
     \<and> fh_name (hs ! 1) = 0x64 # replicate 15 0 \<and> boot_file_data (new_boot_image 0 (fbytes f)) (hs ! 1) = Inr [1, 2, 3]"
proof -
  let ?ps = "[[Normal (Unicode [0x6b])], [Normal (Unicode [0x64])]]"
  have "\<forall>p \<in> set ?ps. input_ok one_content (\<lambda>p. projr (path_name p)) (\<lambda>p. [1, 2, 3]) p"
    by (simp add: input_ok_def one_content_def path_name_def file_name_def)
  from boot_image_roundtrip [OF this, of 0] obtain f it hs where
    "boot_image_main one_content ?ps = Inr f" "boot_files (new_boot_image 0 (fbytes f)) = Inr it"
    and d: "drain file_iterator_next (Suc (length ?ps)) it = Inr (Some hs)"
    and h: "\<forall>i < length ?ps. fh_name (hs ! i) = name_arr (projr (path_name (?ps ! i)))
        \<and> boot_file_data (new_boot_image 0 (fbytes f)) (hs ! i) = Inr [1, 2, 3]"
    by (auto simp: MAX_FILES_def one_content_def)
  moreover have "Suc (length ?ps) = 3" by simp
  moreover have "fh_name (hs ! 1) = 0x64 # replicate 15 0"
      "boot_file_data (new_boot_image 0 (fbytes f)) (hs ! 1) = Inr [1, 2, 3]"
    using h [rule_format, of 1] by (simp_all add: name_arr_def path_name_def file_name_def)
  ultimately show ?thesis by metis
qed

end
