(* ===== verification/Loader.thy ===== *)
theory Loader
  imports Scheduler Boot_Image
begin

text \<open>
  \<open>kernel_loader/src/main.rs\<close>: the UEFI application that builds the address space of the kernel and jumps to it.

  \<open>run\<close> composes the components: the system table, the memory map and leaving the boot services, the frame allocator, the
  heap, the boot image, the ELF reader and \<open>kernel_from_elf\<close>. The closure at its start that would read the boot image from
  the boot volume is never called: the image is a static of the loader. Parameters, in \<open>loader_env\<close>: the page tables
  (\<open>paging\<close>), the hole list of the heap, the firmware, the descriptor table, the addresses of the copy of the level 4 table and of the
  statics \<open>STACK\<close> and \<open>TSS\<close>, and the boot image. Output on the serial port is left out, and so is the static \<open>KERNEL_MAP\<close>, which is
  written and never read.
\<close>

section \<open>State\<close>

record ('p, 'f, 'q, 'g, 't, 'h, 'd) loader_env =
  lo_pg :: "('p, 'f, 'q, 'g, 't) paging"
  lo_ho :: "'h hole_ops"
  lo_bs :: boot_services
  lo_gdt :: "'d gdt_ops"
  lo_stack :: nat
  lo_tss :: nat
  lo_set_virtual_address_map :: "nat \<Rightarrow> nat \<Rightarrow> nat \<Rightarrow> MemoryDescriptor list \<Rightarrow> nat"
  lo_mem_init :: "PageTableFrameAllocator \<Rightarrow> 't"
  lo_allocator :: "'t \<Rightarrow> PageTableFrameAllocator"
  lo_npt :: nat
  lo_translate_addr :: "'t \<Rightarrow> nat \<Rightarrow> nat option"
  kernel_bytes :: "nat \<times> u8 list"

record 'h KernelParameters =
  kp_memory_map :: "MemoryDescriptor list"
  kp_boot_image :: "nat \<times> nat"
  kp_frame_allocator :: PageTableFrameAllocator
  kp_system_table :: nat
  kp_heap :: "'h Heap"

text \<open>What the kernel is entered with: registers, address space, page tables and memory.\<close>

record ('t, 'h, 'd) handover =
  hv_parameters :: "'h KernelParameters"
  hv_rsp :: nat
  hv_rip :: nat
  hv_cr3 :: nat
  hv_segments :: "'d segments"
  hv_tables :: 't
  hv_ram :: memory

section \<open>Steps\<close>

text \<open>\<open>Box::new\<close> and the buffer of a \<open>Vec\<close>: a null pointer ends in \<open>alloc_error_handler\<close>.\<close>

definition heap_alloc :: "'h hole_ops \<Rightarrow> layout \<Rightarrow> 'h Heap \<Rightarrow> (nat \<times> 'h Heap) res" where
  "heap_alloc ho lay heap =
     bind_r (global_alloc ho lay heap) (\<lambda>(p, heap).
       if p = 0 then Inl (Panic (ExplicitPanic ''allocation error'')) else Inr (p, heap))"

text \<open>The first file of the boot image; every file has to have a valid name and to lie in the image.\<close>

definition find_kernel :: "BootImageFS \<Rightarrow> u8 list option res" where
  "find_kernel boot_image =
     bind_r (boot_files boot_image) (\<lambda>files.
       for_iter file_iterator_next (Suc (fi_size files)) (\<lambda>file image.
         bind_r (header_name file) (\<lambda>_.
         bind_r (boot_file_data boot_image file) (\<lambda>data.
           Inr (case image of None \<Rightarrow> Some data | Some exec_file \<Rightarrow> Some exec_file)))) files None)"

text \<open>Identity mapping of the pages of a runtime region; the result of \<open>identity_map\<close> is dropped.\<close>

definition map_runtime_page :: "('p, 'f, 'q, 'g, 't) paging \<Rightarrow> MemoryDescriptor \<Rightarrow> nat \<Rightarrow> 't \<Rightarrow> 't res" where
  "map_runtime_page pg desc i t =
     bind_r (chk 64 (i * 4096)) (\<lambda>b.
     bind_r (chk 64 (physical_address desc + b)) (\<lambda>a.
     bind_r (frame_containing (new_map pg) a) (\<lambda>frame.
     bind_r (identity_map (new_map pg) frame {PRESENT} t) (\<lambda>(_, t). Inr t))))"

definition map_runtime_desc ::
    "('p, 'f, 'q, 'g, 't) paging \<Rightarrow> MemoryDescriptor \<Rightarrow> 't \<Rightarrow> (MemoryDescriptor \<times> 't) res" where
  "map_runtime_desc pg desc t =
     (if is_runtime desc then
        bind_r (fold_r (map_runtime_page pg desc) [0..<page_count desc] t) (\<lambda>t.
          Inr (desc\<lparr>virtual_address := physical_address desc\<rparr>, t))
      else Inr (desc, t))"

definition share_heap_page :: "('p, 'f, 'q, 'g, 't) paging \<Rightarrow> 'p \<Rightarrow> 't \<Rightarrow> 't res" where
  "share_heap_page pg page t =
     (case translate_page (cur_map pg) t page of
        Some frame \<Rightarrow> expect_map ''unable to map heap!'' (map_to (new_map pg) page frame {WRITABLE, PRESENT} t)
      | None \<Rightarrow> Inr t)"

definition share_heap :: "('p, 'f, 'q, 'g, 't) paging \<Rightarrow> 't \<Rightarrow> 't res" where
  "share_heap pg t =
     bind_r (heap_range 0) (\<lambda>(s, e).
     bind_r (page_range (cur_map pg) s e) (\<lambda>pages. fold_r (share_heap_page pg) pages t))"

text \<open>\<open>RuntimeServices::set_virtual_address_map\<close>: sizes, version and map for the firmware.\<close>

definition set_virtual_address_map ::
    "(nat \<Rightarrow> nat \<Rightarrow> nat \<Rightarrow> MemoryDescriptor list \<Rightarrow> nat) \<Rightarrow> MemoryDescriptor list \<Rightarrow> nat \<Rightarrow> nat" where
  "set_virtual_address_map firmware mm mdesc_version =
     firmware (length mm * size_of_MemoryDescriptor) size_of_MemoryDescriptor mdesc_version mm"

section \<open>The loader\<close>

text \<open>From the first use of the page tables to the address space of the kernel.\<close>

definition build_kernel ::
    "('p, 'f, 'q, 'g, 't, 'h, 'd) loader_env \<Rightarrow> MemoryDescriptor list \<Rightarrow> nat \<Rightarrow> nat \<Rightarrow> 't \<times> memory \<times> nat
       \<Rightarrow> (Process \<times> nat \<times> 'h Heap \<times> 't \<times> memory \<times> nat) res" where
  "build_kernel env mm STACK_START STACK_END s =
     (case s of (t, phys, idindex) \<Rightarrow>
      bind_r (init_heap_new (lo_ho env) (cur_map (lo_pg env)) (alloc_frame (lo_pg env)) 0 False t (heap_empty (lo_ho env)))
        (\<lambda>(r, t, heap).
      case r of
        Inl _ \<Rightarrow> Inl (Panic (ExplicitPanic ''Unable to create heap!''))
      | Inr _ \<Rightarrow>
          bind_r (print_memory_map mm) (\<lambda>_.
          bind_r (find_kernel (new_boot_image (fst (kernel_bytes env)) (snd (kernel_bytes env)))) (\<lambda>image.
          bind_r (get_mem_size mm) (\<lambda>mem.
          bind_r (expect ''Unable to find kernel image!'' image) (\<lambda>elf.
          bind_r (heap_alloc (lo_ho env) \<lparr>l_size = 4096, l_align = 4096\<rparr> heap) (\<lambda>(address_space, heap).
          bind_r (kernel_from_elf (lo_pg env) mm elf STACK_START STACK_END mem (t, phys, idindex)) (\<lambda>(process, t, phys, idindex).
            Inr (process, address_space, heap, t, phys, idindex)))))))))"

text \<open>
  What is added to the kernel's address space, and the parameters. The memory map is an array of fixed length, so the vector that
  collects its entries is allocated once, with their number.
\<close>

definition hand_over ::
    "('p, 'f, 'q, 'g, 't, 'h, 'd) loader_env \<Rightarrow> MemoryDescriptor list \<Rightarrow> nat \<Rightarrow> Process \<Rightarrow> nat \<Rightarrow> 'h Heap \<Rightarrow> 't \<Rightarrow> memory \<Rightarrow> nat
       \<Rightarrow> 'd segments \<Rightarrow> ('t, 'h, 'd) handover res" where
  "hand_over env mm mdesc_version process address_space heap t phys GLOBAL_SYSTEM_TABLE segments =
     (let pg = lo_pg env; boot_image = new_boot_image (fst (kernel_bytes env)) (snd (kernel_bytes env)) in
      bind_r (table_frame (lo_translate_addr env t) address_space) (\<lambda>frame_address.
      bind_r (frame_containing (new_map pg) frame_address) (\<lambda>frame.
      bind_r (identity_map (new_map pg) frame {WRITABLE, PRESENT} t) (\<lambda>(_, t).
      bind_r (heap_alloc (lo_ho env) \<lparr>l_size = size_of_MemoryDescriptor * length mm, l_align = 8\<rparr> heap) (\<lambda>(_, heap).
      bind_r (map_state (map_runtime_desc pg) mm t) (\<lambda>(value, t).
      let res = set_virtual_address_map (lo_set_virtual_address_map env) value mdesc_version in
      bind_r (share_heap pg t) (\<lambda>t.
      bind_r (boot_virtual_address boot_image) (\<lambda>boot_address.
        Inr \<lparr>hv_parameters = \<lparr>kp_memory_map = value, kp_boot_image = (boot_address, boot_len boot_image),
                kp_frame_allocator = lo_allocator env t, kp_system_table = GLOBAL_SYSTEM_TABLE, kp_heap = heap\<rparr>,
             hv_rsp = stack_base process, hv_rip = process_entry process, hv_cr3 = frame_address,
             hv_segments = segments, hv_tables = t, hv_ram = phys\<rparr>))))))))"

definition loader_run ::
    "('p, 'f, 'q, 'g, 't, 'h, 'd) loader_env \<Rightarrow> nat \<Rightarrow> nat \<Rightarrow> nat \<Rightarrow> nat \<Rightarrow> 
       nat \<times> memory \<times> nat \<times> 'd segments \<Rightarrow> ('t, 'h, 'd) handover res" where
  "loader_run env STACK_START STACK_END image_handle system_table s =
     (case s of (GLOBAL_SYSTEM_TABLE, phys, idindex, segments) \<Rightarrow>
      case register_global_system_table GLOBAL_SYSTEM_TABLE system_table of
        (Inl _, _) \<Rightarrow> Inl (Panic UnwrapNone)
      | (Inr _, GLOBAL_SYSTEM_TABLE) \<Rightarrow>
          bind_r (get_memory_map (lo_bs env) image_handle DESCRIPTORS) (\<lambda>(mm, mdesc_version).
          bind_r (gdt_init (lo_gdt env) (lo_stack env) (lo_tss env) segments) (\<lambda>segments.
          if lo_npt env mod 4096 \<noteq> 0 then Inl (Panic (ExplicitPanic ''Unable to switch page table!''))
          else
            bind_r (build_kernel env mm STACK_START STACK_END (lo_mem_init env (new_allocator mm), phys, idindex))
              (\<lambda>(process, address_space, heap, t, phys, idindex).
                 hand_over env mm mdesc_version process address_space heap t phys GLOBAL_SYSTEM_TABLE segments))))"

end
