(* ===== verification/Bit_Field.thy ===== *)
theory Bit_Field
  imports Prelude
begin

text \<open>
  The crate \<open>bit_field\<close>, which \<open>interrupts.rs\<close> and \<open>pci.rs\<close> use on \<open>u32\<close>, as a parameter; \<open>bit_field_ok\<close> is its documented
  behaviour: the range is checked, \<open>set_bits\<close> panics when the value does not fit the range, and no bit
  outside the range changes.
\<close>

record bit_field =
  get_bit :: "u32 \<Rightarrow> nat \<Rightarrow> bool res"
  get_bits :: "u32 \<Rightarrow> nat \<Rightarrow> nat \<Rightarrow> u32 res"
  set_bit :: "u32 \<Rightarrow> nat \<Rightarrow> bool \<Rightarrow> u32 res"
  set_bits :: "u32 \<Rightarrow> nat \<Rightarrow> nat \<Rightarrow> u32 \<Rightarrow> u32 res"

text \<open>Inclusive ranges \<open>lo..=hi\<close>.\<close>

definition bit_field_ok :: "bit_field \<Rightarrow> bool" where
  "bit_field_ok bf \<longleftrightarrow>
     (\<forall>x n. n < 32 \<longrightarrow> get_bit bf x n = Inr (bit x n))
   \<and> (\<forall>x lo hi. lo \<le> hi \<and> hi < 32 \<longrightarrow> get_bits bf x lo hi = Inr (take_bit (hi + 1 - lo) (drop_bit lo x)))
   \<and> (\<forall>x n b. n < 32 \<longrightarrow> (\<exists>y. set_bit bf x n b = Inr y \<and> (\<forall>k. bit y k \<longleftrightarrow> (if k = n then b else bit x k))))
   \<and> (\<forall>x lo hi v. lo \<le> hi \<and> hi < 32 \<longrightarrow>
        (if unat v < 2 ^ (hi + 1 - lo)
         then \<exists>y. set_bits bf x lo hi v = Inr y \<and> (\<forall>k. bit y k \<longleftrightarrow> (if lo \<le> k \<and> k \<le> hi then bit v (k - lo) else bit x k))
         else set_bits bf x lo hi v = Inl (Panic AssertFailed)))"

definition plain_bit_field :: bit_field where
  "plain_bit_field =
     \<lparr>get_bit = (\<lambda>x n. Inr (bit x n)),
      get_bits = (\<lambda>x lo hi. Inr (take_bit (hi + 1 - lo) (drop_bit lo x))),
      set_bit = (\<lambda>x n b. Inr (if b then x OR push_bit n 1 else x AND NOT (push_bit n 1))),
      set_bits = (\<lambda>x lo hi v. if unat v < 2 ^ (hi + 1 - lo)
         then Inr ((x AND NOT (push_bit lo (mask (hi + 1 - lo)))) OR push_bit lo v) else Inl (Panic AssertFailed))\<rparr>"

lemma bit_beyond_value: "unat (v :: u32) < 2 ^ n \<Longrightarrow> n \<le> k \<Longrightarrow> \<not> bit v k"
proof -
  assume a: "unat v < 2 ^ n" "n \<le> k"
  then have "take_bit n (unat v) = unat v" by (simp add: take_bit_nat_eq_self)
  then have "\<not> bit (unat v) k" using a(2) by (metis bit_take_bit_iff not_le)
  then show ?thesis by (simp add: bit_unsigned_iff)
qed

lemma plain_bit_field_ok: "bit_field_ok plain_bit_field"
proof -
  have b: "bit x k \<Longrightarrow> k < 32" for x :: u32 and k using bit_imp_le_length [of x k] by simp
  have s: "\<exists>y. set_bits plain_bit_field x lo hi v = Inr y
      \<and> (\<forall>k. bit y k \<longleftrightarrow> (if lo \<le> k \<and> k \<le> hi then bit v (k - lo) else bit x k))"
    if "lo \<le> hi" "hi < 32" "unat v < 2 ^ (hi + 1 - lo)" for x v :: u32 and lo hi
    using that b bit_beyond_value [OF that(3)]
    by (auto simp: plain_bit_field_def bit_simps)
  show ?thesis
    unfolding bit_field_ok_def using s by (auto simp: plain_bit_field_def bit_simps dest: b)
qed

lemma set_bits_ok:
  assumes "bit_field_ok bf" "lo \<le> hi" "hi < 32" "unat v < 2 ^ (hi + 1 - lo)"
  shows "\<exists>y. set_bits bf x lo hi v = Inr y \<and> (\<forall>k. bit y k \<longleftrightarrow> (if lo \<le> k \<and> k \<le> hi then bit v (k - lo) else bit x k))"
proof -
  have "\<forall>x lo hi v. lo \<le> hi \<and> hi < 32 \<longrightarrow>
        (if unat v < 2 ^ (hi + 1 - lo)
         then \<exists>y. set_bits bf x lo hi v = Inr y \<and> (\<forall>k. bit y k \<longleftrightarrow> (if lo \<le> k \<and> k \<le> hi then bit v (k - lo) else bit x k))
         else set_bits bf x lo hi v = Inl (Panic AssertFailed))"
    using assms(1) unfolding bit_field_ok_def by (elim conjE)
  from this [rule_format, of lo hi v x] assms(2-4) show ?thesis by simp
qed

end
