(* ===== verification/Apic.thy ===== *)
theory Apic
  imports Bit_Field Mem
begin

text \<open>
  The interrupt controllers of \<open>kernel/src/interrupts.rs\<close>: \<open>LocalApic\<close>, \<open>RedirectionEntry\<close> and \<open>IOApic\<close>.

  A volatile access is an element of a trace; what a read returns is a parameter (\<open>dev\<close>, of the trace so far and
  the address). The ACPI tables are a parameter too: whether there is a MADT, and the address of the first I/O
  APIC in it. \<open>ioapic_device\<close> is the register window of the controller as its data sheet describes it, against which the
  writes are checked.
\<close>

section \<open>Memory-mapped registers\<close>

datatype access = Wr nat u32 | Rd nat

type_synonym trace = "access list"

section \<open>The local APIC\<close>

record LocalApic =
  la_base :: nat

definition lapic_new :: LocalApic where
  "lapic_new = \<lparr>la_base = 0xFEE00000\<rparr>"

definition lapic_write :: "nat \<Rightarrow> u32 \<Rightarrow> LocalApic \<Rightarrow> trace \<Rightarrow> trace" where
  "lapic_write offset v self t = t @ [Wr (la_base self + offset) v]"

definition lapic_read :: "(trace \<Rightarrow> nat \<Rightarrow> u32) \<Rightarrow> nat \<Rightarrow> LocalApic \<Rightarrow> trace \<Rightarrow> u32 \<times> trace" where
  "lapic_read dev offset self t = (dev t (la_base self + offset), t @ [Rd (la_base self + offset)])"

definition EOI :: nat where "EOI = 0xB0"
definition SIV :: nat where "SIV = 0xF0"
definition LVT_TIMER :: nat where "LVT_TIMER = 0x320"
definition INITCNT_TIMER :: nat where "INITCNT_TIMER = 0x380"
definition DCR_TIMER :: nat where "DCR_TIMER = 0x3E0"
definition TIMER_PERIODIC :: u32 where "TIMER_PERIODIC = 0x20000"

text \<open>All the register offsets of the local APIC, and that they are registers: 16 bytes apart at least, within the page that is mapped.\<close>

definition lapic_registers :: "(string \<times> nat) list" where
  "lapic_registers =
     [(''ID'', 0x20), (''VERSION'', 0x30), (''TPR'', 0x80), (''APR'', 0x90), (''PPR'', 0xA0), (''EOI'', EOI), (''RRD'', 0xC0), (''LDR'', 0xD0),
      (''DFR'', 0xE0), (''SIV'', SIV), (''ERROR_STATUS'', 0x280), (''LVT_TIMER'', LVT_TIMER), (''LVT_THERMAL'', 0x330), (''LVT_PMC'', 0x340),
      (''LVT_LINT0'', 0x350), (''LVT_LINT1'', 0x360), (''LVT_ERROR'', 0x370), (''INITCNT_TIMER'', INITCNT_TIMER), (''CURCNT_TIMER'', 0x390),
      (''DCR_TIMER'', DCR_TIMER)]"

lemma lapic_registers_apart:
  "sorted_wrt (\<lambda>(_, a) (_, b). a + 16 \<le> b) lapic_registers" "list_all (\<lambda>(_, a). 16 dvd a \<and> a + 4 \<le> 4096) lapic_registers"
  by (simp_all add: lapic_registers_def EOI_def SIV_def LVT_TIMER_def INITCNT_TIMER_def DCR_TIMER_def dvd_eq_mod_eq_0)

definition lapic_init :: "(trace \<Rightarrow> nat \<Rightarrow> u32) \<Rightarrow> nat \<Rightarrow> LocalApic \<Rightarrow> trace \<Rightarrow> LocalApic \<times> trace" where
  "lapic_init dev msr self t =
     (let self = self\<lparr>la_base := msr AND 0xFFFFFF000\<rparr>;
          (siv, t) = lapic_read dev SIV self t;
          t = lapic_write SIV (siv OR 0x1FF) self t;
          t = lapic_write LVT_TIMER (60 OR TIMER_PERIODIC) self t;
          t = lapic_write DCR_TIMER 3 self t;
          t = lapic_write INITCNT_TIMER 1000000 self t
      in (self, t))"

definition send_eoi :: "LocalApic \<Rightarrow> trace \<Rightarrow> trace" where
  "send_eoi self t = lapic_write EOI 0 self t"

section \<open>Redirection entries\<close>

record RedirectionEntry =
  low :: u32
  high :: u32

definition redirection_new :: RedirectionEntry where
  "redirection_new = \<lparr>low = 0, high = 0\<rparr>"

definition set_vector :: "bit_field \<Rightarrow> u8 \<Rightarrow> RedirectionEntry \<Rightarrow> RedirectionEntry res" where
  "set_vector bf v e = bind_r (set_bits bf (low e) 0 7 (ucast v)) (\<lambda>l. Inr (e\<lparr>low := l\<rparr>))"

definition set_delivery_mode :: "bit_field \<Rightarrow> u8 \<Rightarrow> RedirectionEntry \<Rightarrow> RedirectionEntry res" where
  "set_delivery_mode bf mode e = bind_r (set_bits bf (low e) 8 10 (ucast mode)) (\<lambda>l. Inr (e\<lparr>low := l\<rparr>))"

definition set_low_bit :: "bit_field \<Rightarrow> nat \<Rightarrow> u8 \<Rightarrow> RedirectionEntry \<Rightarrow> RedirectionEntry res" where
  "set_low_bit bf n x e = bind_r (set_bit bf (low e) n (x = 1)) (\<lambda>l. Inr (e\<lparr>low := l\<rparr>))"

definition set_destination_mode :: "bit_field \<Rightarrow> u8 \<Rightarrow> RedirectionEntry \<Rightarrow> RedirectionEntry res" where
  "set_destination_mode bf mode e = set_low_bit bf 11 mode e"

definition set_delivery_status :: "bit_field \<Rightarrow> u8 \<Rightarrow> RedirectionEntry \<Rightarrow> RedirectionEntry res" where
  "set_delivery_status bf status e = set_low_bit bf 12 status e"

definition set_polarity :: "bit_field \<Rightarrow> u8 \<Rightarrow> RedirectionEntry \<Rightarrow> RedirectionEntry res" where
  "set_polarity bf polarity e = set_low_bit bf 13 polarity e"

definition set_IRR :: "bit_field \<Rightarrow> u8 \<Rightarrow> RedirectionEntry \<Rightarrow> RedirectionEntry res" where
  "set_IRR bf irr e = set_low_bit bf 14 irr e"

definition set_trigger_mode :: "bit_field \<Rightarrow> u8 \<Rightarrow> RedirectionEntry \<Rightarrow> RedirectionEntry res" where
  "set_trigger_mode bf mode e = set_low_bit bf 15 mode e"

definition set_mask :: "bit_field \<Rightarrow> u8 \<Rightarrow> RedirectionEntry \<Rightarrow> RedirectionEntry res" where
  "set_mask bf mask_value e = set_low_bit bf 16 mask_value e"

definition set_destination :: "bit_field \<Rightarrow> u8 \<Rightarrow> RedirectionEntry \<Rightarrow> RedirectionEntry res" where
  "set_destination bf dest e = bind_r (set_bits bf (high e) 24 31 (ucast dest)) (\<lambda>h. Inr (e\<lparr>high := h\<rparr>))"

definition enable :: "bit_field \<Rightarrow> RedirectionEntry \<Rightarrow> RedirectionEntry res" where
  "enable bf e = set_mask bf 1 e"

definition disable :: "bit_field \<Rightarrow> RedirectionEntry \<Rightarrow> RedirectionEntry res" where
  "disable bf e = set_mask bf 0 e"

section \<open>The I/O APIC\<close>

record IOApic =
  io_base :: nat

definition RED_TABLE :: nat where "RED_TABLE = 0x10"

definition ioapic_new :: IOApic where
  "ioapic_new = \<lparr>io_base = 0\<rparr>"

definition ioapic_write :: "nat \<Rightarrow> u32 \<Rightarrow> IOApic \<Rightarrow> trace \<Rightarrow> trace" where
  "ioapic_write offset v self t = t @ [Wr (io_base self) (word_of_nat offset), Wr (io_base self + 0x10) v]"

text \<open>The read goes to \<open>base + 10\<close>, ten in decimal.\<close>

definition ioapic_read :: "(trace \<Rightarrow> nat \<Rightarrow> u32) \<Rightarrow> nat \<Rightarrow> IOApic \<Rightarrow> trace \<Rightarrow> u32 \<times> trace" where
  "ioapic_read dev offset self t =
     (let t = t @ [Wr (io_base self) (word_of_nat offset)]
      in (dev t (io_base self + 10), t @ [Rd (io_base self + 10)]))"

definition write_entry :: "nat \<Rightarrow> RedirectionEntry \<Rightarrow> IOApic \<Rightarrow> trace \<Rightarrow> trace" where
  "write_entry vector entry self t =
     (let address = RED_TABLE + 2 * vector;
          t = ioapic_write address (low entry) self t
      in ioapic_write (address + 1) (high entry) self t)"

definition ioapic_init ::
    "bit_field \<Rightarrow> ('p, 'f, 'w) mapper \<Rightarrow> 'm option \<Rightarrow> ('m \<Rightarrow> nat option) \<Rightarrow> IOApic \<Rightarrow> 'w \<times> trace \<Rightarrow> (IOApic \<times> 'w \<times> trace) res" where
  "ioapic_init bf mp madt first_io_apic self s =
     (case madt of
        None \<Rightarrow> Inl (Panic (ExplicitPanic ''Unable to get MADT!''))
      | Some md \<Rightarrow>
          case first_io_apic md of
            None \<Rightarrow> Inl (Panic (ExplicitPanic ''Unable to find Local Apic in madt!''))
          | Some io_apic_address \<Rightarrow>
              let self = self\<lparr>io_base := io_apic_address\<rparr> in
              bind_r (map_phys mp (io_base self) 4096 (fst s)) (\<lambda>(_, w).
              bind_r (set_vector bf 0x45 redirection_new) (\<lambda>re.
                Inr (self, w, write_entry 1 re self (snd s)))))"

section \<open>The device\<close>

text \<open>IOREGSEL selects a register by its low eight bits, IOWIN is the selected register (82093AA, 3.1).\<close>

definition ioapic_step :: "nat \<Rightarrow> access \<Rightarrow> u8 \<times> (u8 \<Rightarrow> u32) \<Rightarrow> u8 \<times> (u8 \<Rightarrow> u32)" where
  "ioapic_step base a s =
     (case a of
        Wr p v \<Rightarrow> if p = base then (ucast v, snd s)
                 else if p = base + 0x10 then (fst s, (snd s)(fst s := v)) else s
      | Rd p \<Rightarrow> s)"

definition ioapic_device :: "nat \<Rightarrow> trace \<Rightarrow> u8 \<times> (u8 \<Rightarrow> u32) \<Rightarrow> u8 \<times> (u8 \<Rightarrow> u32)" where
  "ioapic_device base t s = fold (ioapic_step base) t s"

section \<open>Correctness\<close>

lemma set_vector_bits:
  assumes "bit_field_ok bf"
  shows "\<exists>l. set_vector bf v e = Inr (e\<lparr>low := l\<rparr>) \<and> (\<forall>k. bit l k \<longleftrightarrow> (if k < 8 then bit v k else bit (low e) k))"
proof -
  have "unat v < 256" using unsigned_less [of v] by simp
  then have "unat (ucast v :: u32) < 2 ^ (7 + 1 - 0)" by (simp add: unsigned_ucast_eq take_bit_nat_eq_self)
  from set_bits_ok [OF assms _ _ this, of "low e"] obtain l where l: "set_bits bf (low e) 0 7 (ucast v) = Inr l"
      "\<forall>k. bit l k \<longleftrightarrow> (if 0 \<le> k \<and> k \<le> 7 then bit (ucast v :: u32) (k - 0) else bit (low e) k)"
    by auto
  then have "\<forall>k. bit l k \<longleftrightarrow> (if k < 8 then bit v k else bit (low e) k)"
    by (auto simp: bit_ucast_iff less_Suc_eq_le numeral_eq_Suc)
  with l(1) show ?thesis by (auto simp: set_vector_def)
qed

lemma four_writes:
  "snd (ioapic_device base [Wr base x, Wr (base + 0x10) l, Wr base y, Wr (base + 0x10) h] s)
     = (snd s)(ucast x := l, ucast y := h)"
  by (simp add: ioapic_device_def ioapic_step_def)

text \<open>
  \<open>write_entry\<close> programs exactly one entry of the redirection table: after the four writes the device holds the low
  and the high word of the entry in registers \<open>0x10 + 2 n\<close> and \<open>0x11 + 2 n\<close>, and no other register has changed.
\<close>
theorem write_entry_programs_device:
  assumes "n < 120"
  shows "snd (ioapic_device (io_base self) (write_entry n e self []) s)
      = (snd s)(word_of_nat (0x10 + 2 * n) := low e, word_of_nat (0x11 + 2 * n) := high e)
    \<and> (word_of_nat (0x10 + 2 * n) :: u8) \<noteq> word_of_nat (0x11 + 2 * n)"
proof -
  have "unat (word_of_nat (0x10 + 2 * n) :: u8) = 0x10 + 2 * n" "unat (word_of_nat (0x11 + 2 * n) :: u8) = 0x11 + 2 * n"
    using assms by (simp_all only: unat_of_nat take_bit_eq_mod) simp_all
  then have "(word_of_nat (0x10 + 2 * n) :: u8) \<noteq> word_of_nat (0x11 + 2 * n)" by (metis add_right_imp_eq numeral_eq_iff semiring_norm(88,90))
  moreover have "(ucast (word_of_nat k :: u32) :: u8) = word_of_nat k" for k
    by (rule bit_word_eqI) (simp add: bit_simps)
  moreover have "write_entry n e self [] = [Wr (io_base self) (word_of_nat (0x10 + 2 * n)), Wr (io_base self + 0x10) (low e),
      Wr (io_base self) (word_of_nat (0x11 + 2 * n)), Wr (io_base self + 0x10) (high e)]"
    by (simp add: write_entry_def ioapic_write_def RED_TABLE_def Let_def)
  ultimately show ?thesis using four_writes by (simp only: simp_thms)
qed

text \<open>
  Bit 16 of an entry masks its interrupt line, and \<open>enable\<close> sets it while \<open>disable\<close> clears it: the two are the
  wrong way round. Both leave every other bit alone.
\<close>
theorem enable_masks_the_line:
  assumes "bit_field_ok bf"
  shows "\<exists>l l'. enable bf e = Inr (e\<lparr>low := l\<rparr>) \<and> disable bf e = Inr (e\<lparr>low := l'\<rparr>) \<and> bit l 16 \<and> \<not> bit l' 16
    \<and> (\<forall>k. k \<noteq> 16 \<longrightarrow> bit l k = bit (low e) k \<and> bit l' k = bit (low e) k)"
proof -
  have "\<exists>y. set_bit bf (low e) 16 b = Inr y \<and> (\<forall>k. bit y k \<longleftrightarrow> (if k = 16 then b else bit (low e) k))" for b
    using assms unfolding bit_field_ok_def by simp
  from this [of True] this [of False] obtain l l' where
    "set_bit bf (low e) 16 True = Inr l" "\<forall>k. bit l k \<longleftrightarrow> (if k = 16 then True else bit (low e) k)"
    "set_bit bf (low e) 16 False = Inr l'" "\<forall>k. bit l' k \<longleftrightarrow> (if k = 16 then False else bit (low e) k)" by blast
  then show ?thesis
    by (intro exI [of _ l] exI [of _ l']) (simp add: enable_def disable_def set_mask_def set_low_bit_def)
qed

text \<open>Initialising the I/O APIC routes its line 1, the keyboard, to vector 0x45, unmasked.\<close>

lemma ioapic_init_routes_line_1:
  assumes "bit_field_ok bf" "ioapic_init bf mp (Some md) (\<lambda>_. Some a) self (w, []) = Inr (self', w', t)"
  shows "io_base self' = a \<and> (\<exists>l. snd (ioapic_device a t s) = (snd s)(0x12 := l, 0x13 := 0)
    \<and> (\<forall>k. bit l k \<longleftrightarrow> k < 8 \<and> bit (0x45 :: u8) k))"
proof -
  obtain l where l: "set_vector bf 0x45 redirection_new = Inr (redirection_new\<lparr>low := l\<rparr>)"
      "\<forall>k. bit l k \<longleftrightarrow> (if k < 8 then bit (0x45 :: u8) k else bit (low redirection_new) k)"
    using set_vector_bits [OF assms(1)] by blast
  have "self' = self\<lparr>io_base := a\<rparr>" "t = write_entry 1 (redirection_new\<lparr>low := l\<rparr>) self' []"
    using assms(2) l(1) by (auto simp: ioapic_init_def Let_def)
  with four_writes [of a "0x12" l "0x13" 0 s] l(2) show ?thesis
    by (intro conjI exI [of _ l])
      (simp_all add: write_entry_def ioapic_write_def RED_TABLE_def Let_def redirection_new_def)
qed

theorem write_entry_programs_device_witness:
  "snd (ioapic_device 0xFEC00000 (write_entry 1 \<lparr>low = 0x45, high = 0\<rparr> \<lparr>io_base = 0xFEC00000\<rparr> []) (0, \<lambda>_. 0)) 0x12 = 0x45"
  using write_entry_programs_device [of 1 "\<lparr>io_base = 0xFEC00000\<rparr>" "\<lparr>low = 0x45, high = 0\<rparr>" "(0, \<lambda>_. 0)"] by simp

theorem enable_masks_the_line_witness:
  "\<exists>l. enable plain_bit_field redirection_new = Inr \<lparr>low = l, high = 0\<rparr> \<and> bit l 16"
  using enable_masks_the_line [OF plain_bit_field_ok, of redirection_new] by (auto simp: redirection_new_def)

end
