(* ===== verification/Serial.thy ===== *)
theory Serial
  imports Prelude
begin

text \<open>
  \<open>kernel_api/common/src/serial.rs\<close>: the serial port; and the printing macros of \<open>kernel_api/common/src/util.rs\<close>.

  Port accesses (\<open>out8\<close>, \<open>in8\<close> of \<open>util.rs\<close>) are elements of a trace; what a read returns is the parameter \<open>dev\<close>, of
  the trace so far and the port. \<open>write_byte\<close> polls the line status register in a loop that ends only when the
  device says so, so its model is a partial function: \<open>None\<close> is a loop that never ends.
\<close>

datatype port_access = Out nat u8 | In nat

type_synonym port_trace = "port_access list"

record SerialPort =
  sp_address :: nat
  sp_enabled :: bool

definition out8 :: "nat \<Rightarrow> nat \<Rightarrow> u8 \<Rightarrow> port_trace \<Rightarrow> port_trace res" where
  "out8 address k v t = bind_r (chk 16 (address + k)) (\<lambda>p. Inr (t @ [Out p v]))"

definition serial_new :: "nat \<Rightarrow> port_trace \<Rightarrow> (SerialPort \<times> port_trace) res" where
  "serial_new address t =
     bind_r (fold_r (\<lambda>(k, v). out8 address k v)
       [(1, 0x00), (3, 0x80), (0, 0x01), (1, 0x00), (3, 0x03), (2, 0xC7), (4, 0x0F), (1, 0x01)] t) (\<lambda>t.
       Inr (\<lparr>sp_address = address, sp_enabled = True\<rparr>, t))"

definition serial_from :: "nat \<Rightarrow> SerialPort" where
  "serial_from address = \<lparr>sp_address = address, sp_enabled = True\<rparr>"

definition has_data :: "(port_trace \<Rightarrow> nat \<Rightarrow> u8) \<Rightarrow> SerialPort \<Rightarrow> port_trace \<Rightarrow> (bool \<times> port_trace) res" where
  "has_data dev self t =
     bind_r (chk 16 (sp_address self + 5)) (\<lambda>p. Inr (dev t p AND 1 = 0, t @ [In p]))"

definition can_write :: "(port_trace \<Rightarrow> nat \<Rightarrow> u8) \<Rightarrow> SerialPort \<Rightarrow> port_trace \<Rightarrow> (bool \<times> port_trace) res" where
  "can_write dev self t =
     bind_r (chk 16 (sp_address self + 5)) (\<lambda>p. Inr (dev t p AND 0x20 = 0, t @ [In p]))"

definition read_byte :: "(port_trace \<Rightarrow> nat \<Rightarrow> u8) \<Rightarrow> SerialPort \<Rightarrow> port_trace \<Rightarrow> (u8 option \<times> port_trace) res" where
  "read_byte dev self t =
     bind_r (has_data dev self t) (\<lambda>(d, t).
       if d \<and> sp_enabled self then Inr (Some (dev t (sp_address self)), t @ [In (sp_address self)])
       else Inr (None, t))"

text \<open>\<open>while self.can_write() {}\<close>\<close>

partial_function (option) wait_loop ::
    "(port_trace \<Rightarrow> nat \<Rightarrow> u8) \<Rightarrow> SerialPort \<Rightarrow> port_trace \<Rightarrow> port_trace res option" where
  "wait_loop dev self t =
     (case can_write dev self t of
        Inl e \<Rightarrow> Some (Inl e)
      | Inr (again, t') \<Rightarrow> if again then wait_loop dev self t' else Some (Inr t'))"

definition write_byte :: "(port_trace \<Rightarrow> nat \<Rightarrow> u8) \<Rightarrow> SerialPort \<Rightarrow> u8 \<Rightarrow> port_trace \<Rightarrow> port_trace res option" where
  "write_byte dev self v t =
     (case wait_loop dev self t of
        None \<Rightarrow> None
      | Some r \<Rightarrow> Some (bind_r r (\<lambda>t.
          bind_r (if v = 0x0A then out8 (sp_address self) 0 0x0D t else Inr t) (\<lambda>t. out8 (sp_address self) 0 v t))))"

primrec write_bytes :: "(port_trace \<Rightarrow> nat \<Rightarrow> u8) \<Rightarrow> SerialPort \<Rightarrow> u8 list \<Rightarrow> port_trace \<Rightarrow> port_trace res option" where
  "write_bytes dev self [] t = Some (Inr t)"
| "write_bytes dev self (b # bs) t =
     (case write_byte dev self b t of
        None \<Rightarrow> None
      | Some (Inl e) \<Rightarrow> Some (Inl e)
      | Some (Inr t') \<Rightarrow> write_bytes dev self bs t')"

definition serial_write :: "(port_trace \<Rightarrow> nat \<Rightarrow> u8) \<Rightarrow> SerialPort \<Rightarrow> u8 list \<Rightarrow> port_trace \<Rightarrow> port_trace res option" where
  "serial_write dev self v t = (if sp_enabled self then write_bytes dev self v t else Some (Inr t))"

section \<open>Printing\<close>

text \<open>
  \<open>kprint!\<close> and \<open>kprintln!\<close> of \<open>util.rs\<close>: formatting hands the text to the port in pieces, the literal parts of the format string and what the
  arguments write (\<open>pieces\<close>); \<open>write_str\<close> never fails, so \<open>expect\<close> does not panic.
\<close>

primrec fmt_write :: "(port_trace \<Rightarrow> nat \<Rightarrow> u8) \<Rightarrow> SerialPort \<Rightarrow> str list \<Rightarrow> port_trace \<Rightarrow> port_trace res option" where
  "fmt_write dev serial [] t = Some (Inr t)"
| "fmt_write dev serial (s # pieces) t =
     (case serial_write dev serial s t of
        None \<Rightarrow> None
      | Some (Inl e) \<Rightarrow> Some (Inl e)
      | Some (Inr t) \<Rightarrow> fmt_write dev serial pieces t)"

definition kprint :: "(port_trace \<Rightarrow> nat \<Rightarrow> u8) \<Rightarrow> str list \<Rightarrow> port_trace \<Rightarrow> port_trace res option" where
  "kprint dev pieces t = fmt_write dev (serial_from 0x3F8) pieces t"

definition kprintln :: "(port_trace \<Rightarrow> nat \<Rightarrow> u8) \<Rightarrow> str list \<Rightarrow> port_trace \<Rightarrow> port_trace res option" where
  "kprintln dev pieces t =
     (let serial = serial_from 0x3F8 in
      case fmt_write dev serial pieces t of
        None \<Rightarrow> None
      | Some (Inl e) \<Rightarrow> Some (Inl e)
      | Some (Inr t) \<Rightarrow> fmt_write dev serial [[0x0D, 0x0A]] t)"

section \<open>Correctness\<close>

text \<open>What the other end receives: the bytes written to the data port.\<close>

fun sent :: "nat \<Rightarrow> port_trace \<Rightarrow> u8 list" where
  "sent p [] = []"
| "sent p (Out q v # t) = (if q = p then v # sent p t else sent p t)"
| "sent p (In q # t) = sent p t"

lemma sent_append [simp]: "sent p (t @ t') = sent p t @ sent p t'"
  by (induction p t rule: sent.induct) simp_all

definition crlf :: "u8 list \<Rightarrow> u8 list" where
  "crlf bs = concat (map (\<lambda>b. if b = 0x0A then [0x0D, 0x0A] else [b]) bs)"

text \<open>The transmitter becomes ready after finitely many polls, whatever has happened before.\<close>

definition transmitter_fair :: "(port_trace \<Rightarrow> nat \<Rightarrow> u8) \<Rightarrow> nat \<Rightarrow> bool" where
  "transmitter_fair dev status \<longleftrightarrow> (\<forall>t. \<exists>n. dev (t @ replicate n (In status)) status AND 0x20 \<noteq> 0)"

lemma wait_loop_ends:
  assumes "sp_address self + 5 < 2 ^ 16" "dev (t @ replicate n (In (sp_address self + 5))) (sp_address self + 5) AND 0x20 \<noteq> 0"
  shows "\<exists>t'. wait_loop dev self t = Some (Inr t') \<and> sent p t' = sent p t"
  using assms(2)
proof (induction n arbitrary: t)
  case 0
  with assms(1) show ?case by (subst wait_loop.simps) (simp add: can_write_def chk_ok)
next
  case (Suc n)
  show ?case
  proof (cases "dev t (sp_address self + 5) AND 0x20 = 0")
    case True
    have "dev ((t @ [In (sp_address self + 5)]) @ replicate n (In (sp_address self + 5))) (sp_address self + 5) AND 0x20 \<noteq> 0"
      using Suc.prems by (simp add: replicate_app_Cons_same)
    from Suc.IH [OF this] True assms(1) show ?thesis
      by (subst wait_loop.simps) (simp add: can_write_def chk_ok)
  qed (use assms(1) in \<open>subst wait_loop.simps, simp add: can_write_def chk_ok\<close>)
qed

lemma write_bytes_delivers:
  assumes "sp_address self + 5 < 2 ^ 16" "transmitter_fair dev (sp_address self + 5)"
  shows "\<exists>t'. write_bytes dev self bs t = Some (Inr t') \<and> sent (sp_address self) t' = sent (sp_address self) t @ crlf bs"
proof (induction bs arbitrary: t)
  case (Cons b bs)
  obtain n where "dev (t @ replicate n (In (sp_address self + 5))) (sp_address self + 5) AND 0x20 \<noteq> 0"
    using assms(2) by (auto simp: transmitter_fair_def)
  from wait_loop_ends [where dev = dev and t = t, OF assms(1) this] obtain t1 where
    t1: "wait_loop dev self t = Some (Inr t1)" "sent (sp_address self) t1 = sent (sp_address self) t" by blast
  let ?t2 = "t1 @ (if b = 0x0A then [Out (sp_address self) 0x0D] else []) @ [Out (sp_address self) b]"
  have w: "write_byte dev self b t = Some (Inr ?t2)"
    using t1(1) assms(1) by (simp add: write_byte_def out8_def chk_ok)
  from Cons.IH [of ?t2] t1(2) show ?case by (auto simp: w crlf_def)
qed (simp add: crlf_def)

lemma fmt_write_delivers:
  assumes "sp_address self + 5 < 2 ^ 16" "sp_enabled self" "transmitter_fair dev (sp_address self + 5)"
  shows "\<exists>t'. fmt_write dev self pieces t = Some (Inr t') \<and> sent (sp_address self) t' = sent (sp_address self) t @ crlf (concat pieces)"
proof (induction pieces arbitrary: t)
  case (Cons s pieces)
  obtain t1 where "write_bytes dev self s t = Some (Inr t1)" "sent (sp_address self) t1 = sent (sp_address self) t @ crlf s"
    using write_bytes_delivers [OF assms(1,3)] by blast
  with Cons.IH [of t1] assms(2) show ?case by (auto simp: serial_write_def crlf_def)
qed (simp add: crlf_def)

lemma kprintln_sends:
  assumes "transmitter_fair dev 0x3FD"
  shows "\<exists>t'. kprintln dev pieces t = Some (Inr t') \<and> sent 0x3F8 t' = sent 0x3F8 t @ crlf (concat pieces) @ [0x0D, 0x0D, 0x0A]"
proof -
  note w = fmt_write_delivers [of "serial_from 0x3F8" dev, simplified serial_from_def, simplified, OF assms, folded serial_from_def]
  obtain t1 where 1: "fmt_write dev (serial_from 0x3F8) pieces t = Some (Inr t1)" "sent 0x3F8 t1 = sent 0x3F8 t @ crlf (concat pieces)"
    using w [of pieces t] by (auto simp: serial_from_def)
  obtain t2 where 2: "fmt_write dev (serial_from 0x3F8) [[0x0D, 0x0A]] t1 = Some (Inr t2)" "sent 0x3F8 t2 = sent 0x3F8 t1 @ [0x0D, 0x0D, 0x0A]"
    using w [of "[[0x0D, 0x0A]]" t1] by (auto simp: serial_from_def crlf_def)
  from 1 2 show ?thesis by (auto simp: kprintln_def Let_def simp del: fmt_write.simps)
qed

text \<open>
  C26: if the transmitter becomes ready after finitely many polls, \<open>kprintln!\<close> returns, and the other end receives exactly the text, each
  newline preceded by a carriage return, and then the line end, whose carriage return is sent twice: once by the macro and once by
  \<open>write_byte\<close>.
\<close>
theorem kprintln_delivers:
  assumes "transmitter_fair dev 0x3FD"
  shows "\<exists>t'. kprintln dev pieces t = Some (Inr t') \<and> sent 0x3F8 t' = sent 0x3F8 t @ crlf (concat pieces) @ [0x0D, 0x0D, 0x0A]"
  by (rule kprintln_sends [OF assms])

text \<open>
  Bit 0 of the line status register says that a byte has arrived, and \<open>has_data\<close> tests that it is clear:
  \<open>read_byte\<close> returns nothing when a byte is there, and reads the data port when none is.
\<close>
theorem read_byte_inverted:
  assumes "sp_address self + 5 < 2 ^ 16" "sp_enabled self"
  shows "(bit (dev t (sp_address self + 5)) 0 \<longrightarrow>
      read_byte dev self t = Inr (None, t @ [In (sp_address self + 5)]))
    \<and> (\<not> bit (dev t (sp_address self + 5)) 0 \<longrightarrow>
      (\<exists>v. read_byte dev self t = Inr (Some v, t @ [In (sp_address self + 5), In (sp_address self)])))"
proof -
  have "x AND 1 = 0 \<longleftrightarrow> \<not> bit x 0" for x :: u8
    by (simp add: and_one_eq bit_0 mod_2_eq_odd)
  then show ?thesis using assms by (auto simp: read_byte_def has_data_def chk_ok)
qed

theorem kprintln_delivers_witness:
  "\<exists>t'. kprintln (\<lambda>_ _. 0x20) [[0x41], [0x0A]] [] = Some (Inr t') \<and> sent 0x3F8 t' = [0x41, 0x0D, 0x0A, 0x0D, 0x0D, 0x0A]"
  using kprintln_delivers [of "\<lambda>_ _. 0x20" "[[0x41], [0x0A]]" "[]"]
  by (simp add: transmitter_fair_def crlf_def)

theorem read_byte_inverted_witness:
  "read_byte (\<lambda>_ _. 0x61) (serial_from 0x3F8) [] = Inr (None, [In 0x3FD])"
  using read_byte_inverted [of "serial_from 0x3F8" "\<lambda>_ _. 0x61" "[]"] by (simp add: serial_from_def bit_0)

end
