(* ===== verification/Devices.thy ===== *)
theory Devices
  imports Prelude
begin

text \<open>
  \<open>kernel/src/drivers/device.rs\<close> (the list of devices) and \<open>kernel/src/drivers/keyboard.rs\<close> (the scan code table).

  The resource descriptors are those of the crate \<open>aml\<close>, with the constructors and fields that the sources fill in. Types of
  that crate that the sources never look into are type variables: the interrupt route \<open>'irq\<close>, the AML value \<open>'aml\<close>, and the
  type \<open>'len\<close> of the field \<open>range_length\<close> of an I/O range.
\<close>

section \<open>Devices\<close>

record 'len IOPortDescriptor =
  memory_range :: "u16 \<times> u16"
  base_alignment :: nat
  decodes_full_address :: bool
  io_range_length :: 'len

datatype MemoryRangeDescriptor =
    FixedLocation (is_writable: bool) (base_address: u32) (range_length: u32)
  | FixedLocation64 (is_writable64: bool) (base_address64: u64) (range_length64: u64)

datatype ('irq, 'len) Resource =
    Irq 'irq
  | IOPort "'len IOPortDescriptor"
  | MemoryRange MemoryRangeDescriptor

datatype 'aml DeviceType =
    PciDevice (pd_segment: u16) (pd_bus: u8) (pd_device: u8) (pd_function: u8)
  | Generic (hid: 'aml)

record ('aml, 'irq, 'len) Device =
  device_type :: "'aml DeviceType"
  resource :: "('irq, 'len) Resource list"

type_synonym ('aml, 'irq, 'len) devices = "('aml, 'irq, 'len) Device list"

definition add_device :: "('aml, 'irq, 'len) Device \<Rightarrow> ('aml, 'irq, 'len) devices \<Rightarrow> ('aml, 'irq, 'len) devices" where
  "add_device device DEVICES = DEVICES @ [device]"

definition search_pci_device ::
    "u16 \<Rightarrow> u8 \<Rightarrow> u8 \<Rightarrow> u8 \<Rightarrow> ('aml, 'irq, 'len) devices \<Rightarrow> ('aml, 'irq, 'len) Device option" where
  "search_pci_device segment' bus' device' function' DEVICES =
     find (\<lambda>d. case device_type d of
         PciDevice segment bus device function \<Rightarrow>
           if (segment, bus, device, function) = (segment', bus', device', function') then True else False
       | Generic _ \<Rightarrow> False) DEVICES"

section \<open>What a driver relies on\<close>

text \<open>
  The contract of the device list: a lookup in the empty list fails, and adding a device changes the lookup of its own
  address only, and only when there was no device with that address yet.
\<close>

locale device_registry =
  fixes none :: 'r
    and add :: "'d \<Rightarrow> 'r \<Rightarrow> 'r"
    and search :: "'k \<Rightarrow> 'r \<Rightarrow> 'd option"
    and key :: "'d \<Rightarrow> 'k option"
  assumes search_none: "search k none = None"
    and search_add: "search k (add d r) = (case search k r of Some d' \<Rightarrow> Some d' | None \<Rightarrow> if key d = Some k then Some d else None)"
begin

lemma search_fold:
  "search k (fold add ds r) = (case search k r of Some d \<Rightarrow> Some d | None \<Rightarrow> find (\<lambda>d. key d = Some k) ds)"
  by (induction ds arbitrary: r) (auto simp: search_add split: option.splits)

lemma search_all: "search k (fold add ds none) = find (\<lambda>d. key d = Some k) ds"
  by (simp add: search_fold search_none)

lemma search_distinct:
  assumes "distinct (map key ds)" "d \<in> set ds" "key d = Some k"
  shows "search k (fold add ds none) = Some d"
proof -
  have "\<exists>d'. find (\<lambda>d. key d = Some k) ds = Some d'"
    using assms(2,3) by (cases "find (\<lambda>d. key d = Some k) ds") (auto simp: find_None_iff)
  then obtain d' where d': "find (\<lambda>d. key d = Some k) ds = Some d'" by blast
  then have "key d' = Some k" "d' \<in> set ds" by (auto simp: find_Some_iff in_set_conv_nth)
  with assms have "d' = d" using \<open>d' \<in> set ds\<close> inj_onD [of key "set ds" d' d] by (simp add: distinct_map)
  with d' show ?thesis by (simp add: search_all)
qed

end

definition pci_address :: "('aml, 'irq, 'len) Device \<Rightarrow> (u16 \<times> u8 \<times> u8 \<times> u8) option" where
  "pci_address d = (case device_type d of PciDevice s b v f \<Rightarrow> Some (s, b, v, f) | Generic _ \<Rightarrow> None)"

interpretation pci_devices: device_registry "[]" add_device "\<lambda>(s, b, d, f). search_pci_device s b d f" pci_address
proof unfold_locales
  have p: "(case device_type d of PciDevice s b v f \<Rightarrow> if (s, b, v, f) = (s', b', v', f') then True else False | Generic _ \<Rightarrow> False)
      \<longleftrightarrow> pci_address d = Some (s', b', v', f')" for d :: "('a, 'b, 'c) Device" and s' b' v' f'
    by (auto simp: pci_address_def split: DeviceType.splits)
  have a: "find P (xs @ [y]) = (case find P xs of Some x \<Rightarrow> Some x | None \<Rightarrow> if P y then Some y else None)" for P :: "'x \<Rightarrow> bool" and xs y
    by (induction xs) auto
  show "(case k of (s, b, d, f) \<Rightarrow> search_pci_device s b d f) (add_device d r)
      = (case (case k of (s, b, d, f) \<Rightarrow> search_pci_device s b d f) r of
          Some d' \<Rightarrow> Some d' | None \<Rightarrow> if pci_address d = Some k then Some d else None)"
    for k and d :: "('a, 'b, 'c) Device" and r
    by (cases k) (simp only: split search_pci_device_def add_device_def p a)
qed (auto simp: search_pci_device_def)

text \<open>
  After any sequence of registrations, a search for a PCI address returns the first device registered with it, and
  nothing when there is none.
\<close>
theorem registered_device_found:
  "search_pci_device s b d f (fold add_device ds []) = find (\<lambda>x. pci_address x = Some (s, b, d, f)) ds"
  using pci_devices.search_all [of "(s, b, d, f)" ds] by simp

section \<open>The keyboard\<close>

definition code_table :: "(u8 \<times> char) list" where
  "code_table =
     [(0x02, CHR ''1''), (0x03, CHR ''2''), (0x04, CHR ''3''), (0x05, CHR ''4''), (0x06, CHR ''5''), (0x07, CHR ''6''),
      (0x08, CHR ''7''), (0x09, CHR ''8''), (0x0A, CHR ''9''), (0x0B, CHR ''0''), (0x0C, CHR ''-''), (0x0D, CHR ''=''),
      (0x10, CHR ''Q''), (0x11, CHR ''W''), (0x12, CHR ''E''), (0x13, CHR ''R''), (0x14, CHR ''T''), (0x15, CHR ''Y''),
      (0x16, CHR ''U''), (0x17, CHR ''I''), (0x18, CHR ''O''), (0x19, CHR ''P''), (0x1A, CHR ''[''), (0x1B, CHR '']''),
      (0x1C, CHR 0x0A), (0x1E, CHR ''A''), (0x1F, CHR ''S''), (0x20, CHR ''D''), (0x21, CHR ''F''), (0x22, CHR ''G''),
      (0x23, CHR ''H''), (0x24, CHR ''J''), (0x25, CHR ''K''), (0x26, CHR ''L''), (0x27, CHR '';''), (0x28, CHR 0x27),
      (0x29, CHR 0x60), (0x2B, CHR 0x5C), (0x2C, CHR ''Z''), (0x2D, CHR ''X''), (0x2E, CHR ''C''), (0x2F, CHR ''V''),
      (0x30, CHR ''B''), (0x31, CHR ''N''), (0x32, CHR ''M''), (0x33, CHR '',''), (0x34, CHR ''.''), (0x35, CHR ''/''),
      (0x39, CHR '' '')]"

definition code_to_char :: "u8 \<Rightarrow> char" where
  "code_to_char code = (case map_of code_table code of Some c \<Rightarrow> c | None \<Rightarrow> CHR 0x00)"

lemma code_table_distinct: "distinct (map fst code_table)" "distinct (map snd code_table)" "CHR 0x00 \<notin> set (map snd code_table)"
  by (simp_all add: code_table_def)

text \<open>Two scan codes give the same character only when neither is a key of the table.\<close>

lemma code_to_char_injective:
  assumes "code_to_char a = code_to_char b" "code_to_char a \<noteq> CHR 0x00"
  shows "a = b"
proof -
  from assms obtain c where c: "map_of code_table a = Some c" "map_of code_table b = Some c"
    by (auto simp: code_to_char_def split: option.splits)
  then have "(a, c) \<in> set code_table" "(b, c) \<in> set code_table" by (auto dest: map_of_SomeD)
  with code_table_distinct(2) have "(a, c) = (b, c)" using inj_onD [of snd "set code_table" "(a, c)" "(b, c)"] by (simp add: distinct_map)
  then show ?thesis by simp
qed

end
