(* ===== verification/Pci.thy ===== *)
theory Pci
  imports Devices Bit_Field Mem
begin

text \<open>
  \<open>kernel/src/drivers/pci.rs\<close>: access to the PCI configuration space through the memory window that the MCFG table of the ACPI
  describes, the enumeration of the functions, and the base address registers.

  Parameters, in \<open>pci_env\<close>: the MCFG table (its entries in order, and indexing), the crate \<open>x86_64\<close> (\<open>mapper\<close>, and the
  address translation \<open>mmu\<close> that a memory access goes through), and the configuration space itself, read and written
  by physical address. In \<open>gather_env\<close>: the AML interpreter (crate \<open>aml\<close>), with its state in \<open>GLOBAL_AML\<close>.

  An access to a page that is not mapped is a page fault, \<open>UndefinedBehaviour\<close> here (the handler never returns).
\<close>

section \<open>Checked arithmetic on words\<close>

definition add_w :: "'a::len word \<Rightarrow> 'a word \<Rightarrow> 'a word res" where
  "add_w a b = (if unat a + unat b < 2 ^ LENGTH('a) then Inr (a + b) else Inl (Panic Overflow))"

definition sub_w :: "'a::len word \<Rightarrow> 'a word \<Rightarrow> 'a word res" where
  "sub_w a b = (if b \<le> a then Inr (a - b) else Inl (Panic Overflow))"

section \<open>The configuration space\<close>

record mcfg_entry =
  seg_address :: nat
  bus_start :: u8

record ('m, 'p, 'f, 'w, 'd) pci_env =
  mcfg_iter :: "'m \<Rightarrow> mcfg_entry list"
  mcfg_index :: "'m \<Rightarrow> nat \<Rightarrow> mcfg_entry res"
  pci_mapper :: "('p, 'f, 'w) mapper"
  mmu :: "'w \<Rightarrow> nat \<Rightarrow> nat option"
  cfg_read8 :: "'d \<Rightarrow> nat \<Rightarrow> u8"
  cfg_read16 :: "'d \<Rightarrow> nat \<Rightarrow> u16"
  cfg_read32 :: "'d \<Rightarrow> nat \<Rightarrow> u32"
  cfg_write8 :: "nat \<Rightarrow> u8 \<Rightarrow> 'd \<Rightarrow> 'd"
  cfg_write16 :: "nat \<Rightarrow> u16 \<Rightarrow> 'd \<Rightarrow> 'd"
  cfg_write32 :: "nat \<Rightarrow> u32 \<Rightarrow> 'd \<Rightarrow> 'd"

record ('w, 'd) pci_state =
  tables :: 'w
  cfg :: 'd

record 'm PCI =
  mcfg :: "'m option"

definition CONFIG_SPACE :: nat where "CONFIG_SPACE = size_tb 1"

definition VENDOR_ID :: u16 where "VENDOR_ID = 0x00"
definition DEVICE_ID :: u16 where "DEVICE_ID = 0x02"
definition SUBCLASS :: u16 where "SUBCLASS = 0x0A"
definition CLASS :: u16 where "CLASS = 0x0B"
definition HEADER_TYPE :: u16 where "HEADER_TYPE = 0x0E"
definition BAR0 :: u16 where "BAR0 = 0x10"
definition INT_LINE :: u16 where "INT_LINE = 0x3C"
definition INT_PIN :: u16 where "INT_PIN = 0x3D"

text \<open>All the register offsets of the source, and those of the configuration space header of types 0 and 1 in the PCI specification.\<close>

definition pci_registers :: "(string \<times> u16) list" where
  "pci_registers =
     [(''VENDOR_ID'', VENDOR_ID), (''DEVICE_ID'', DEVICE_ID), (''COMMAND'', 0x04), (''STATUS'', 0x06), (''REVISION'', 0x08), (''PROG_IF'', 0x09),
      (''SUBCLASS'', SUBCLASS), (''CLASS'', CLASS), (''CACHE_SIZE'', 0x0C), (''LATENCY_TIMER'', 0x0D), (''TYPE'', HEADER_TYPE), (''BIST'', 0x0F),
      (''BAR0'', BAR0), (''BAR1'', 0x14), (''BAR2'', 0x18), (''BAR3'', 0x1C), (''BAR4'', 0x20), (''BAR5'', 0x24),
      (''PRIMARY_BUS'', 0x18), (''SECONDARY_BUS'', 0x19), (''SUBORDINATE_BUS'', 0x1A), (''SECONDARY_LATENCY_TIMER'', 0x1B),
      (''IOBASE'', 0x1C), (''IOLIMIT'', 0x1D), (''SECONDARY_STATUS'', 0x1E), (''MEMORY_BASE'', 0x20), (''MEMORY_LIMIT'', 0x22),
      (''PREFETCH_MEMORY_BASE'', 0x24), (''PREFETCH_MEMORY_LIMIT'', 0x26), (''PREFETCH_BASE_UPPER'', 0x28), (''PREFETCH_LIMIT_UPPER'', 0x2C),
      (''IOBASE_UPPER'', 0x30), (''IOLIMIT_UPPER'', 0x30), (''CAPABILITY'', 0x38), (''INT_LINE'', INT_LINE), (''INT_PIN'', INT_PIN),
      (''BRIDGE_CTL'', 0x3E)]"

definition pci_specification :: "(string \<times> u16) list" where
  "pci_specification =
     zip [''VENDOR_ID'', ''DEVICE_ID'', ''COMMAND'', ''STATUS''] [0, 2, 4, 6] @ zip [''REVISION'', ''PROG_IF'', ''SUBCLASS'', ''CLASS''] [8, 9, 10, 11]
     @ zip [''CACHE_SIZE'', ''LATENCY_TIMER'', ''TYPE'', ''BIST''] [12, 13, 14, 15]
     @ zip [''BAR0'', ''BAR1'', ''BAR2'', ''BAR3'', ''BAR4'', ''BAR5''] [16, 20, 24, 28, 32, 36]
     @ zip [''PRIMARY_BUS'', ''SECONDARY_BUS'', ''SUBORDINATE_BUS'', ''SECONDARY_LATENCY_TIMER''] [24, 25, 26, 27]
     @ zip [''IOBASE'', ''IOLIMIT'', ''SECONDARY_STATUS'', ''MEMORY_BASE'', ''MEMORY_LIMIT''] [28, 29, 30, 32, 34]
     @ zip [''PREFETCH_MEMORY_BASE'', ''PREFETCH_MEMORY_LIMIT'', ''PREFETCH_BASE_UPPER'', ''PREFETCH_LIMIT_UPPER''] [36, 38, 40, 44]
     @ zip [''IOBASE_UPPER'', ''IOLIMIT_UPPER'', ''CAPABILITY'', ''INT_LINE'', ''INT_PIN'', ''BRIDGE_CTL''] [48, 50, 52, 60, 61, 62]"

lemma pci_registers_wrong:
  "filter (\<lambda>(r, off). map_of pci_specification r \<noteq> Some off) pci_registers = [(''IOLIMIT_UPPER'', 0x30), (''CAPABILITY'', 0x38)]"
  by (simp add: pci_registers_def pci_specification_def VENDOR_ID_def DEVICE_ID_def SUBCLASS_def CLASS_def HEADER_TYPE_def BAR0_def
      INT_LINE_def INT_PIN_def)

definition pci_new :: "'m PCI" where
  "pci_new = \<lparr>mcfg = None\<rparr>"

text \<open>\<open>init\<close>: \<open>find_mcfg\<close> is the search of the XSDT for the MCFG table.\<close>

definition pci_init :: "'m option \<Rightarrow> 'm PCI \<Rightarrow> 'm PCI res" where
  "pci_init find_mcfg GLOBAL_PCI =
     (case find_mcfg of
        None \<Rightarrow> Inl (Panic (ExplicitPanic ''Unable to get MCFG!''))
      | Some t \<Rightarrow> Inr (GLOBAL_PCI\<lparr>mcfg := Some t\<rparr>))"

definition form_address ::
    "('m, 'p, 'f, 'w, 'd) pci_env \<Rightarrow> 'm PCI \<Rightarrow> nat \<Rightarrow> u8 \<Rightarrow> u8 \<Rightarrow> u8 \<Rightarrow> u16 \<Rightarrow> nat res" where
  "form_address env self address bus device function offset =
     bind_r (unwrap (mcfg self)) (\<lambda>t.
     bind_r (mcfg_index env t 0) (\<lambda>seg.
     bind_r (chk 64 (address + unat (push_bit 20 (ucast bus) OR push_bit 15 (ucast device)
         OR push_bit 12 (ucast function) OR ucast offset AND 0xFFF :: u64))) (\<lambda>address.
     bind_r (sub_chk address (seg_address seg)) (\<lambda>address.
       chk 64 (address + CONFIG_SPACE)))))"

text \<open>\<open>form_address_mut\<close> has the same body.\<close>

definition form_address_mut ::
    "('m, 'p, 'f, 'w, 'd) pci_env \<Rightarrow> 'm PCI \<Rightarrow> nat \<Rightarrow> u8 \<Rightarrow> u8 \<Rightarrow> u8 \<Rightarrow> u16 \<Rightarrow> nat res" where
  "form_address_mut env self address bus device function offset = form_address env self address bus device function offset"

text \<open>The result of \<open>map_virt\<close> is dropped.\<close>

definition map_address ::
    "('m, 'p, 'f, 'w, 'd) pci_env \<Rightarrow> 'm PCI \<Rightarrow> u16 \<Rightarrow> u8 \<Rightarrow> u8 \<Rightarrow> u8
       \<Rightarrow> ('w, 'd, 'z) pci_state_scheme \<Rightarrow> ('w, 'd, 'z) pci_state_scheme res" where
  "map_address env self segment bus device function s =
     bind_r (unwrap (mcfg self)) (\<lambda>t.
     bind_r (mcfg_index env t (unat segment)) (\<lambda>seg.
     bind_r (sub_w bus (bus_start seg)) (\<lambda>b.
     bind_r (form_address env self (seg_address seg) b device function 0) (\<lambda>address.
     bind_r (map_virt (pci_mapper env) (seg_address seg) address 4095 (tables s)) (\<lambda>(_, w).
       Inr (s\<lparr>tables := w\<rparr>))))))"

text \<open>The common part of the reads and writes: the address, and the page made accessible.\<close>

definition config_address ::
    "('m, 'p, 'f, 'w, 'd) pci_env \<Rightarrow> 'm PCI \<Rightarrow> u16 \<Rightarrow> u8 \<Rightarrow> u8 \<Rightarrow> u8 \<Rightarrow> u16
       \<Rightarrow> ('w, 'd, 'z) pci_state_scheme \<Rightarrow> (nat \<times> ('w, 'd, 'z) pci_state_scheme) res" where
  "config_address env self segment bus device function offset s =
     bind_r (unwrap (mcfg self)) (\<lambda>t.
     bind_r (mcfg_index env t (unat segment)) (\<lambda>seg.
     bind_r (sub_w bus (bus_start seg)) (\<lambda>b.
     bind_r (form_address env self (seg_address seg) b device function offset) (\<lambda>address.
     bind_r (map_address env self segment bus device function s) (\<lambda>s.
       case mmu env (tables s) address of
         None \<Rightarrow> Inl UndefinedBehaviour
       | Some phys \<Rightarrow> Inr (phys, s))))))"

definition read_u8 ::
    "('m, 'p, 'f, 'w, 'd) pci_env \<Rightarrow> 'm PCI \<Rightarrow> u16 \<Rightarrow> u8 \<Rightarrow> u8 \<Rightarrow> u8 \<Rightarrow> u16
       \<Rightarrow> ('w, 'd, 'z) pci_state_scheme \<Rightarrow> (u8 \<times> ('w, 'd, 'z) pci_state_scheme) res" where
  "read_u8 env self segment bus device function offset s =
     bind_r (config_address env self segment bus device function offset s) (\<lambda>(a, s). Inr (cfg_read8 env (cfg s) a, s))"

definition read_u16 ::
    "('m, 'p, 'f, 'w, 'd) pci_env \<Rightarrow> 'm PCI \<Rightarrow> u16 \<Rightarrow> u8 \<Rightarrow> u8 \<Rightarrow> u8 \<Rightarrow> u16
       \<Rightarrow> ('w, 'd, 'z) pci_state_scheme \<Rightarrow> (u16 \<times> ('w, 'd, 'z) pci_state_scheme) res" where
  "read_u16 env self segment bus device function offset s =
     bind_r (config_address env self segment bus device function offset s) (\<lambda>(a, s). Inr (cfg_read16 env (cfg s) a, s))"

definition read_u32 ::
    "('m, 'p, 'f, 'w, 'd) pci_env \<Rightarrow> 'm PCI \<Rightarrow> u16 \<Rightarrow> u8 \<Rightarrow> u8 \<Rightarrow> u8 \<Rightarrow> u16
       \<Rightarrow> ('w, 'd, 'z) pci_state_scheme \<Rightarrow> (u32 \<times> ('w, 'd, 'z) pci_state_scheme) res" where
  "read_u32 env self segment bus device function offset s =
     bind_r (config_address env self segment bus device function offset s) (\<lambda>(a, s). Inr (cfg_read32 env (cfg s) a, s))"

definition pci_write_u8 ::
    "('m, 'p, 'f, 'w, 'd) pci_env \<Rightarrow> 'm PCI \<Rightarrow> u16 \<Rightarrow> u8 \<Rightarrow> u8 \<Rightarrow> u8 \<Rightarrow> u16 \<Rightarrow> u8
       \<Rightarrow> ('w, 'd, 'z) pci_state_scheme \<Rightarrow> ('w, 'd, 'z) pci_state_scheme res" where
  "pci_write_u8 env self segment bus device function offset v s =
     bind_r (config_address env self segment bus device function offset s) (\<lambda>(a, s). Inr (s\<lparr>cfg := cfg_write8 env a v (cfg s)\<rparr>))"

definition pci_write_u16 ::
    "('m, 'p, 'f, 'w, 'd) pci_env \<Rightarrow> 'm PCI \<Rightarrow> u16 \<Rightarrow> u8 \<Rightarrow> u8 \<Rightarrow> u8 \<Rightarrow> u16 \<Rightarrow> u16
       \<Rightarrow> ('w, 'd, 'z) pci_state_scheme \<Rightarrow> ('w, 'd, 'z) pci_state_scheme res" where
  "pci_write_u16 env self segment bus device function offset v s =
     bind_r (config_address env self segment bus device function offset s) (\<lambda>(a, s). Inr (s\<lparr>cfg := cfg_write16 env a v (cfg s)\<rparr>))"

definition pci_write_u32 ::
    "('m, 'p, 'f, 'w, 'd) pci_env \<Rightarrow> 'm PCI \<Rightarrow> u16 \<Rightarrow> u8 \<Rightarrow> u8 \<Rightarrow> u8 \<Rightarrow> u16 \<Rightarrow> u32
       \<Rightarrow> ('w, 'd, 'z) pci_state_scheme \<Rightarrow> ('w, 'd, 'z) pci_state_scheme res" where
  "pci_write_u32 env self segment bus device function offset v s =
     bind_r (config_address env self segment bus device function offset s) (\<lambda>(a, s). Inr (s\<lparr>cfg := cfg_write32 env a v (cfg s)\<rparr>))"

section \<open>Base address registers\<close>

record BAR =
  data :: u32

definition bar_from :: "u32 \<Rightarrow> BAR" where "bar_from d = \<lparr>data = d\<rparr>"
definition bar_used :: "BAR \<Rightarrow> bool" where "bar_used b \<longleftrightarrow> data b \<noteq> 0"
definition is_io :: "bit_field \<Rightarrow> BAR \<Rightarrow> bool res" where "is_io bf b = get_bit bf (data b) 0"
definition is_mem :: "bit_field \<Rightarrow> BAR \<Rightarrow> bool res" where "is_mem bf b = bind_r (get_bit bf (data b) 0) (\<lambda>x. Inr (\<not> x))"
definition is_prefetch :: "bit_field \<Rightarrow> BAR \<Rightarrow> bool res" where "is_prefetch bf b = get_bit bf (data b) 3"
definition get_address :: "BAR \<Rightarrow> u32" where "get_address b = data b AND 0xFFFFFFF0"
definition get_io :: "BAR \<Rightarrow> u32" where "get_io b = data b AND 0xFFFFFFFC"
definition is_64bit :: "bit_field \<Rightarrow> BAR \<Rightarrow> bool res" where
  "is_64bit bf b = bind_r (get_bits bf (data b) 1 2) (\<lambda>x. Inr (x = 0x02))"

text \<open>The resource of a register that reads \<open>bar\<close>, and \<open>barl\<close> after all ones have been written; \<open>io_len\<close> is the cast to the
  type of the field \<open>range_length\<close>.\<close>

definition io_resource :: "(u16 \<Rightarrow> 'len) \<Rightarrow> BAR \<Rightarrow> u32 \<Rightarrow> ('irq, 'len) Resource res" where
  "io_resource io_len bar barl =
     bind_r (add_w (NOT (barl AND 0xFFFFFFFC)) 1) (\<lambda>l.
     let length = ucast l :: u16 in
     bind_r (add_w (ucast (get_io bar)) length) (\<lambda>e.
     bind_r (sub_w e 1) (\<lambda>last.
       Inr (IOPort \<lparr>memory_range = (ucast (get_io bar), last), base_alignment = 1, decodes_full_address = False,
          io_range_length = io_len length\<rparr>))))"

definition mem_resource :: "BAR \<Rightarrow> u32 \<Rightarrow> ('irq, 'len) Resource res" where
  "mem_resource bar barl =
     bind_r (add_w (NOT (barl AND 0xFFFFFFF0)) 1) (\<lambda>length.
       Inr (MemoryRange (FixedLocation True (get_address bar AND 0xFFFFFFF0) length)))"

definition mem64_resource :: "BAR \<Rightarrow> u32 \<Rightarrow> BAR \<Rightarrow> u64 \<Rightarrow> ('irq, 'len) Resource res" where
  "mem64_resource bar barl nar narl =
     bind_r (add_w (NOT (barl AND 0xFFFFFFF0)) 1) (\<lambda>l.
     let length = ucast l :: u64 in
     bind_r (add_w (NOT (narl AND 0xFFFFFFF0)) 1) (\<lambda>nlength.
     bind_r (add_w (ucast (get_address bar) AND 0xFFFFFFF0) (push_bit 32 (ucast (get_address nar) AND 0xFFFFFFFF))) (\<lambda>base.
     bind_r (add_w length nlength) (\<lambda>total.
       Inr (MemoryRange (FixedLocation64 True base total))))))"

text \<open>Reading a register, and what it reads after all ones have been written.\<close>

definition probe_bar ::
    "('m, 'p, 'f, 'w, 'd) pci_env \<Rightarrow> 'm PCI \<Rightarrow> u16 \<Rightarrow> u8 \<Rightarrow> u8 \<Rightarrow> u8 \<Rightarrow> u16
       \<Rightarrow> ('w, 'd, 'z) pci_state_scheme \<Rightarrow> (BAR \<times> u32 \<times> ('w, 'd, 'z) pci_state_scheme) res" where
  "probe_bar env self segment bus device function offset st =
     bind_r (read_u32 env self segment bus device function offset st) (\<lambda>(v, st).
     bind_r (pci_write_u32 env self segment bus device function offset 0xFFFFFFFF st) (\<lambda>st.
     bind_r (read_u32 env self segment bus device function offset st) (\<lambda>(l, st).
       Inr (bar_from v, l, st))))"

text \<open>One iteration of the loop of \<open>devs\<close>: the resource found, and the register to go on with.\<close>

definition get_bar ::
    "bit_field \<Rightarrow> (u16 \<Rightarrow> 'len) \<Rightarrow> ('m, 'p, 'f, 'w, 'd) pci_env \<Rightarrow> 'm PCI \<Rightarrow> u16 \<Rightarrow> u8 \<Rightarrow> u8 \<Rightarrow> u8 \<Rightarrow> nat
       \<Rightarrow> ('w, 'd, 'z) pci_state_scheme \<Rightarrow> (('irq, 'len) Resource option \<times> nat \<times> ('w, 'd, 'z) pci_state_scheme) res" where
  "get_bar bf io_len env self segment bus device function i st =
     bind_r (probe_bar env self segment bus device function (BAR0 + 4 * word_of_nat i) st) (\<lambda>(bar, barl, st).
     if bar_used bar then
       bind_r (is_io bf bar) (\<lambda>io.
       if io then bind_r (io_resource io_len bar barl) (\<lambda>res. Inr (Some res, i + 1, st))
       else bind_r (is_64bit bf bar) (\<lambda>wide.
         if wide then
           bind_r (probe_bar env self segment bus device function (BAR0 + 4 * word_of_nat (i + 1)) st) (\<lambda>(nar, narl, st).
           bind_r (mem64_resource bar barl nar (ucast narl)) (\<lambda>res. Inr (Some res, i + 1 + 1, st)))
         else bind_r (mem_resource bar barl) (\<lambda>res. Inr (Some res, i + 1, st))))
     else Inr (None, i + 1, st))"

text \<open>The loop of \<open>devs\<close> over the registers up to \<open>to_val\<close>.\<close>

lemma get_bar_progress:
  "get_bar bf io_len env self segment bus device function i st = Inr (r, i', st') \<Longrightarrow> i < i'"
  by (auto simp: get_bar_def Let_def split: if_splits)

function devs ::
    "bit_field \<Rightarrow> (u16 \<Rightarrow> 'len) \<Rightarrow> ('m, 'p, 'f, 'w, 'd) pci_env \<Rightarrow> 'm PCI \<Rightarrow> u16 \<Rightarrow> u8 \<Rightarrow> u8 \<Rightarrow> u8 \<Rightarrow> nat \<Rightarrow> nat
       \<Rightarrow> ('irq, 'len) Resource list \<Rightarrow> ('w, 'd, 'z) pci_state_scheme
       \<Rightarrow> (('irq, 'len) Resource list \<times> ('w, 'd, 'z) pci_state_scheme) res" where
  "devs bf io_len env self segment bus device function to_val i resources st =
     (if i < to_val then
        bind_r (get_bar bf io_len env self segment bus device function i st) (\<lambda>x.
          devs bf io_len env self segment bus device function to_val (fst (snd x))
            (case fst x of Some r \<Rightarrow> resources @ [r] | None \<Rightarrow> resources) (snd (snd x)))
      else Inr (resources, st))"
  by auto
termination
  by (relation "measure (\<lambda>(_, _, _, _, _, _, _, _, to_val, i, _). to_val - i)") (auto dest: get_bar_progress)

declare devs.simps [simp del]

definition get_bars ::
    "bit_field \<Rightarrow> (u16 \<Rightarrow> 'len) \<Rightarrow> ('m, 'p, 'f, 'w, 'd) pci_env \<Rightarrow> 'm PCI \<Rightarrow> u16 \<Rightarrow> u8 \<Rightarrow> u8 \<Rightarrow> u8
       \<Rightarrow> ('w, 'd, 'z) pci_state_scheme \<Rightarrow> (('irq, 'len) Resource list \<times> ('w, 'd, 'z) pci_state_scheme) res" where
  "get_bars bf io_len env self segment bus device function st =
     bind_r (read_u8 env self segment bus device function HEADER_TYPE st) (\<lambda>(v, st).
     let ptype = v AND 0x7F in
     if ptype = 0 then devs bf io_len env self segment bus device function 6 0 [] st
     else if ptype = 1 then devs bf io_len env self segment bus device function 2 0 [] st
     else Inr ([], st))"

section \<open>Enumeration\<close>

type_synonym 's callback = "u16 \<Rightarrow> u8 \<Rightarrow> u8 \<Rightarrow> u8 \<Rightarrow> 's \<Rightarrow> 's res"

definition check_function :: "'s callback \<Rightarrow> u16 \<Rightarrow> u8 \<Rightarrow> u8 \<Rightarrow> u8 \<Rightarrow> 's \<Rightarrow> 's res" where
  "check_function callback segment bus device function st = callback segment bus device function st"

definition check_other_function ::
    "('m, 'p, 'f, 'w, 'd) pci_env \<Rightarrow> 'm PCI \<Rightarrow> ('w, 'd, 'z) pci_state_scheme callback \<Rightarrow> u16 \<Rightarrow> u8 \<Rightarrow> u8 \<Rightarrow> u8
       \<Rightarrow> ('w, 'd, 'z) pci_state_scheme \<Rightarrow> ('w, 'd, 'z) pci_state_scheme res" where
  "check_other_function env self callback segment bus device function st =
     bind_r (read_u16 env self segment bus device function VENDOR_ID st) (\<lambda>(vendor, st).
       if vendor \<noteq> 0xFFFF then check_function callback segment bus device function st else Inr st)"

definition check_device ::
    "('m, 'p, 'f, 'w, 'd) pci_env \<Rightarrow> 'm PCI \<Rightarrow> ('w, 'd, 'z) pci_state_scheme callback \<Rightarrow> u16 \<Rightarrow> u8 \<Rightarrow> u8
       \<Rightarrow> ('w, 'd, 'z) pci_state_scheme \<Rightarrow> ('w, 'd, 'z) pci_state_scheme res" where
  "check_device env self callback segment bus device st =
     bind_r (read_u16 env self segment bus device 0 VENDOR_ID st) (\<lambda>(vendor, st).
     if vendor = 0xFFFF then Inr st
     else
       bind_r (check_function callback segment bus device 0 st) (\<lambda>st.
       bind_r (read_u8 env self segment bus device 0 HEADER_TYPE st) (\<lambda>(header_type, st).
       if header_type AND 0x80 \<noteq> 0
       then fold_r (check_other_function env self callback segment bus device) (map word_of_nat [1..<8]) st
       else Inr st)))"

definition traverse_devices ::
    "('m, 'p, 'f, 'w, 'd) pci_env \<Rightarrow> 'm PCI \<Rightarrow> ('w, 'd, 'z) pci_state_scheme callback
       \<Rightarrow> ('w, 'd, 'z) pci_state_scheme \<Rightarrow> ('w, 'd, 'z) pci_state_scheme res" where
  "traverse_devices env self callback st =
     bind_r (unwrap (mcfg self)) (\<lambda>t.
       fold_r (\<lambda>entry.
         fold_r (\<lambda>bus.
           fold_r (\<lambda>device. check_device env self callback (word_of_nat (fst entry)) bus device)
             (map word_of_nat [0..<32]))
           (map word_of_nat [0..<256]))
         (List.enumerate 0 (mcfg_iter env t)) st)"

section \<open>Gathering the devices\<close>

datatype Pin = IntA | IntB | IntC | IntD

record ('w, 'd, 'a, 'aml, 'irq, 'len) gather_state = "('w, 'd) pci_state" +
  GLOBAL_AML :: 'a
  DEVICES :: "('aml, 'irq, 'len) devices"

record ('t, 'a, 'irq, 'len) gather_env =
  from_prt_path :: "'a \<Rightarrow> ('t \<times> 'a) res"
  prt_route :: "'t \<Rightarrow> u8 \<Rightarrow> u8 \<Rightarrow> Pin \<Rightarrow> 'a \<Rightarrow> ('irq option \<times> 'a) res"
  io_cast :: "u16 \<Rightarrow> 'len"

definition pin_of :: "u8 \<Rightarrow> Pin res" where
  "pin_of intline =
     (if intline = 1 then Inr IntA else if intline = 2 then Inr IntB else if intline = 3 then Inr IntC
      else if intline = 4 then Inr IntD else Inl (Panic (ExplicitPanic ''Unkown pin!'')))"

definition gather_device ::
    "bit_field \<Rightarrow> ('t, 'a, 'irq, 'len) gather_env \<Rightarrow> ('m, 'p, 'f, 'w, 'd) pci_env \<Rightarrow> 'm PCI
       \<Rightarrow> ('w, 'd, 'a, 'aml, 'irq, 'len) gather_state callback" where
  "gather_device bf ge env GLOBAL_PCI segment bus device function st =
     bind_r (read_u8 env GLOBAL_PCI segment bus device function CLASS st) (\<lambda>(class', st).
     bind_r (read_u8 env GLOBAL_PCI segment bus device function SUBCLASS st) (\<lambda>(subclass, st).
     bind_r (read_u16 env GLOBAL_PCI segment bus device function DEVICE_ID st) (\<lambda>(deviceid, st).
     bind_r (read_u16 env GLOBAL_PCI segment bus device function VENDOR_ID st) (\<lambda>(vendor, st).
     bind_r (read_u8 env GLOBAL_PCI segment bus device function INT_LINE st) (\<lambda>(intpin, st).
     bind_r (read_u8 env GLOBAL_PCI segment bus device function INT_PIN st) (\<lambda>(intline, st).
     bind_r (from_prt_path ge (GLOBAL_AML st)) (\<lambda>(table, aml).
     let st = st\<lparr>GLOBAL_AML := aml\<rparr> in
     bind_r
       (if 0 < intline then
          bind_r (pin_of intline) (\<lambda>pin.
          bind_r (prt_route ge table device function pin (GLOBAL_AML st)) (\<lambda>(r, aml).
            case r of
              None \<Rightarrow> Inl (Panic (ExplicitPanic ''Unable to map pci to interrupt''))
            | Some route \<Rightarrow> Inr ([Irq route], st\<lparr>GLOBAL_AML := aml\<rparr>)))
        else Inr ([], st)) (\<lambda>(resources, st).
     bind_r (get_bars bf (io_cast ge) env GLOBAL_PCI segment bus device function st) (\<lambda>(bars, st).
       Inr (st\<lparr>DEVICES := add_device \<lparr>device_type = PciDevice segment bus device function, resource = resources @ bars\<rparr>
          (DEVICES st)\<rparr>))))))))))"

definition gather_devices ::
    "bit_field \<Rightarrow> ('t, 'a, 'irq, 'len) gather_env \<Rightarrow> ('m, 'p, 'f, 'w, 'd) pci_env \<Rightarrow> 'm PCI
       \<Rightarrow> ('w, 'd, 'a, 'aml, 'irq, 'len) gather_state \<Rightarrow> ('w, 'd, 'a, 'aml, 'irq, 'len) gather_state res" where
  "gather_devices bf ge env GLOBAL_PCI st = traverse_devices env GLOBAL_PCI (gather_device bf ge env GLOBAL_PCI) st"

section \<open>Names of the device classes\<close>

definition class_table :: "(u8 \<times> (u8 \<times> string) list \<times> string) list" where
  "class_table =
     [(0x00, [(0x00, ''Non-VGA-Compatible Unclassified Device''),
          (0x01, ''VGA-Compatible Unclassified Device'')],
          ''Unclassified''),
      (0x01, [(0x00, ''SCSI Bus Controller''),
          (0x01, ''IDE Controller''),
          (0x02, ''Floppy Disk Controller''),
          (0x03, ''IPI Bus Controller''),
          (0x04, ''RAID Controller''),
          (0x05, ''ATA Controller''),
          (0x06, ''Serial ATA Controller''),
          (0x07, ''Serial Attached SCSI Controller''),
          (0x08, ''Non-Volatile Memory Controller''),
          (0x80, ''Other'')],
          ''Mass Storage Controller''),
      (0x02, [(0x00, ''Ethernet Controller''),
          (0x01, ''Token Ring Controller''),
          (0x02, ''FDDI Controller''),
          (0x03, ''ATM Controller''),
          (0x04, ''ISDN Controller''),
          (0x05, ''WorldFip Controller''),
          (0x06, ''PICMG 2.14 Multi Computing Controller''),
          (0x07, ''Infiniband Controller''),
          (0x08, ''Fabric Controller''),
          (0x80, ''Other'')],
          ''Network Controller''),
      (0x03, [(0x00, ''VGA Compatible Controller''),
          (0x01, ''XGA Controller''),
          (0x02, ''3D Controller (Not VGA-Compatible)''),
          (0x80, ''Other'')],
          ''Network Controller''),
      (0x04, [(0x00, ''Multimedia Video Controller''),
          (0x01, ''Multimedia Audio Controller''),
          (0x02, ''Computer Telephony Device''),
          (0x03, ''Audio Device''),
          (0x80, ''Other'')],
          ''Network Controller''),
      (0x05, [(0x00, ''RAM Controller''),
          (0x01, ''Flash Controller''),
          (0x80, ''Other'')],
          ''Network Controller''),
      (0x06, [(0x00, ''Host Bridge''),
          (0x01, ''ISA Bridge''),
          (0x02, ''EISA Bridge''),
          (0x03, ''MCA Bridge''),
          (0x04, ''PCI-to-PCI Bridge''),
          (0x05, ''PCMCIA Bridge''),
          (0x06, ''NuBus Bridge''),
          (0x07, ''CardBus Bridge''),
          (0x08, ''RACEway Bridge''),
          (0x09, ''PCI-to-PCI Bridge''),
          (0x0A, ''InfiniBand-to-PCI Host Bridge''),
          (0x80, ''Other'')],
          ''Network Controller''),
      (0x07, [(0x00, ''Serial Controller''),
          (0x01, ''Parallel Controller''),
          (0x02, ''Multiport Serial Controller''),
          (0x03, ''Modem''),
          (0x04, ''IEEE 488.1/2 (GPIB) Controller''),
          (0x05, ''Smart Card Controller''),
          (0x80, ''Other'')],
          ''Network Controller''),
      (0x08, [(0x00, ''PIC''),
          (0x01, ''DMA Controller''),
          (0x02, ''Timer''),
          (0x03, ''RTC Controller''),
          (0x04, ''PCI Hot-Plug Controller''),
          (0x05, ''SD Host controller''),
          (0x06, ''IOMMU''),
          (0x80, ''Other'')],
          ''Network Controller''),
      (0x09, [(0x00, ''Keyboard Controller''),
          (0x01, ''Digitizer Pen''),
          (0x02, ''Mouse Controller''),
          (0x03, ''Scanner Controller''),
          (0x04, ''Gameport Controller''),
          (0x80, ''Other'')],
          ''Network Controller''),
      (0x0A, [(0x00, ''Generic''),
          (0x80, ''Other'')],
          ''Docking Station''),
      (0x0B, [(0x00, ''386''),
          (0x01, ''486''),
          (0x02, ''Pentium''),
          (0x03, ''Pentium Pro''),
          (0x04, ''Alpha''),
          (0x05, ''PowerPC''),
          (0x06, ''MIPS''),
          (0x07, ''Co-Processor''),
          (0x80, ''Other'')],
          ''Docking Station''),
      (0x0C, [(0x00, ''FireWire (IEEE 1394) Controller''),
          (0x01, ''ACCESS Bus Controller''),
          (0x02, ''SSA''),
          (0x03, ''USB Controller''),
          (0x04, ''Fibre Channel''),
          (0x05, ''SMBus Controller''),
          (0x06, ''InfiniBand Controller''),
          (0x07, ''IPMI Interface''),
          (0x08, ''SERCOS Interface (IEC 61491)''),
          (0x09, ''CANbus Controller''),
          (0x80, ''Other'')],
          ''Docking Station''),
      (0x0D, [(0x00, ''iRDA Compatible Controller''),
          (0x01, ''Consumer IR Controller''),
          (0x10, ''RF Controller''),
          (0x11, ''Bluetooth Controller''),
          (0x12, ''Broadband Controller''),
          (0x20, ''Ethernet Controller (802.1a)''),
          (0x21, ''Ethernet Controller (802.1b)''),
          (0x80, ''Other'')],
          ''Docking Station'')]"

definition class_str :: "u8 \<Rightarrow> u8 \<Rightarrow> u8 \<Rightarrow> string" where
  "class_str class subclass prog_if =
     (case map_of class_table class of
        None \<Rightarrow> ''Unknown''
      | Some (rows, other) \<Rightarrow> (case map_of rows subclass of None \<Rightarrow> other | Some s \<Rightarrow> s))"

end
