(* ===== verification/Kernel_Main.thy ===== *)
theory Kernel_Main
  imports Loader Apic Serial Pci
begin

text \<open>
  \<open>kernel/src/main.rs\<close> (\<open>_start\<close>, what the loader jumps to) and \<open>init\<close> of \<open>kernel/src/interrupts.rs\<close>.

  \<open>_start\<close> composes the components of the kernel: heap, system table, frame allocator, interrupt controllers, PCI, the boot image and the
  process manager. Parameters, in \<open>kernel_env\<close>: the page tables for 4 KiB and 2 MiB pages, the hole list of the heap, the devices, and the
  module \<open>acpi\<close>, which is not part of the repository (its tables, and what its initialisation does to the page tables). Output on the
  serial port is left out. Virtual memory is read through the 2 MiB mappings, where \<open>_start\<close> puts the boot image.
\<close>

section \<open>State\<close>

record ('p, 'f, 'q, 'g, 't, 'h, 'md, 'm) kernel_env =
  kn_pg :: "('p, 'f, 'q, 'g, 't) paging"
  kn_2m :: "('q, 'g, 't) mapper"
  kn_2m_page :: "nat \<Rightarrow> 'q res"
  kn_2m_start :: "'g \<Rightarrow> nat"
  kn_frames :: "'f frame_ops"
  kn_set_allocator :: "PageTableFrameAllocator \<Rightarrow> 't \<Rightarrow> 't"
  kn_ho :: "'h hole_ops"
  kn_bf :: bit_field
  kn_dev :: "trace \<Rightarrow> nat \<Rightarrow> u32"
  kn_apic_msr :: nat
  kn_acpi_init :: "MemoryDescriptor list \<Rightarrow> 't \<Rightarrow> 't res"
  kn_madt :: "'md option"
  kn_first_io_apic :: "'md \<Rightarrow> nat option"
  kn_mcfg :: "'m option"
  kn_aml_init :: "'t \<Rightarrow> 't res"
  kn_rsp :: u64

record ('t, 'h, 'm, 'i) kernel_state =
  ks_tables :: 't
  ks_heap :: "'h Heap"
  ks_system_table :: nat
  ks_ram :: memory
  ks_idindex :: nat
  ks_int_flag :: bool
  ks_idt :: "nat \<Rightarrow> (Interrupts.entry \<times> nat option) option"
  ks_lapic :: LocalApic
  ks_ioapic :: IOApic
  ks_trace :: trace
  ks_ports :: port_trace
  ks_pci :: "'m PCI"
  ks_syscall_sp :: u64
  ks_handlers :: "('i, process_manager) handler list list"
  ks_pm :: process_manager

section \<open>interrupts::init\<close>

definition interrupts_init ::
    "('p, 'f, 'q, 'g, 't, 'h, 'md, 'm) kernel_env \<Rightarrow> ('t, 'h, 'm, 'i) kernel_state \<Rightarrow> ('t, 'h, 'm, 'i) kernel_state res" where
  "interrupts_init env s =
     (let s = s\<lparr>ks_int_flag := False, ks_idt := IDT\<rparr>;
          (lapic, tr) = lapic_init (kn_dev env) (kn_apic_msr env) (ks_lapic s) (ks_trace s) in
      bind_r (ioapic_init (kn_bf env) (cur_map (kn_pg env)) (kn_madt env) (kn_first_io_apic env) (ks_ioapic s) (ks_tables s, tr))
        (\<lambda>(ioapic, t, tr).
      bind_r (out8 0x21 0 0xFF (ks_ports s)) (\<lambda>ports.
      bind_r (out8 0xA1 0 0xFF ports) (\<lambda>ports.
        Inr (s\<lparr>ks_lapic := lapic, ks_ioapic := ioapic, ks_tables := t, ks_trace := tr, ks_ports := ports\<rparr>)))))"

section \<open>The boot image\<close>

definition BOOT_IMAGE :: nat where
  "BOOT_IMAGE = size_gb 100"

definition map_boot_frame :: "('p, 'f, 'q, 'g, 't, 'h, 'md, 'm) kernel_env \<Rightarrow> nat \<Rightarrow> 'g \<Rightarrow> 't \<Rightarrow> 't res" where
  "map_boot_frame env pt_start frame t =
     bind_r (sub_chk (kn_2m_start env frame) pt_start) (\<lambda>d.
     bind_r (chk 64 (d + BOOT_IMAGE)) (\<lambda>v.
     bind_r (kn_2m_page env v) (\<lambda>page.
     bind_r (map_to (kn_2m env) page frame {PRESENT, WRITABLE} t) (\<lambda>(_, t). Inr t))))"

text \<open>The address the image is read at afterwards, and the tables.\<close>

definition map_boot_image :: "('p, 'f, 'q, 'g, 't, 'h, 'md, 'm) kernel_env \<Rightarrow> nat \<times> nat \<Rightarrow> 't \<Rightarrow> (nat \<times> 't) res" where
  "map_boot_image env boot_image t =
     (case boot_image of (address, len) \<Rightarrow>
      bind_r (map_virt (kn_2m env) address BOOT_IMAGE len t) (\<lambda>(r, t).
      case r of
        Inl _ \<Rightarrow> Inl (Panic UnwrapNone)
      | Inr _ \<Rightarrow>
          bind_r (frame_containing (kn_2m env) address) (\<lambda>pt.
          bind_r (chk 64 (address + len)) (\<lambda>e.
          bind_r (frame_range (kn_2m env) address e) (\<lambda>frames.
          bind_r (fold_r (map_boot_frame env (kn_2m_start env pt)) frames t) (\<lambda>t.
          bind_r (chk 64 (BOOT_IMAGE + address)) (\<lambda>x.
          bind_r (sub_chk x (kn_2m_start env pt)) (\<lambda>ptr. Inr (ptr, t)))))))))"

definition read_virtual :: "('p, 'f, 'q, 'g, 't, 'h, 'md, 'm) kernel_env \<Rightarrow> 't \<Rightarrow> memory \<Rightarrow> nat \<Rightarrow> u8 res" where
  "read_virtual env t m a =
     bind_r (kn_2m_page env a) (\<lambda>page.
       case translate_page (kn_2m env) t page of
         None \<Rightarrow> Inl UndefinedBehaviour
       | Some frame \<Rightarrow> Inr (m (kn_2m_start env frame + a mod 0x200000)))"

definition boot_image_bytes_at :: "('p, 'f, 'q, 'g, 't, 'h, 'md, 'm) kernel_env \<Rightarrow> 't \<Rightarrow> memory \<Rightarrow> nat \<Rightarrow> nat \<Rightarrow> u8 list res" where
  "boot_image_bytes_at env t m ptr n = map_r (read_virtual env t m) [ptr..<ptr + n]"

section \<open>The driver process\<close>

text \<open>The first two files of the image: the kernel and the driver; every file name is read first.\<close>

definition find_driver :: "BootImageFS \<Rightarrow> (u8 list \<times> u8 list) res" where
  "find_driver img =
     bind_r (boot_files img) (\<lambda>it.
     bind_r (for_iter file_iterator_next (Suc (fi_size it)) (\<lambda>file _. bind_r (header_name file) (\<lambda>_. Inr ())) it ()) (\<lambda>_.
     bind_r (boot_files img) (\<lambda>files.
     bind_r (file_iterator_next files) (\<lambda>(k, files).
     bind_r (unwrap k) (\<lambda>kernel.
     bind_r (boot_file_data img kernel) (\<lambda>kernel_exec_file.
     bind_r (file_iterator_next files) (\<lambda>(d, files).
     bind_r (unwrap d) (\<lambda>driver.
     bind_r (boot_file_data img driver) (\<lambda>driver_exec_file.
       Inr (driver_exec_file, kernel_exec_file))))))))))"

section \<open>_start\<close>

text \<open>Heap, system table and frame allocator of the loader, with the map it handed over.\<close>

definition take_over ::
    "('p, 'f, 'q, 'g, 't, 'h, 'md, 'm) kernel_env \<Rightarrow> 'h KernelParameters \<Rightarrow> ('t, 'h, 'm, 'i) kernel_state
       \<Rightarrow> (nat \<times> ('t, 'h, 'm, 'i) kernel_state) res" where
  "take_over env parameters s =
     (case register_global_system_table (ks_system_table s) (kp_system_table parameters) of
        (Inl _, _) \<Rightarrow> Inl (Panic UnwrapNone)
      | (Inr _, st) \<Rightarrow>
          bind_r (mem_allocator (mem_init (kp_frame_allocator parameters))) (\<lambda>fa.
          bind_r (swap_map (kn_frames env) (kp_memory_map parameters) fa) (\<lambda>fa.
          bind_r (get_mem_size (kp_memory_map parameters)) (\<lambda>mem_size.
            Inr (mem_size, s\<lparr>ks_heap := init_heap (kp_heap parameters) (ks_heap s), ks_system_table := st,
                             ks_tables := kn_set_allocator env fa (ks_tables s)\<rparr>)))))"

text \<open>ACPI, interrupt controllers, PCI and the boot image: the address it is read at.\<close>

definition init_devices ::
    "('p, 'f, 'q, 'g, 't, 'h, 'md, 'm) kernel_env \<Rightarrow> 'h KernelParameters \<Rightarrow> ('t, 'h, 'm, 'i) kernel_state
       \<Rightarrow> (nat \<times> ('t, 'h, 'm, 'i) kernel_state) res" where
  "init_devices env parameters s =
     bind_r (kn_acpi_init env (kp_memory_map parameters) (ks_tables s)) (\<lambda>t.
     bind_r (interrupts_init env (s\<lparr>ks_tables := t\<rparr>)) (\<lambda>s.
     bind_r (pci_init (kn_mcfg env) (ks_pci s)) (\<lambda>pci.
     bind_r (kn_aml_init env (ks_tables s)) (\<lambda>t.
     bind_r (map_boot_image env (kp_boot_image parameters) t) (\<lambda>(ptr, t).
       Inr (ptr, s\<lparr>ks_pci := pci, ks_tables := t\<rparr>))))))"

text \<open>The state in which the endless loop at the end is entered, and the process that was created.\<close>

definition kernel_start ::
    "('p, 'f, 'q, 'g, 't, 'h, 'md, 'm) kernel_env \<Rightarrow> 'h KernelParameters \<Rightarrow> ('t, 'h, 'm, 'i) kernel_state
       \<Rightarrow> (ManagedProcess \<times> ('t, 'h, 'm, 'i) kernel_state) res" where
  "kernel_start env parameters s =
     bind_r (take_over env parameters s) (\<lambda>(mem_size, s).
     bind_r (init_devices env parameters s) (\<lambda>(ptr, s).
     bind_r (boot_image_bytes_at env (ks_tables s) (ks_ram s) ptr 32) (\<lambda>_.
     bind_r (boot_image_bytes_at env (ks_tables s) (ks_ram s) ptr (snd (kp_boot_image parameters))) (\<lambda>file_data.
     let s = s\<lparr>ks_syscall_sp := kn_rsp env\<rparr> in
     bind_r (find_driver (new_boot_image ptr file_data)) (\<lambda>(driver_exec_file, kernel_exec_file).
     bind_r (heap_alloc (kn_ho env) \<lparr>l_size = 4096, l_align = 4096\<rparr> (ks_heap s)) (\<lambda>(_, heap).
     bind_r (new_kernel_process (kn_pg env) driver_exec_file kernel_exec_file 0 0 mem_size (ks_tables s, ks_ram s, ks_idindex s))
       (\<lambda>(new_process, t, m, idindex).
     bind_r (process_manager_init (ks_handlers s)) (\<lambda>hs.
       Inr (new_process, s\<lparr>ks_heap := heap, ks_tables := t, ks_ram := m, ks_idindex := idindex, ks_handlers := hs, ks_int_flag := True\<rparr>)))))))))"

end
