(* ===== verification/Handover.thy ===== *)
theory Handover
  imports Loader
begin

text \<open>
  What the loader's steps keep and what the kernel is entered with. The address spaces are compared page by page: the loader's own
  tables (\<open>cur_map\<close>) only gain mappings, the kernel's tables (\<open>new_map\<close>) never lose one.
\<close>

section \<open>What the steps keep\<close>

text \<open>The loader's own tables only gain mappings.\<close>

definition cur_grows :: "('p, 'f, 'q, 'g, 't) paging \<Rightarrow> 't \<Rightarrow> 't \<Rightarrow> bool" where
  "cur_grows pg t t' \<longleftrightarrow> translate_page (cur_map pg) t \<subseteq>\<^sub>m translate_page (cur_map pg) t'"

lemma cur_grows_preorder: "cur_grows pg t t" "cur_grows pg t u \<Longrightarrow> cur_grows pg u v \<Longrightarrow> cur_grows pg t v"
  by (auto simp: cur_grows_def intro: map_le_trans)

interpretation cur_grows: state_order "cur_grows pg" for pg
  by unfold_locales (fact cur_grows_preorder)+

lemma grows_cur_grows: "grows pg t t' \<Longrightarrow> cur_grows pg t t'"
  by (simp add: grows_def keeps_cur_def cur_grows_def)

lemma map_to_mono:
  assumes "mapper_ok mp" "map_to mp p f fl w = Inr (r, w')"
  shows "translate_page mp w \<subseteq>\<^sub>m translate_page mp w'"
  using assms by (cases r) (auto simp: mapper_ok_def map_le_def)

lemma load_page_cur_grows:
  assumes "paging_ok pg" "load_page pg on_result h d p s = Inr s'"
  shows "cur_grows pg (fst s) (fst s')"
proof -
  obtain t1 t2 f r where s: "alloc_frame pg (fst s) = Inr (Some f, t1)"
      "\<exists>r. identity_map (cur_map pg) f {WRITABLE, PRESENT} t1 = Inr (r, t2)"
      "map_to (new_map pg) p f {WRITABLE, USER_ACCESSIBLE, PRESENT} t2 = Inr (r, fst s')"
    using assms(2) by (cases s) (auto simp: load_page_def Let_def)
  have "mapper_ok (cur_map pg)" using assms(1) by (simp add: paging_ok_def)
  then have "cur_grows pg t1 t2" using s(2) map_to_mono paging_okD(7) [OF assms(1)] by (metis cur_grows_def)
  then show ?thesis
    using paging_okD(4) [OF assms(1) s(1)] paging_okD(2) [OF assms(1) s(3)] grows_cur_grows cur_grows_preorder(2) by metis
qed

lemma load_segments_cur_grow:
  "paging_ok pg \<Longrightarrow> fold_r (load_segment pg on_result elf) hs s = Inr s' \<Longrightarrow> cur_grows pg (fst s) (fst s')"
  by (rule cur_grows.load_segments_keep [OF load_page_cur_grows])

lemma identity_map_frames_grows:
  assumes "paging_ok pg" "identity_map_frames pg fl fs t = Inr t'"
  shows "grows pg t t'"
  using grows_fold [OF assms(2) [unfolded identity_map_frames_def], of pg] paging_okD(2,6) [OF assms(1)] by fastforce

lemma kernel_address_space:
  assumes "paging_ok pg" "kernel_from_elf pg mm elf ks ke mem (t, m, n) = Inr (P, t', m', n')" "get_stack pg = Inr stack_pages"
  shows "stack_base P = PROCESS_STACK_ADDRESS" "\<exists>h. elf_header elf = Inr h \<and> process_entry P = entry h"
    "\<forall>p \<in> set stack_pages. translate_page (new_map pg) t' p \<noteq> None" "cur_grows pg t t'" "extends pg t t'"
proof -
  obtain t1 t2 t3 t4 t5 h where s: "map_physical pg mem t = Inr t1" "map_stack pg t1 = Inr t2" "map_kernel_code pg mm t2 = Inr t3"
      "map_kernel_stack pg ks ke t3 = Inr t4" "map_apic pg t4 = Inr t5" "elf_header elf = Inr h"
      "for_program_headers elf (load_segment pg ignore_map_result elf) (t5, m) = Inr (t', m')"
      "P = \<lparr>process_id = n, stack_base = PROCESS_STACK_ADDRESS, process_entry = entry h\<rparr>"
    using assms(2) by (auto simp: kernel_from_elf_def kernel_load_segments_def take_id_def Let_def)
  have g3: "grows pg t2 t3"
    using s(3) identity_map_frames_grows [OF assms(1)] by (auto simp: map_kernel_code_def split: option.splits)
  have g5: "grows pg t4 t5"
    using s(5) paging_okD(2,6) [OF assms(1)] by (auto simp: map_apic_def)
  note g2 = map_stack_grows [OF assms(1) s(2) assms(3)]
  have g: "grows pg t2 t5" "grows pg t t5"
    using g3 g5 g2 map_physical_grows [OF assms(1) s(1)] map_kernel_stack_grows [OF assms(1) s(4)] grows_preorder(2) by metis+
  from for_program_headers_fold [OF s(7)] obtain hs where "fold_r (load_segment pg ignore_map_result elf) hs (t5, m) = Inr (t', m')"
    by blast
  then have c: "cur_grows pg t5 t'" "extends pg t5 t'"
    using load_segments_cur_grow [OF assms(1)] load_segments_extend [OF assms(1)] by fastforce+
  show "cur_grows pg t t'" using g(2) c(1) grows_cur_grows cur_grows_preorder(2) by metis
  show "extends pg t t'" using g(2) c(2) by (auto simp: grows_def extends_def)
  show "\<forall>p \<in> set stack_pages. translate_page (new_map pg) t' p \<noteq> None"
  proof
    fix p assume "p \<in> set stack_pages"
    then obtain f where "translate_page (new_map pg) t2 p = Some f" using g2 by blast
    then show "translate_page (new_map pg) t' p \<noteq> None" using growsD(2) [OF g(1)] c(2) by (simp add: extends_def)
  qed
  show "stack_base P = PROCESS_STACK_ADDRESS" "\<exists>h. elf_header elf = Inr h \<and> process_entry P = entry h"
    using s(6,8) by auto
qed

lemma map_runtime_desc_grows:
  assumes "paging_ok pg" "map_runtime_desc pg d t = Inr (d', t')"
  shows "grows pg t t' \<and> d' = (if is_runtime d then d\<lparr>virtual_address := physical_address d\<rparr> else d)"
proof (cases "is_runtime d")
  case True
  then have f: "fold_r (map_runtime_page pg d) [0..<page_count d] t = Inr t'" "d' = d\<lparr>virtual_address := physical_address d\<rparr>"
    using assms(2) by (auto simp: map_runtime_desc_def)
  have step: "grows pg a b" if "map_runtime_page pg d i a = Inr b" for i a b
    using that paging_okD(2,6) [OF assms(1)] by (auto simp: map_runtime_page_def)
  have "grows pg t t'"
    using grows_fold [OF f(1), of pg] step by blast
  with True f(2) show ?thesis by simp
qed (use assms(2) grows_preorder(1) in \<open>auto simp: map_runtime_desc_def\<close>)

definition runtime_identity :: "MemoryDescriptor \<Rightarrow> MemoryDescriptor" where
  "runtime_identity d = (if is_runtime d then d\<lparr>virtual_address := physical_address d\<rparr> else d)"

lemma map_runtime_descs:
  assumes "paging_ok pg" "map_state (map_runtime_desc pg) mm t = Inr (mm', t')"
  shows "grows pg t t' \<and> mm' = map runtime_identity mm"
  using assms(2)
proof (induction mm arbitrary: t mm')
  case (Cons d mm)
  then obtain d' t1 mm1 where s: "map_runtime_desc pg d t = Inr (d', t1)" "map_state (map_runtime_desc pg) mm t1 = Inr (mm1, t')" "mm' = d' # mm1"
    by auto
  from map_runtime_desc_grows [OF assms(1) s(1)] Cons.IH [OF s(2)] s(3) grows_preorder(2) show ?case
    by (auto simp: runtime_identity_def)
qed (use grows_preorder(1) in auto)

lemma share_heap_shared:
  assumes "paging_ok pg" "share_heap pg t = Inr t'" "heap_range 0 = Inr (s, e)" "page_range (cur_map pg) s e = Inr pages"
  shows "grows pg t t'" "p \<in> set pages \<Longrightarrow> translate_page (cur_map pg) t p = Some f \<Longrightarrow> translate_page (new_map pg) t' p = Some f"
proof -
  have f: "fold_r (share_heap_page pg) pages t = Inr t'" using assms(2-4) by (simp add: share_heap_def)
  have step: "grows pg a b \<and> (\<forall>f. translate_page (cur_map pg) a p = Some f \<longrightarrow> translate_page (new_map pg) b p = Some f)"
    if "share_heap_page pg p a = Inr b" for p a b
    using that paging_okD(2,5) [OF assms(1)] grows_preorder(1) by (auto simp: share_heap_page_def split: option.splits)
  have r: "grows pg t t' \<and> (\<forall>p \<in> set pages. \<exists>a b. grows pg t a \<and> share_heap_page pg p a = Inr b \<and> grows pg b t')"
    by (rule grows_fold [OF f]) (rule step [THEN conjunct1])
  then show "grows pg t t'" by blast
  assume "p \<in> set pages" "translate_page (cur_map pg) t p = Some f"
  then show "translate_page (new_map pg) t' p = Some f"
    using r step growsD by metis
qed

lemma heap_alloc_keeps: "heap_alloc ho lay h = Inr (p, h') \<Longrightarrow> bottom h' = bottom h \<and> hsize h' = hsize h \<and> p \<noteq> 0"
  by (auto simp: heap_alloc_def global_alloc_def allocate_first_fit_def split: if_splits option.splits prod.splits)

section \<open>The handover\<close>

lemma build_kernel_result:
  assumes "paging_ok (lo_pg env)" "fails_only_mapped (cur_map (lo_pg env))"
    and "build_kernel env mm ks ke (t, m, n) = Inr (P, a, heap, t', m', n')"
    and "get_stack (lo_pg env) = Inr stack_pages" "heap_range 0 = Inr (s, e)" "page_range (cur_map (lo_pg env)) s e = Inr heap_pages"
  shows "stack_base P = PROCESS_STACK_ADDRESS"
    "\<exists>elf h. find_kernel (new_boot_image (fst (kernel_bytes env)) (snd (kernel_bytes env))) = Inr (Some elf) \<and> elf_header elf = Inr h
       \<and> process_entry P = entry h"
    "\<forall>p \<in> set stack_pages. translate_page (new_map (lo_pg env)) t' p \<noteq> None"
    "\<forall>p \<in> set heap_pages. translate_page (cur_map (lo_pg env)) t' p \<noteq> None"
    "bottom heap = HEAP_START" "hsize heap = HEAP_SIZE"
proof -
  let ?pg = "lo_pg env"
  obtain t1 heap1 elf mem where k: "init_heap_new (lo_ho env) (cur_map ?pg) (alloc_frame ?pg) 0 False t (heap_empty (lo_ho env)) = Inr (Inr (), t1, heap1)"
      "find_kernel (new_boot_image (fst (kernel_bytes env)) (snd (kernel_bytes env))) = Inr (Some elf)"
      "heap_alloc (lo_ho env) \<lparr>l_size = 4096, l_align = 4096\<rparr> heap1 = Inr (a, heap)"
      "kernel_from_elf ?pg mm elf ks ke mem (t1, m, n) = Inr (P, t', m', n')"
    using assms(3) by (auto simp: build_kernel_def split: sum.splits)
  note s = kernel_address_space [OF assms(1) k(4) assms(4)]
  have mp: "mapper_ok (cur_map ?pg)" "alloc_keeps_tables (cur_map ?pg) (alloc_frame ?pg)"
    using assms(1) by (auto simp: paging_ok_def alloc_keeps_tables_def keeps_cur_def)
  have h: "map_heap_pages (cur_map ?pg) (alloc_frame ?pg) False heap_pages t = Inr (Inr (), t1)"
      "heap1 = heap_init (lo_ho env) HEAP_START HEAP_SIZE (heap_empty (lo_ho env))"
    using k(1) assms(5,6) by (auto simp: init_heap_new_def split: sum.splits)
  show "\<forall>p \<in> set heap_pages. translate_page (cur_map ?pg) t' p \<noteq> None"
    using map_heap_pages_mapped [OF mp(2,1) assms(2) h(1)] s(4) by (force simp: cur_grows_def map_le_def dom_def)
  show "bottom heap = HEAP_START" "hsize heap = HEAP_SIZE" using heap_alloc_keeps [OF k(3)] h(2) by (simp_all add: heap_init_def)
  show "\<exists>elf h. find_kernel (new_boot_image (fst (kernel_bytes env)) (snd (kernel_bytes env))) = Inr (Some elf) \<and> elf_header elf = Inr h
       \<and> process_entry P = entry h"
    using k(2) s(2) by blast
  show "stack_base P = PROCESS_STACK_ADDRESS" "\<forall>p \<in> set stack_pages. translate_page (new_map ?pg) t' p \<noteq> None"
    using s(1,3) by auto
qed

lemma hand_over_result:
  assumes "paging_ok (lo_pg env)" "hand_over env mm v P a heap t m g sg = Inr hv"
    and "heap_range 0 = Inr (s, e)" "page_range (cur_map (lo_pg env)) s e = Inr heap_pages"
  shows "hv_rsp hv = stack_base P" "hv_rip hv = process_entry P" "grows (lo_pg env) t (hv_tables hv)"
    "p \<in> set heap_pages \<Longrightarrow> translate_page (cur_map (lo_pg env)) t p = Some f \<Longrightarrow> translate_page (new_map (lo_pg env)) (hv_tables hv) p = Some f"
    "kp_memory_map (hv_parameters hv) = map runtime_identity mm" "kp_system_table (hv_parameters hv) = g" "hv_segments hv = sg"
    "bottom (kp_heap (hv_parameters hv)) = bottom heap" "hsize (kp_heap (hv_parameters hv)) = hsize heap"
proof -
  let ?pg = "lo_pg env"
  obtain f0 fr r t1 q heap1 vmap t2 t3 where k: "frame_containing (new_map ?pg) f0 = Inr fr"
      "identity_map (new_map ?pg) fr {WRITABLE, PRESENT} t = Inr (r, t1)"
      "heap_alloc (lo_ho env) \<lparr>l_size = size_of_MemoryDescriptor * length mm, l_align = 8\<rparr> heap = Inr (q, heap1)"
      "map_state (map_runtime_desc ?pg) mm t1 = Inr (vmap, t2)" "share_heap ?pg t2 = Inr t3"
      "hv_tables hv = t3" "hv_rsp hv = stack_base P" "hv_rip hv = process_entry P" "kp_memory_map (hv_parameters hv) = vmap"
      "kp_system_table (hv_parameters hv) = g" "kp_heap (hv_parameters hv) = heap1" "hv_segments hv = sg"
    using assms(2) by (auto simp: hand_over_def Let_def)
  have g1: "grows ?pg t t1" using k(2) paging_okD(2,6) [OF assms(1)] by simp
  note g2 = map_runtime_descs [OF assms(1) k(4)]
  note g3 = share_heap_shared [OF assms(1) k(5) assms(3,4)]
  have g: "grows ?pg t t2" by (rule grows_preorder(2) [OF g1 g2 [THEN conjunct1]])
  have g': "grows ?pg t t3" by (rule grows_preorder(2) [OF g g3(1)])
  show "grows ?pg t (hv_tables hv)" using g' k(6) by simp
  show "p \<in> set heap_pages \<Longrightarrow> translate_page (cur_map ?pg) t p = Some f \<Longrightarrow> translate_page (new_map ?pg) (hv_tables hv) p = Some f"
    using g3(2) growsD(1) [OF g] k(6) by simp
  show "bottom (kp_heap (hv_parameters hv)) = bottom heap" "hsize (kp_heap (hv_parameters hv)) = hsize heap"
    using heap_alloc_keeps [OF k(3)] k(11) by simp_all
  show "hv_rsp hv = stack_base P" "hv_rip hv = process_entry P" "kp_system_table (hv_parameters hv) = g"
      "kp_memory_map (hv_parameters hv) = map runtime_identity mm" "hv_segments hv = sg"
    using k(7-10,12) g2 by simp_all
qed


section \<open>The kernel of the boot image\<close>

lemma find_kernel_first:
  assumes "boot_files b = Inr it" "drain file_iterator_next (Suc (fi_size it)) it = Inr (Some hs)" "hs \<noteq> []"
    and "\<forall>h \<in> set hs. utf8_valid (fh_name h) \<and> (\<exists>d. boot_file_data b h = Inr d)"
  shows "find_kernel b = bind_r (boot_file_data b (hd hs)) (\<lambda>d. Inr (Some d))"
proof -
  let ?body = "\<lambda>file image. bind_r (header_name file) (\<lambda>_. bind_r (boot_file_data b file) (\<lambda>data.
      Inr (case image of None \<Rightarrow> Some data | Some exec_file \<Rightarrow> Some exec_file)))"
  have rest: "fold_r ?body gs (Some d) = Inr (Some d)" if "set gs \<subseteq> set hs" for gs d
    using that
  proof (induction gs)
    case (Cons g gs)
    then obtain e where "boot_file_data b g = Inr e" "utf8_valid (fh_name g)" using assms(4) by auto
    with Cons show ?case by (simp add: header_name_def)
  qed simp
  obtain h gs where h: "hs = h # gs" using assms(3) by (cases hs) auto
  moreover from this obtain d where "boot_file_data b h = Inr d" "utf8_valid (fh_name h)" using assms(4) by auto
  ultimately have "fold_r ?body hs None = Inr (Some d)" using rest [of gs d] by (auto simp: header_name_def)
  moreover have "find_kernel b = fold_r ?body hs None"
    using for_iter_drain [OF assms(2)] by (simp add: find_kernel_def assms(1) del: for_iter.simps)
  ultimately show ?thesis using h \<open>boot_file_data b h = Inr d\<close> by simp
qed

text \<open>In the image packed from at most 64 files whose truncated names are valid UTF-8, the loader finds the content of the first file.\<close>

lemma generated_image_kernel:
  assumes "\<forall>p \<in> set ps. input_ok fsys nm content p \<and> utf8_valid (name_arr (nm p))" "1668 + total content ps < 2 ^ 32"
    and "length ps \<le> MAX_FILES" "0 < total content ps" "fs_create fsys boot_image_path"
  shows "\<exists>f. boot_image_main fsys ps = Inr f \<and> find_kernel (new_boot_image a (fbytes f)) = Inr (Some (content (hd ps)))"
proof -
  obtain f it hs where r: "boot_image_main fsys ps = Inr f" "boot_files (new_boot_image a (fbytes f)) = Inr it"
      "drain file_iterator_next (Suc (fi_size it)) it = Inr (Some hs)" "length hs = length ps"
      "\<forall>i < length ps. fh_name (hs ! i) = name_arr (nm (ps ! i))
        \<and> boot_file_data (new_boot_image a (fbytes f)) (hs ! i) = Inr (content (ps ! i))"
    using boot_image_read [of ps fsys nm content a] assms by metis
  have ne: "ps \<noteq> []" "hs \<noteq> []" using assms(4) r(4) by auto
  have "\<forall>h \<in> set hs. utf8_valid (fh_name h) \<and> (\<exists>d. boot_file_data (new_boot_image a (fbytes f)) h = Inr d)"
    using r(4,5) assms(1) by (metis in_set_conv_nth)
  from find_kernel_first [OF r(2,3) ne(2) this] have "find_kernel (new_boot_image a (fbytes f)) = Inr (Some (content (hd ps)))"
    using r(4,5) ne by (simp add: hd_conv_nth)
  with r(1) show ?thesis by blast
qed

section \<open>Witnesses\<close>

definition elf_content :: fs where
  "elf_content = one_content\<lparr>fs_open := (\<lambda>p. Some sample_elf),
     fs_metadata := (\<lambda>p. Some \<lparr>is_dir = False, is_file = True, meta_len = length sample_elf\<rparr>)\<rparr>"

definition kernel_path :: path_buf where
  "kernel_path = [Normal (Unicode (ascii ''kernel''))]"

lemma elf_content_ok:
  "\<forall>p \<in> set [kernel_path]. input_ok elf_content (\<lambda>_. ascii ''kernel'') (\<lambda>_. sample_elf) p \<and> utf8_valid (name_arr (ascii ''kernel''))"
  "1668 + total (\<lambda>_. sample_elf) [kernel_path] < 2 ^ 32" "length [kernel_path] \<le> MAX_FILES" "0 < total (\<lambda>_. sample_elf) [kernel_path]"
  "fs_create elf_content boot_image_path"
proof -
  have "utf8_valid (name_arr (ascii ''kernel''))"
    by (rule utf8_valid_ascii) (simp add: name_arr_def ascii_def)
  then show "\<forall>p \<in> set [kernel_path]. input_ok elf_content (\<lambda>_. ascii ''kernel'') (\<lambda>_. sample_elf) p \<and> utf8_valid (name_arr (ascii ''kernel''))"
    by (simp add: input_ok_def elf_content_def kernel_path_def path_name_def file_name_def)
qed (simp_all add: sample_elf_def encode_lengths MAX_FILES_def elf_content_def one_content_def)

text \<open>A memory map with the code of the loader, a runtime region and usable memory, of which one frame is used, firmware that succeeds, and
  the boot image above.\<close>

definition sample_map :: "MemoryDescriptor list" where
  "sample_map = [\<lparr>memory_type = LoaderCode, physical_address = 0x100000, virtual_address = 0, page_count = 1, attributes = 0, r1 = 0\<rparr>,
     \<lparr>memory_type = RuntimeServicesData, physical_address = 0x200000, virtual_address = 0, page_count = 1, attributes = 0x8000000000000000, r1 = 0\<rparr>,
     sample_desc 0x400000 1, sample_desc 0x500000 1, sample_desc 0x600000 1]"

definition used_allocator :: PageTableFrameAllocator where
  "used_allocator = \<lparr>memory_map = sample_map, addr_front = Some (0x401000, 0x401000), addr_rest = [sample_desc 0x500000 1, sample_desc 0x600000 1]\<rparr>"

definition sample_loader :: "u8 list \<Rightarrow> (nat, nat, nat, nat, sample_tables, nat, descriptor option list) loader_env" where
  "sample_loader img =
     \<lparr>lo_pg = sample_paging, lo_ho = counting_holes,
      lo_bs = \<lparr>bs_get_memory_map = (\<lambda>n ds. (0, sample_map, 7, 1)), bs_exit_boot_services = (\<lambda>h k. 0)\<rparr>,
      lo_gdt = list_gdt, lo_stack = 0x4000, lo_tss = 0x9000,
      lo_set_virtual_address_map = (\<lambda>n s v mm. 0),
      lo_mem_init = (\<lambda>fa. \<lparr>cur_tab = Map.empty, new_tab = Map.empty, next_frame = 0x1000\<rparr>),
      lo_allocator = (\<lambda>t. used_allocator), lo_npt = 0x1000, lo_translate_addr = (\<lambda>t a. Some 0x5000),
      kernel_bytes = (0x200000, img)\<rparr>"

lemma sample_share_heap:
  assumes "distinct ps" "\<forall>p \<in> set ps. new_tab w p = None"
  shows "\<exists>w'. fold_r (share_heap_page sample_paging) ps w = Inr w'"
  using assms
proof (induction ps arbitrary: w)
  case (Cons p ps)
  have s: "share_heap_page sample_paging p w = Inr (case cur_tab w p of None \<Rightarrow> w | Some f \<Rightarrow> w\<lparr>new_tab := (new_tab w)(p \<mapsto> f)\<rparr>)"
    using Cons.prems by (auto simp: share_heap_page_def sample_paging_def sample_mapper_def expect_map_def split: option.splits)
  have "\<forall>q \<in> set ps. new_tab (case cur_tab w p of None \<Rightarrow> w | Some f \<Rightarrow> w\<lparr>new_tab := (new_tab w)(p \<mapsto> f)\<rparr>) q = None"
    using Cons.prems by (auto split: option.splits)
  with Cons s show ?case by simp
qed simp

lemma sample_heap_pages:
  "\<exists>w'. map_heap_pages (cur_map sample_paging) (alloc_frame sample_paging) u ps w = Inr (Inr (), w') \<and> new_tab w' = new_tab w"
proof (induction ps arbitrary: w)
  case (Cons p ps)
  have "\<exists>w1. map_heap_pages (cur_map sample_paging) (alloc_frame sample_paging) u (p # ps) w
        = map_heap_pages (cur_map sample_paging) (alloc_frame sample_paging) u ps w1 \<and> new_tab w1 = new_tab w"
    by (cases "cur_tab w p") (auto simp: sample_paging_def sample_mapper_def)
  with Cons.IH show ?case by metis
qed simp

lemma sample_kernel_space:
  assumes "new_tab w = Map.empty"
  shows "\<exists>P t' m' n'. kernel_from_elf sample_paging sample_map sample_elf 0x3000 0x2000 0x5000 (w, m, n) = Inr (P, t', m', n')
    \<and> (\<forall>p. 0x100000 < p \<and> p \<notin> {1310464..<1310721} \<longrightarrow> new_tab t' p = None)"
proof -
  let ?ps = "[1310464..<1310721] :: nat list"
  have st: "get_stack sample_paging = Inr ?ps"
    by (simp add: get_stack_def sample_paging_def sample_mapper_def PROCESS_STACK_ADDRESS_def size_macros)
  obtain w1 where w1: "map_stack sample_paging w = Inr w1" "\<forall>p. p \<notin> set ?ps \<longrightarrow> new_tab w1 p = None"
    using sample_stack [of ?ps w] st assms by (auto simp: map_stack_def)
  have n: "new_tab w1 p = None" if "p < 1310464" for p using w1(2) that by simp
  have ph: "map_physical sample_paging 0x5000 w = Inr w"
    by (simp add: map_physical_def sample_paging_def sample_mapper_def expect_map_def upt_rec)
  let ?w2 = "w1\<lparr>new_tab := (new_tab w1)(0x100 \<mapsto> 0x100, 0x101 \<mapsto> 0x101)\<rparr>"
  have kc: "map_kernel_code sample_paging sample_map w1 = Inr ?w2"
    using n by (simp add: map_kernel_code_def sample_map_def identity_map_frames_def sample_paging_def sample_mapper_def chk_def expect_map_def upt_rec)
  let ?w3 = "?w2\<lparr>new_tab := (new_tab ?w2)(2 \<mapsto> 2, 3 \<mapsto> 3)\<rparr>"
  have ks: "map_kernel_stack sample_paging 0x3000 0x2000 ?w2 = Inr ?w3"
    using n by (simp add: map_kernel_stack_def identity_map_frames_def sample_paging_def sample_mapper_def expect_map_def upt_rec)
  let ?w4 = "?w3\<lparr>new_tab := (new_tab ?w3)(0xFEE00 \<mapsto> 0xFEE00)\<rparr>"
  have ap: "map_apic sample_paging ?w3 = Inr ?w4"
    using n by (simp add: map_apic_def sample_paging_def sample_mapper_def expect_map_def)
  have "\<exists>t' m' r. load_page sample_paging ignore_map_result sample_segment [0xf4, 0xc3] 0x401 (?w4, m, 2) = Inr (t', m', r)
      \<and> (\<forall>p. p \<noteq> 0x401 \<longrightarrow> new_tab t' p = new_tab ?w4 p)"
    by (simp add: load_page_def sample_paging_def sample_mapper_def expect_frame_def sample_segment_def slice_r_def
        ignore_map_result_def Let_def split: option.splits)
  then obtain t' m' r where l: "load_page sample_paging ignore_map_result sample_segment [0xf4, 0xc3] 0x401 (?w4, m, 2) = Inr (t', m', r)"
      "\<forall>p. p \<noteq> 0x401 \<longrightarrow> new_tab t' p = new_tab ?w4 p" by blast
  then have ls: "load_segment sample_paging ignore_map_result sample_elf sample_segment (?w4, m) = Inr (t', m')"
    by (simp add: load_segment_def sample_segment_pages sample_segment_data) (simp add: sample_segment_def)
  have "\<exists>P. kernel_from_elf sample_paging sample_map sample_elf 0x3000 0x2000 0x5000 (w, m, n) = Inr (P, t', m', n)"
    using ph w1(1) kc ks ap ls by (simp add: kernel_from_elf_def kernel_load_segments_def sample_elf_read for_program_headers_eq take_id_def Let_def)
  moreover have "\<forall>p. 0x100000 < p \<and> p \<notin> {1310464..<1310721} \<longrightarrow> new_tab t' p = None" using l(2) w1(2) by auto
  ultimately show ?thesis by blast
qed

definition heap_page_list :: "nat list" where
  "heap_page_list = [805306368..<805308928]"

definition heap_last :: nat where
  "heap_last = HEAP_START + HEAP_SIZE - 1"

lemma sample_ranges:
  "heap_range 0 = Inr (HEAP_START, heap_last)"
  "page_range (cur_map sample_paging) HEAP_START heap_last = Inr heap_page_list"
  "get_stack sample_paging = Inr [1310464..<1310721]"
  by (simp_all add: heap_range_def chk_def sub_chk_def HEAP_START_def HEAP_SIZE_def sample_paging_def sample_mapper_def
      get_stack_def PROCESS_STACK_ADDRESS_def size_macros heap_page_list_def heap_last_def)

lemma counting_heap_alloc:
  "l_size lay \<le> holes h \<Longrightarrow> 16 \<le> l_size lay \<Longrightarrow> l_size lay mod 8 = 0 \<Longrightarrow> 0 < holes h \<Longrightarrow> used h + l_size lay < 2 ^ 64
     \<Longrightarrow> \<exists>p h'. heap_alloc counting_holes lay h = Inr (p, h') \<and> holes h' = holes h - l_size lay \<and> used h' = used h + l_size lay"
  by (auto simp: heap_alloc_def global_alloc_def allocate_first_fit_def counting_holes_def chk_def Let_def)

lemma sample_build:
  assumes "find_kernel (new_boot_image 0x200000 img) = Inr (Some sample_elf)" "new_tab w = Map.empty"
  shows "\<exists>P a heap t' m' n'. build_kernel (sample_loader img) sample_map 0x3000 0x2000 (w, m, n) = Inr (P, a, heap, t', m', n')
    \<and> holes heap = HEAP_SIZE - 4096 \<and> used heap = 4096
    \<and> (\<forall>p. 0x100000 < p \<and> p \<notin> {1310464..<1310721} \<longrightarrow> new_tab t' p = None)"
proof -
  obtain w1 where w1: "map_heap_pages (cur_map sample_paging) (alloc_frame sample_paging) False heap_page_list w = Inr (Inr (), w1)"
      "new_tab w1 = Map.empty"
    using sample_heap_pages assms(2) by metis
  have start: "chk 64 HEAP_START = Inr HEAP_START" by (simp add: HEAP_START_def size_macros chk_def)
  let ?heap = "heap_init counting_holes HEAP_START HEAP_SIZE (heap_empty counting_holes)"
  have ih: "init_heap_new counting_holes (cur_map sample_paging) (alloc_frame sample_paging) 0 False w (heap_empty counting_holes)
      = Inr (Inr (), w1, ?heap)"
    using w1(1) by (simp add: init_heap_new_def sample_ranges start)
  have hl: "holes ?heap = HEAP_SIZE" "used ?heap = 0" by (simp_all add: heap_init_def heap_empty_def counting_holes_def)
  then obtain a heap where al: "heap_alloc counting_holes \<lparr>l_size = 4096, l_align = 4096\<rparr> ?heap = Inr (a, heap)"
      "holes heap = HEAP_SIZE - 4096" "used heap = 4096"
    using counting_heap_alloc [of "\<lparr>l_size = 4096, l_align = 4096\<rparr>" ?heap] by (auto simp: HEAP_SIZE_def size_macros)
  obtain P t' m' n' where k: "kernel_from_elf sample_paging sample_map sample_elf 0x3000 0x2000 0x5000 (w1, m, n) = Inr (P, t', m', n')"
      "\<forall>p. 0x100000 < p \<and> p \<notin> {1310464..<1310721} \<longrightarrow> new_tab t' p = None"
    using sample_kernel_space [OF w1(2)] by metis
  have mem: "get_mem_size sample_map = Inr 0x5000" "\<exists>r. print_memory_map sample_map = Inr r"
    by (simp_all add: get_mem_size_def print_memory_map_def sample_map_def is_end_entry_def desc_bytes_def chk_def)
  have "build_kernel (sample_loader img) sample_map 0x3000 0x2000 (w, m, n) = Inr (P, a, heap, t', m', n')"
    using ih mem assms(1) al(1) k(1) by (auto simp: build_kernel_def sample_loader_def)
  with al(2,3) k(2) show ?thesis by blast
qed

lemma sample_hand_over:
  assumes "holes heap = HEAP_SIZE - 4096" "used heap = 4096" "img \<noteq> []"
    and "\<forall>p. 0x100000 < p \<and> p \<notin> {1310464..<1310721} \<longrightarrow> new_tab t p = None"
  shows "\<exists>hv. hand_over (sample_loader img) sample_map v P a heap t m g sg = Inr hv"
proof -
  obtain t1 r where t1: "identity_map (new_map sample_paging) 5 {WRITABLE, PRESENT} t = Inr (r, t1)"
      "\<forall>p. p \<noteq> 5 \<longrightarrow> new_tab t1 p = new_tab t p"
    by (cases "new_tab t 5") (auto simp: sample_paging_def sample_mapper_def)
  obtain t2 where t2: "map_state (map_runtime_desc sample_paging) sample_map t1 = Inr (map runtime_identity sample_map, t2)"
      "\<forall>p. p \<noteq> 0x200 \<longrightarrow> new_tab t2 p = new_tab t1 p"
    by (cases "new_tab t1 0x200")
      (auto simp: sample_map_def map_runtime_desc_def is_runtime_def map_runtime_page_def chk_def sample_paging_def sample_mapper_def
        runtime_identity_def)
  have d: "distinct heap_page_list" unfolding heap_page_list_def by (rule distinct_upt)
  have far: "\<forall>p \<in> set heap_page_list. 0x100000 < p \<and> p \<notin> {1310464..<1310721}"
    unfolding heap_page_list_def set_upt by auto
  have "new_tab t2 p = None" if "p \<in> set heap_page_list" for p
  proof -
    have "p \<noteq> 5" "p \<noteq> 0x200" "new_tab t p = None" using that assms(4) far by fastforce+
    with t1(2) t2(2) show ?thesis by simp
  qed
  then obtain t3 where t3: "share_heap sample_paging t2 = Inr t3"
    using sample_share_heap [OF d, of t2] by (auto simp: share_heap_def sample_ranges)
  obtain q heap' where q: "heap_alloc counting_holes \<lparr>l_size = size_of_MemoryDescriptor * length sample_map, l_align = 8\<rparr> heap = Inr (q, heap')"
    using counting_heap_alloc [of "\<lparr>l_size = size_of_MemoryDescriptor * length sample_map, l_align = 8\<rparr>" heap] assms(1,2)
    by (auto simp: size_of_MemoryDescriptor_def sample_map_def HEAP_SIZE_def size_macros)
  have f: "frame_containing (new_map sample_paging) 0x5000 = Inr 5" by (simp add: sample_paging_def sample_mapper_def)
  have b: "boot_virtual_address (new_boot_image 0x200000 img) = Inr 0x200000"
    using assms(3) by (simp add: boot_virtual_address_def new_boot_image_def index_r_def)
  show ?thesis
    using t1(1) t2(1) t3 q f b by (simp add: hand_over_def sample_loader_def table_frame_def Let_def)
qed

lemma sample_run:
  "\<exists>f hv. boot_image_main elf_content [kernel_path] = Inr f \<and> find_kernel (new_boot_image 0x200000 (fbytes f)) = Inr (Some sample_elf)
     \<and> get_memory_map (lo_bs (sample_loader (fbytes f))) 1 DESCRIPTORS = Inr (sample_map, 1)
     \<and> loader_run (sample_loader (fbytes f)) 0x3000 0x2000 1 0x7000 (0, \<lambda>_. 0, 0, reset_segments) = Inr hv"
proof -
  obtain f where f: "boot_image_main elf_content [kernel_path] = Inr f"
      "find_kernel (new_boot_image 0x200000 (fbytes f)) = Inr (Some sample_elf)"
    using generated_image_kernel [OF elf_content_ok, where a = "0x200000"] by auto
  let ?env = "sample_loader (fbytes f)"
  let ?w = "lo_mem_init ?env (new_allocator sample_map)"
  have ne: "fbytes f \<noteq> []" using f(2) by (auto simp: find_kernel_def boot_files_def new_boot_image_def index_r_def)
  have "new_tab ?w = Map.empty" by (simp add: sample_loader_def)
  then obtain P a heap t m n where b: "build_kernel ?env sample_map 0x3000 0x2000 (?w, \<lambda>_. 0, 0) = Inr (P, a, heap, t, m, n)"
      "holes heap = HEAP_SIZE - 4096" "used heap = 4096" "\<forall>p. 0x100000 < p \<and> p \<notin> {1310464..<1310721} \<longrightarrow> new_tab t p = None"
    using sample_build [OF f(2)] by metis
  obtain sg where sg: "gdt_init list_gdt 0x4000 0x9000 reset_segments = Inr sg"
    using gdt_init_registers [OF list_gdt_ok, of "0x4000" "0x9000" reset_segments] by (auto simp: STACK_SIZE_def)
  obtain hv where h: "hand_over ?env sample_map 1 P a heap t m 0x7000 sg = Inr hv"
    using sample_hand_over [OF b(2,3) ne b(4)] by blast
  have mm: "get_memory_map (lo_bs ?env) 1 DESCRIPTORS = Inr (sample_map, 1)"
    by (simp add: get_memory_map_def sample_loader_def assert_r_def)
  have run: "loader_run ?env 0x3000 0x2000 1 0x7000 (0, \<lambda>_. 0, 0, reset_segments) = Inr hv"
    using mm b(1) h sg by (simp add: loader_run_def register_global_system_table_def compare_exchange_def) (simp add: sample_loader_def)
  from f mm run show ?thesis by blast
qed


end
