(* ===== verification/Kernel_Start.thy ===== *)
theory Kernel_Start
  imports Kernel_Main Handover
begin

text \<open>
  What \<open>_start\<close> achieves: the boot image is read where the loader left it, the process is made from the files the generator packed, and the
  state in which the kernel then idles.
\<close>

section \<open>Reading the boot image\<close>

text \<open>
  The documented behaviour of the 2 MiB pages and frames of the crate \<open>x86_64\<close>: page and frame number \<open>n\<close> (\<open>P n\<close>, \<open>F n\<close>) start at
  \<open>n\<close> times 2 MiB, a range contains all from the one of its first to the one of its last address.
\<close>

definition pages_2m :: "('p, 'f, 'q, 'g, 't, 'h, 'md, 'm) kernel_env \<Rightarrow> (nat \<Rightarrow> 'q) \<Rightarrow> (nat \<Rightarrow> 'g) \<Rightarrow> bool" where
  "pages_2m env P F \<longleftrightarrow> inj P
     \<and> (\<forall>a b. frame_range (kn_2m env) a b = Inr (map F [a div 0x200000..<Suc (b div 0x200000)]))
     \<and> (\<forall>a b. page_range (kn_2m env) a b = Inr (map P [a div 0x200000..<Suc (b div 0x200000)]))
     \<and> (\<forall>a. frame_containing (kn_2m env) a = Inr (F (a div 0x200000))) \<and> (\<forall>v. kn_2m_page env v = Inr (P (v div 0x200000)))
     \<and> (\<forall>n. kn_2m_start env (F n) = 0x200000 * n)"

abbreviation (input) boot_page :: nat where
  "boot_page \<equiv> BOOT_IMAGE div 0x200000"

lemma boot_page_start: "BOOT_IMAGE = 0x200000 * boot_page" "(0x200000 * n + BOOT_IMAGE) div 0x200000 = boot_page + n"
  by (simp_all add: BOOT_IMAGE_def size_macros)

lemma map_boot_frame_maps:
  assumes "mapper_ok (kn_2m env)" "fails_only_mapped (kn_2m env)" "pages_2m env P F"
    and "map_boot_frame env (0x200000 * a) (F (a + i)) t = Inr t'"
    and "translate_page (kn_2m env) t (P (boot_page + i)) \<in> {None, Some (F (a + i))}"
  shows "translate_page (kn_2m env) t' = (translate_page (kn_2m env) t)(P (boot_page + i) \<mapsto> F (a + i))"
proof -
  obtain r where r: "map_to (kn_2m env) (P (boot_page + i)) (F (a + i)) {PRESENT, WRITABLE} t = Inr (r, t')"
    using assms(3,4) boot_page_start(2) [of i] by (auto simp: map_boot_frame_def pages_2m_def sub_chk_def algebra_simps split: if_splits)
  show ?thesis
  proof (cases r)
    case (Inl e)
    have "translate_page (kn_2m env) t' = translate_page (kn_2m env) t"
      using r [unfolded Inl] assms(1) by (auto simp: mapper_ok_def)
    moreover have "translate_page (kn_2m env) t (P (boot_page + i)) \<noteq> None"
      using r [unfolded Inl] assms(2) unfolding fails_only_mapped_def by blast
    ultimately show ?thesis using assms(5) by (auto simp: fun_upd_idem)
  next
    case (Inr u)
    then show ?thesis using r assms(1) by (auto simp: mapper_ok_def)
  qed
qed

lemma map_boot_frames:
  assumes "mapper_ok (kn_2m env)" "fails_only_mapped (kn_2m env)" "pages_2m env P F"
    and "fold_r (map_boot_frame env (0x200000 * a)) (map (\<lambda>i. F (a + i)) is) t = Inr t'"
    and "\<forall>i. translate_page (kn_2m env) t (P (boot_page + i)) \<in> {None, Some (F (a + i))}"
  shows "translate_page (kn_2m env) t' (P (boot_page + i))
    = (if i \<in> set is then Some (F (a + i)) else translate_page (kn_2m env) t (P (boot_page + i)))"
  using assms(4,5)
proof (induction "is" arbitrary: t)
  case (Cons j js)
  then obtain t1 where s: "map_boot_frame env (0x200000 * a) (F (a + j)) t = Inr t1"
      "fold_r (map_boot_frame env (0x200000 * a)) (map (\<lambda>i. F (a + i)) js) t1 = Inr t'" by auto
  have "translate_page (kn_2m env) t1 = (translate_page (kn_2m env) t)(P (boot_page + j) \<mapsto> F (a + j))"
    using map_boot_frame_maps [OF assms(1-3) s(1)] Cons.prems(2) by blast
  moreover have "P (boot_page + k) = P (boot_page + j) \<longleftrightarrow> k = j" for k
    using assms(3) by (auto simp: pages_2m_def inj_eq)
  ultimately have t1: "translate_page (kn_2m env) t1 (P (boot_page + k))
      = (if k = j then Some (F (a + k)) else translate_page (kn_2m env) t (P (boot_page + k)))" for k by simp
  then show ?case using Cons.IH [OF s(2)] Cons.prems(2) by simp
qed simp

lemma map_of_swap: "map_of (map (\<lambda>(f, p). (p, f)) xs) p = Some f \<Longrightarrow> (f, p) \<in> set xs"
  by (induction xs) (auto split: if_splits)

lemma map_virt_boot:
  assumes "mapper_ok (kn_2m env)" "pages_2m env P F"
    and "map_virt (kn_2m env) address BOOT_IMAGE len t = Inr (Inr u, t')"
    and "\<forall>i. translate_page (kn_2m env) t (P (boot_page + i)) = None"
  shows "translate_page (kn_2m env) t' (P (boot_page + i)) \<in> {None, Some (F (address div 0x200000 + i))}"
proof -
  let ?a = "address div 0x200000"
  let ?fs = "map F [?a..<Suc ((address + len) div 0x200000)]" and ?ps = "map P [boot_page..<Suc ((BOOT_IMAGE + len) div 0x200000)]"
  have "map_pairs (kn_2m env) (zip ?fs ?ps) t = Inr (Inr u, t')"
    using assms(2,3) by (simp add: map_virt_def pages_2m_def del: upt_Suc)
  note m = map_pairs_ok [OF assms(1) this]
  have "f = F (?a + i)" if z: "(f, P (boot_page + i)) \<in> set (zip ?fs ?ps)" for f
  proof -
    obtain k where k: "k < length ?fs" "k < length ?ps" "?fs ! k = f" "?ps ! k = P (boot_page + i)"
      using in_set_zip [THEN iffD1, OF z] unfolding fst_conv snd_conv by blast
    then have "P (boot_page + k) = P (boot_page + i)" "F (?a + k) = f" by (simp_all del: upt_Suc)
    then show ?thesis using assms(2) by (auto simp: pages_2m_def inj_eq)
  qed
  then have "map_of (map (\<lambda>(f, p). (p, f)) (zip ?fs ?ps)) (P (boot_page + i)) = Some f \<Longrightarrow> f = F (?a + i)" for f
    using map_of_swap by metis
  moreover have "translate_page (kn_2m env) t' = translate_page (kn_2m env) t ++ map_of (map (\<lambda>(f, p). (p, f)) (zip ?fs ?ps))"
    using m by blast
  ultimately show ?thesis
    using assms(4) by (cases "map_of (map (\<lambda>(f, p). (p, f)) (zip ?fs ?ps)) (P (boot_page + i))") (simp_all add: map_add_def del: upt_Suc)
qed

lemma boot_image_seen:
  assumes "mapper_ok (kn_2m env)" "fails_only_mapped (kn_2m env)" "pages_2m env P F"
    and "\<forall>i. translate_page (kn_2m env) t (P (BOOT_IMAGE div 0x200000 + i)) = None"
    and "map_boot_image env (address, len) t = Inr (ptr, t')"
  shows "boot_image_bytes_at env t' m ptr len = Inr (map m [address..<address + len])"
proof -
  let ?a = "address div 0x200000"
  have start: "kn_2m_start env (F n) = 0x200000 * n" "frame_containing (kn_2m env) address = Inr (F ?a)" for n
    using assms(3) by (simp_all add: pages_2m_def)
  obtain u t1 where s: "map_virt (kn_2m env) address BOOT_IMAGE len t = Inr (Inr u, t1)"
      "fold_r (map_boot_frame env (0x200000 * ?a)) (map F [?a..<Suc ((address + len) div 0x200000)]) t1 = Inr t'"
      "ptr = BOOT_IMAGE + address - 0x200000 * ?a"
    using assms(3,5) start by (auto simp: map_boot_image_def pages_2m_def sub_chk_def split: sum.splits if_splits simp del: upt_Suc)
  let ?n = "Suc ((address + len) div 0x200000) - ?a"
  have idx: "map F [?a..<Suc ((address + len) div 0x200000)] = map (\<lambda>i. F (?a + i)) [0..<?n]"
    by (rule nth_equalityI) (simp_all add: add.commute del: upt_Suc)
  have tr: "translate_page (kn_2m env) t' (P (boot_page + i)) = Some (F (?a + i))" if "i < ?n" for i
    using map_boot_frames [OF assms(1-3) s(2) [unfolded idx]] map_virt_boot [OF assms(1,3) s(1) assms(4)] that by simp
  have "read_virtual env t' m (ptr + k) = Inr (m (address + k))" if "k < len" for k
  proof -
    let ?o = "address mod 0x200000 + k"
    have v: "ptr + k = 0x200000 * boot_page + ?o" using s(3) boot_page_start(1) by (simp add: minus_mult_div_eq_mod [symmetric])
    have d: "(ptr + k) div 0x200000 = boot_page + ?o div 0x200000" "(ptr + k) mod 0x200000 = ?o mod 0x200000"
      unfolding v by simp_all
    have e: "address + k = 0x200000 * ?a + ?o" by simp
    then have "(address + k) div 0x200000 = ?a + ?o div 0x200000" by (metis div_mult_self4 zero_neq_numeral)
    moreover have "(address + k) div 0x200000 \<le> (address + len) div 0x200000" using that by (intro div_le_mono) simp
    ultimately have "?o div 0x200000 < ?n" by linarith
    moreover have "0x200000 * (?a + ?o div 0x200000) + ?o mod 0x200000 = address + k"
      using mult_div_mod_eq [of "0x200000" ?o] e unfolding distrib_left by linarith
    ultimately show ?thesis using tr assms(3) d start(1) by (simp add: read_virtual_def pages_2m_def)
  qed
  then have "read_virtual env t' m x = Inr (m (address + (x - ptr)))" if "x \<in> set [ptr..<ptr + len]" for x
    using that by (metis atLeastLessThan_iff le_add_diff_inverse nat_add_left_cancel_less set_upt)
  then have "boot_image_bytes_at env t' m ptr len = Inr (map (\<lambda>x. m (address + (x - ptr))) [ptr..<ptr + len])"
    unfolding boot_image_bytes_at_def by (rule map_r_pure)
  also have "map (\<lambda>x. m (address + (x - ptr))) [ptr..<ptr + len] = map m [address..<address + len]"
    by (rule nth_equalityI) simp_all
  finally show ?thesis .
qed


section \<open>The files of the image\<close>

lemma drain_first_two:
  assumes "drain nxt fuel it = Inr (Some (h # g # hs))"
  shows "\<exists>it1 it2. nxt it = Inr (Some h, it1) \<and> nxt it1 = Inr (Some g, it2)"
proof -
  obtain n where n: "fuel = Suc n" using assms by (cases fuel) auto
  then obtain it1 where "nxt it = Inr (Some h, it1)" "drain nxt n it1 = Inr (Some (g # hs))"
    using assms by (auto split: option.splits)
  then show ?thesis by (cases n) (auto split: option.splits)
qed

lemma find_driver_second:
  assumes "boot_files b = Inr it" "drain file_iterator_next (Suc (fi_size it)) it = Inr (Some hs)" "2 \<le> length hs"
    and "\<forall>h \<in> set hs. utf8_valid (fh_name h)"
    and "boot_file_data b (hs ! 0) = Inr k" "boot_file_data b (hs ! 1) = Inr d"
  shows "find_driver b = Inr (d, k)"
proof -
  obtain h g gs where h: "hs = h # g # gs" using assms(3) by (cases hs; cases "tl hs") auto
  obtain it1 it2 where i: "file_iterator_next it = Inr (Some h, it1)" "file_iterator_next it1 = Inr (Some g, it2)"
    using drain_first_two [OF assms(2) [unfolded h]] by blast
  have "fold_r (\<lambda>file _. bind_r (header_name file) (\<lambda>_. Inr ())) gs () = Inr ()" if "set gs \<subseteq> set hs" for gs
    using that assms(4) by (induction gs) (auto simp: header_name_def)
  then have "for_iter file_iterator_next (Suc (fi_size it)) (\<lambda>file _. bind_r (header_name file) (\<lambda>_. Inr ())) it () = Inr ()"
    by (subst for_iter_drain [OF assms(2)]) simp
  then show ?thesis using assms(1,5,6) i h by (simp add: find_driver_def del: for_iter.simps)
qed

lemma generated_image_driver:
  assumes "\<forall>p \<in> set ps. input_ok fsys nm content p \<and> utf8_valid (name_arr (nm p))" "1668 + total content ps < 2 ^ 32"
    and "length ps \<le> MAX_FILES" "0 < total content ps" "fs_create fsys boot_image_path" "2 \<le> length ps"
  shows "\<exists>f. boot_image_main fsys ps = Inr f \<and> find_driver (new_boot_image a (fbytes f)) = Inr (content (ps ! 1), content (ps ! 0))"
proof -
  obtain f it hs where r: "boot_image_main fsys ps = Inr f" "boot_files (new_boot_image a (fbytes f)) = Inr it"
      "drain file_iterator_next (Suc (fi_size it)) it = Inr (Some hs)" "length hs = length ps"
      "\<forall>i < length ps. fh_name (hs ! i) = name_arr (nm (ps ! i))
        \<and> boot_file_data (new_boot_image a (fbytes f)) (hs ! i) = Inr (content (ps ! i))"
    using boot_image_read [of ps fsys nm content a] assms by metis
  have n: "0 < length ps" "1 < length ps" using assms(6) by auto
  have "\<forall>h \<in> set hs. utf8_valid (fh_name h)" using r(4,5) assms(1) by (metis in_set_conv_nth)
  then have "find_driver (new_boot_image a (fbytes f)) = Inr (content (ps ! 1), content (ps ! 0))"
    using r(4) r(5) [rule_format, OF n(1)] r(5) [rule_format, OF n(2)] assms(6) by (intro find_driver_second [OF r(2,3)]) auto
  with r(1) show ?thesis by blast
qed

section \<open>Starting the kernel\<close>

text \<open>Named hypotheses on the parameters: nothing before \<open>_start\<close> maps the boot image uses the pages from 100 GiB on.\<close>

definition boot_area_free :: "('p, 'f, 'q, 'g, 't, 'h, 'md, 'm) kernel_env \<Rightarrow> (nat \<Rightarrow> 'q) \<Rightarrow> 't \<Rightarrow> bool" where
  "boot_area_free env P t \<longleftrightarrow> (\<forall>i. translate_page (kn_2m env) t (P (BOOT_IMAGE div 0x200000 + i)) = None)"

definition boot_area_kept :: "('p, 'f, 'q, 'g, 't, 'h, 'md, 'm) kernel_env \<Rightarrow> (nat \<Rightarrow> 'q) \<Rightarrow> bool" where
  "boot_area_kept env P \<longleftrightarrow>
     (\<forall>fa t. boot_area_free env P t \<longrightarrow> boot_area_free env P (kn_set_allocator env fa t))
   \<and> (\<forall>mm t t'. kn_acpi_init env mm t = Inr t' \<longrightarrow> boot_area_free env P t \<longrightarrow> boot_area_free env P t')
   \<and> (\<forall>t t'. kn_aml_init env t = Inr t' \<longrightarrow> boot_area_free env P t \<longrightarrow> boot_area_free env P t')
   \<and> (\<forall>md a t r t'. kn_first_io_apic env md = Some a \<longrightarrow> map_phys (cur_map (kn_pg env)) a 4096 t = Inr (r, t')
        \<longrightarrow> boot_area_free env P t \<longrightarrow> boot_area_free env P t')"

lemma interrupts_init_result:
  assumes "interrupts_init env s = Inr s'"
  shows "\<exists>md a r. kn_first_io_apic env md = Some a \<and> map_phys (cur_map (kn_pg env)) a 4096 (ks_tables s) = Inr (r, ks_tables s')"
    "ks_idt s' = IDT" "\<not> ks_int_flag s'" "ks_ports s' = ks_ports s @ [Out 0x21 0xFF, Out 0xA1 0xFF]"
    "ks_ram s' = ks_ram s" "ks_heap s' = ks_heap s" "ks_system_table s' = ks_system_table s" "ks_handlers s' = ks_handlers s"
    "ks_pm s' = ks_pm s" "ks_idindex s' = ks_idindex s"
  using assms
  by (auto simp: interrupts_init_def ioapic_init_def Let_def out8_def chk_def split: prod.splits option.splits if_splits) blast

lemma init_devices_result:
  assumes "init_devices env parameters s = Inr (ptr, s')"
  shows "ks_idt s' = IDT" "\<not> ks_int_flag s'" "ks_ports s' = ks_ports s @ [Out 0x21 0xFF, Out 0xA1 0xFF]"
    "ks_ram s' = ks_ram s" "ks_heap s' = ks_heap s" "ks_system_table s' = ks_system_table s" "ks_handlers s' = ks_handlers s"
    "ks_pm s' = ks_pm s" "ks_idindex s' = ks_idindex s"
    "boot_area_kept env P \<Longrightarrow> boot_area_free env P (ks_tables s) \<Longrightarrow>
       \<exists>t. boot_area_free env P t \<and> map_boot_image env (kp_boot_image parameters) t = Inr (ptr, ks_tables s')"
proof -
  obtain t1 s1 pci t2 t3 where r: "kn_acpi_init env (kp_memory_map parameters) (ks_tables s) = Inr t1"
      "interrupts_init env (s\<lparr>ks_tables := t1\<rparr>) = Inr s1" "kn_aml_init env (ks_tables s1) = Inr t2"
      "map_boot_image env (kp_boot_image parameters) t2 = Inr (ptr, t3)" "s' = s1\<lparr>ks_pci := pci, ks_tables := t3\<rparr>"
    using assms by (auto simp: init_devices_def)
  note i = interrupts_init_result [OF r(2)]
  show "ks_idt s' = IDT" "\<not> ks_int_flag s'" "ks_ports s' = ks_ports s @ [Out 0x21 0xFF, Out 0xA1 0xFF]"
    "ks_ram s' = ks_ram s" "ks_heap s' = ks_heap s" "ks_system_table s' = ks_system_table s" "ks_handlers s' = ks_handlers s"
    "ks_pm s' = ks_pm s" "ks_idindex s' = ks_idindex s"
    using i r(5) by simp_all
  assume k: "boot_area_kept env P" "boot_area_free env P (ks_tables s)"
  obtain md a r' where m: "kn_first_io_apic env md = Some a" "map_phys (cur_map (kn_pg env)) a 4096 t1 = Inr (r', ks_tables s1)"
    using i(1) by auto
  have "boot_area_free env P t1" using k r(1) unfolding boot_area_kept_def by blast
  then have "boot_area_free env P (ks_tables s1)"
    using k(1) m unfolding boot_area_kept_def by blast
  then have "boot_area_free env P t2" using k(1) r(3) unfolding boot_area_kept_def by blast
  with r(4,5) show "\<exists>t. boot_area_free env P t \<and> map_boot_image env (kp_boot_image parameters) t = Inr (ptr, ks_tables s')" by auto
qed

lemma kernel_start_stages:
  assumes "kernel_start env parameters s = Inr (proc, s')"
  shows "\<exists>mem s1 ptr s2 data driver kernel a heap. take_over env parameters s = Inr (mem, s1) \<and> init_devices env parameters s1 = Inr (ptr, s2)
    \<and> boot_image_bytes_at env (ks_tables s2) (ks_ram s2) ptr (snd (kp_boot_image parameters)) = Inr data
    \<and> find_driver (new_boot_image ptr data) = Inr (driver, kernel)
    \<and> heap_alloc (kn_ho env) \<lparr>l_size = 4096, l_align = 4096\<rparr> (ks_heap s2) = Inr (a, heap)
    \<and> new_kernel_process (kn_pg env) driver kernel 0 0 mem (ks_tables s2, ks_ram s2, ks_idindex s2)
        = Inr (proc, ks_tables s', ks_ram s', ks_idindex s')
    \<and> process_manager_init (ks_handlers s2) = Inr (ks_handlers s')
    \<and> ks_heap s' = heap \<and> ks_int_flag s' \<and> ks_pm s' = ks_pm s2 \<and> ks_idt s' = ks_idt s2 \<and> ks_ports s' = ks_ports s2
    \<and> ks_system_table s' = ks_system_table s2"
proof -
  obtain mem s1 ptr s2 data driver kernel a heap t m n hs where "take_over env parameters s = Inr (mem, s1)"
      "init_devices env parameters s1 = Inr (ptr, s2)"
      "boot_image_bytes_at env (ks_tables s2) (ks_ram s2) ptr (snd (kp_boot_image parameters)) = Inr data"
      "find_driver (new_boot_image ptr data) = Inr (driver, kernel)"
      "heap_alloc (kn_ho env) \<lparr>l_size = 4096, l_align = 4096\<rparr> (ks_heap s2) = Inr (a, heap)"
      "new_kernel_process (kn_pg env) driver kernel 0 0 mem (ks_tables s2, ks_ram s2, ks_idindex s2) = Inr (proc, t, m, n)"
      "process_manager_init (ks_handlers s2) = Inr hs"
      "s' = s2\<lparr>ks_syscall_sp := kn_rsp env, ks_heap := heap, ks_tables := t, ks_ram := m, ks_idindex := n, ks_handlers := hs, ks_int_flag := True\<rparr>"
    using assms by (auto simp: kernel_start_def Let_def)
  then show ?thesis by auto
qed

lemma take_over_result:
  assumes "take_over env parameters s = Inr (mem, s')"
  shows "ks_system_table s = 0" "ks_system_table s' = kp_system_table parameters" "ks_ram s' = ks_ram s" "ks_handlers s' = ks_handlers s"
    "ks_pm s' = ks_pm s" "ks_idindex s' = ks_idindex s" "ks_ports s' = ks_ports s" "get_mem_size (kp_memory_map parameters) = Inr mem"
    "ks_heap s' = kp_heap parameters"
    "boot_area_kept env P \<Longrightarrow> boot_area_free env P (ks_tables s) \<Longrightarrow> boot_area_free env P (ks_tables s')"
  using assms
  by (auto simp: take_over_def register_global_system_table_def compare_exchange_def init_heap_def heap_update_def boot_area_kept_def
      split: if_splits)



section \<open>Witnesses\<close>

text \<open>2 MiB pages in the sample tables: page \<open>n\<close> under the number \<open>2^40 + n\<close>, apart from the 4 KiB pages.\<close>

definition sample_2m :: "(nat, nat, sample_tables) mapper" where
  "sample_2m = (sample_mapper cur_tab (\<lambda>x w. w\<lparr>cur_tab := x\<rparr>))
     \<lparr>frame_containing := (\<lambda>a. Inr (a div 0x200000)), frame_range := (\<lambda>a b. Inr (map id [a div 0x200000..<Suc (b div 0x200000)])),
      page_range := (\<lambda>a b. Inr (map (\<lambda>n. 2 ^ 40 + n) [a div 0x200000..<Suc (b div 0x200000)]))\<rparr>"

definition sample_kernel_env :: "(nat, nat, nat, nat, sample_tables, nat, unit, unit) kernel_env" where
  "sample_kernel_env =
     \<lparr>kn_pg = sample_paging, kn_2m = sample_2m, kn_2m_page = (\<lambda>v. Inr (2 ^ 40 + v div 0x200000)), kn_2m_start = (\<lambda>f. 0x200000 * f),
      kn_frames = addr_frames, kn_set_allocator = (\<lambda>fa t. t), kn_ho = counting_holes, kn_bf = plain_bit_field, kn_dev = (\<lambda>t a. 0),
      kn_apic_msr = 0xFEE00900, kn_acpi_init = (\<lambda>mm t. Inr t), kn_madt = Some (), kn_first_io_apic = (\<lambda>md. Some 0xFEC00000),
      kn_mcfg = Some (), kn_aml_init = Inr, kn_rsp = 0x9000\<rparr>"

lemma sample_2m_ok: "mapper_ok (kn_2m sample_kernel_env)" "fails_only_mapped (kn_2m sample_kernel_env)" "pages_2m sample_kernel_env (\<lambda>n. 2 ^ 40 + n) id"
  by (auto simp: mapper_ok_def fails_only_mapped_def pages_2m_def sample_kernel_env_def sample_2m_def sample_mapper_def inj_def split: option.splits
      simp del: upt_Suc)

lemma sample_boot_area:
  "boot_area_free sample_kernel_env (\<lambda>n. 2 ^ 40 + n) t \<longleftrightarrow> (\<forall>i. cur_tab t (2 ^ 40 + (51200 + i)) = None)"
  "boot_area_kept sample_kernel_env (\<lambda>n. 2 ^ 40 + n)"
proof -
  show f: "boot_area_free sample_kernel_env (\<lambda>n. 2 ^ 40 + n) t \<longleftrightarrow> (\<forall>i. cur_tab t (2 ^ 40 + (51200 + i)) = None)" for t
    by (simp add: boot_area_free_def sample_kernel_env_def sample_2m_def sample_mapper_def BOOT_IMAGE_def size_macros)
  have "\<forall>i. cur_tab t' (2 ^ 40 + (51200 + i)) = None"
    if "map_phys (cur_map sample_paging) 0xFEC00000 4096 t = Inr (r, t')" "\<forall>i. cur_tab t (2 ^ 40 + (51200 + i)) = None" for t r t'
    using that by (auto simp: map_phys_def sample_paging_def sample_mapper_def upt_rec split: option.splits)
  then show "boot_area_kept sample_kernel_env (\<lambda>n. 2 ^ 40 + n)"
    unfolding boot_area_kept_def f by (simp add: sample_kernel_env_def)
qed

text \<open>A boot image at 2 MiB with the sample program as kernel and as driver.\<close>

definition image_at :: "u8 list \<Rightarrow> memory" where
  "image_at bs = (\<lambda>a. if 0x200000 \<le> a \<and> a < 0x200000 + length bs then bs ! (a - 0x200000) else 0)"

lemma image_at_bytes: "map (image_at bs) [0x200000..<0x200000 + length bs] = bs"
  by (rule nth_equalityI) (simp_all add: image_at_def)

lemma sample_map_boot_image:
  assumes "\<forall>i. cur_tab t (2 ^ 40 + (51200 + i)) = None" "len < 0x200000"
  shows "map_boot_image sample_kernel_env (0x200000, len) t = Inr (BOOT_IMAGE, t\<lparr>cur_tab := (cur_tab t)(2 ^ 40 + 51200 \<mapsto> 1)\<rparr>)"
proof -
  have d: "(0x200000 + len) div 0x200000 = 1" "(BOOT_IMAGE + len) div 0x200000 = 51200" "BOOT_IMAGE div 0x200000 = 51200" "BOOT_IMAGE = 107374182400"
    using assms(2) by (simp_all add: BOOT_IMAGE_def size_macros)
  have "cur_tab t (2 ^ 40 + 51200) = None" using assms(1) [rule_format, of 0] by simp
  then show ?thesis
    using assms(2) d by (simp add: map_boot_image_def map_virt_def map_boot_frame_def sample_kernel_env_def sample_2m_def sample_mapper_def chk_def sub_chk_def)
qed

definition sample_parameters :: "nat \<Rightarrow> nat KernelParameters" where
  "sample_parameters len =
     \<lparr>kp_memory_map = [sample_desc 4096 4, sample_desc 32768 4], kp_boot_image = (0x200000, len),
      kp_frame_allocator = new_allocator [sample_desc 4096 4, sample_desc 32768 4], kp_system_table = 0x7000,
      kp_heap = heap_init counting_holes HEAP_START HEAP_SIZE (heap_empty counting_holes)\<rparr>"

definition sample_state :: "u8 list \<Rightarrow> (sample_tables, nat, unit, unit) kernel_state" where
  "sample_state bs =
     \<lparr>ks_tables = sample_start, ks_heap = heap_empty counting_holes, ks_system_table = 0, ks_ram = image_at bs, ks_idindex = 0,
      ks_int_flag = True, ks_idt = Map.empty, ks_lapic = lapic_new, ks_ioapic = ioapic_new, ks_trace = [], ks_ports = [], ks_pci = pci_new,
      ks_syscall_sp = 0, ks_handlers = HANDLERS_init, ks_pm = manager_init\<rparr>"

lemma sample_take_over:
  "\<exists>mem. take_over sample_kernel_env (sample_parameters len) (sample_state bs)
     = Inr (mem, (sample_state bs)\<lparr>ks_heap := kp_heap (sample_parameters len), ks_system_table := 0x7000\<rparr>)"
proof -
  have ar: "address_range (sample_desc a n) = Inr (a, a + n * 4096)" if "a + n * 4096 \<le> 2 ^ 52" for a n
    using that by (simp add: address_range_ok)
  have "\<exists>fa. swap_map addr_frames [sample_desc 4096 4, sample_desc 32768 4] (new_allocator [sample_desc 4096 4, sample_desc 32768 4]) = Inr fa"
    by (simp add: swap_map_def new_allocator_def allocate_frame_def addr_frames_def ar)
  moreover have "\<exists>mem. get_mem_size [sample_desc 4096 4, sample_desc 32768 4] = Inr mem"
    by (simp add: get_mem_size_def is_end_entry_def desc_bytes_def chk_def)
  ultimately show ?thesis
    by (auto simp: take_over_def sample_kernel_env_def sample_parameters_def sample_state_def register_global_system_table_def compare_exchange_def
        init_heap_def heap_update_def heap_empty_def heap_init_def)
qed

lemma sample_init_devices:
  assumes "ks_tables s = sample_start" "len < 0x200000"
  shows "\<exists>s'. init_devices sample_kernel_env (sample_parameters len) s = Inr (BOOT_IMAGE, s')
    \<and> cur_tab (ks_tables s') (2 ^ 40 + 51200) = Some 1 \<and> cur_tab (ks_tables s') 0x401 = Some 2 \<and> new_tab (ks_tables s') = Map.empty"
proof -
  let ?t = "sample_start\<lparr>cur_tab := (cur_tab sample_start)(0xFEC00 \<mapsto> 0xFEC00, 0xFEC01 \<mapsto> 0xFEC01)\<rparr>"
  have mp: "map_phys (cur_map sample_paging) 0xFEC00000 4096 sample_start = Inr (Inr (), ?t)"
    by (simp add: map_phys_def sample_paging_def sample_mapper_def sample_start_def upt_rec)
  have "\<exists>re. set_vector plain_bit_field 0x45 redirection_new = Inr re"
    by (simp add: set_vector_def plain_bit_field_def redirection_new_def)
  moreover obtain la tr where "lapic_init (\<lambda>t a. 0) 0xFEE00900 (ks_lapic s) (ks_trace s) = (la, tr)" by fastforce
  ultimately obtain s1 where s1: "interrupts_init sample_kernel_env (s\<lparr>ks_tables := sample_start\<rparr>) = Inr s1" "ks_tables s1 = ?t"
    using mp by (auto simp: interrupts_init_def ioapic_init_def sample_kernel_env_def out8_def chk_def Let_def split: prod.splits)
  have "\<forall>i. cur_tab ?t (2 ^ 40 + (51200 + i)) = None" by (simp add: sample_start_def)
  from sample_map_boot_image [OF this assms(2)] s1 assms(1) show ?thesis
    by (simp add: init_devices_def sample_parameters_def pci_init_def) (simp add: sample_kernel_env_def sample_start_def)
qed

definition two_files :: "path_buf list" where
  "two_files = [kernel_path, kernel_path]"

lemma two_files_ok:
  "\<forall>p \<in> set two_files. input_ok elf_content (\<lambda>_. ascii ''kernel'') (\<lambda>_. sample_elf) p \<and> utf8_valid (name_arr (ascii ''kernel''))"
  "1668 + total (\<lambda>_. sample_elf) two_files < 2 ^ 32" "length two_files \<le> MAX_FILES" "0 < total (\<lambda>_. sample_elf) two_files"
  "fs_create elf_content boot_image_path" "2 \<le> length two_files"
  using elf_content_ok(1,5) by (simp_all add: two_files_def sample_elf_def encode_lengths MAX_FILES_def)

lemma two_files_image:
  "\<exists>f. boot_image_main elf_content two_files = Inr f \<and> length (fbytes f) < 0x200000
     \<and> find_driver (new_boot_image BOOT_IMAGE (fbytes f)) = Inr (sample_elf, sample_elf)"
proof -
  obtain f where f: "boot_image_main elf_content two_files = Inr f" "find_driver (new_boot_image BOOT_IMAGE (fbytes f)) = Inr (sample_elf, sample_elf)"
    using generated_image_driver [OF two_files_ok] by auto
  have i: "\<forall>p \<in> set two_files. input_ok elf_content (\<lambda>_. ascii ''kernel'') (\<lambda>_. sample_elf) p" using two_files_ok(1) by blast
  have l: "length two_files = 2" by (simp add: two_files_def)
  have "length (fbytes f) = 1668 + total (\<lambda>_. sample_elf) two_files"
    using boot_image_bytes [OF i two_files_ok(2) _ two_files_ok(4,5)] f(1) l
      expected_headers_table [of "\<lambda>_. ascii ''kernel''" "\<lambda>_. sample_elf" two_files 1668] by auto
  then have "length (fbytes f) < 0x200000" by (simp add: two_files_def sample_elf_def encode_lengths)
  with f show ?thesis by blast
qed

lemma sample_kernel_env_run:
  assumes "length bs < 0x200000" "find_driver (new_boot_image BOOT_IMAGE bs) = Inr (sample_elf, sample_elf)"
  shows "\<exists>proc s'. kernel_start sample_kernel_env (sample_parameters (length bs)) (sample_state bs) = Inr (proc, s')"
proof -
  let ?p = "sample_parameters (length bs)"
  obtain mem where o: "take_over sample_kernel_env ?p (sample_state bs)
      = Inr (mem, (sample_state bs)\<lparr>ks_heap := kp_heap ?p, ks_system_table := 0x7000\<rparr>)" (is "_ = Inr (mem, ?s1)")
    using sample_take_over by blast
  have st: "ks_tables ?s1 = sample_start" by (simp add: sample_state_def)
  obtain s2 where d: "init_devices sample_kernel_env ?p ?s1 = Inr (BOOT_IMAGE, s2)" "cur_tab (ks_tables s2) (2 ^ 40 + 51200) = Some 1"
      "cur_tab (ks_tables s2) 0x401 = Some 2" "new_tab (ks_tables s2) = Map.empty"
    using sample_init_devices [OF st assms(1)] by blast
  note r = init_devices_result [OF d(1)]
  have rd: "boot_image_bytes_at sample_kernel_env (ks_tables s2) (image_at bs) BOOT_IMAGE k = Inr (map (\<lambda>x. image_at bs (0x200000 + x mod 0x200000)) [BOOT_IMAGE..<BOOT_IMAGE + k])"
    if "k < 0x200000" for k
    unfolding boot_image_bytes_at_def
  proof (rule map_r_pure)
    fix x assume "x \<in> set [BOOT_IMAGE..<BOOT_IMAGE + k]"
    then have "x div 0x200000 = 51200" using that by (intro div_nat_eqI) (auto simp: BOOT_IMAGE_def size_macros)
    then show "read_virtual sample_kernel_env (ks_tables s2) (image_at bs) x = Inr (image_at bs (0x200000 + x mod 0x200000))"
      using d(2) by (simp add: read_virtual_def sample_kernel_env_def sample_2m_def sample_mapper_def)
  qed
  have "map (\<lambda>x. image_at bs (0x200000 + x mod 0x200000)) [BOOT_IMAGE..<BOOT_IMAGE + length bs] = bs"
  proof (rule nth_equalityI)
    fix i assume "i < length (map (\<lambda>x. image_at bs (0x200000 + x mod 0x200000)) [BOOT_IMAGE..<BOOT_IMAGE + length bs])"
    then have i: "i < length bs" "i < 0x200000" using assms(1) by simp_all
    have b: "BOOT_IMAGE = 51200 * 0x200000" by (simp add: BOOT_IMAGE_def size_macros)
    have "(BOOT_IMAGE + i) mod 0x200000 = i" unfolding b using i(2) by (simp only: mod_mult_self3 mod_less)
    with i(1) show "map (\<lambda>x. image_at bs (0x200000 + x mod 0x200000)) [BOOT_IMAGE..<BOOT_IMAGE + length bs] ! i = bs ! i" by (simp add: image_at_def)
  qed simp
  with rd [OF assms(1)] have img: "boot_image_bytes_at sample_kernel_env (ks_tables s2) (image_at bs) BOOT_IMAGE (length bs) = Inr bs" by simp
  have "ks_heap s2 = heap_init counting_holes HEAP_START HEAP_SIZE (heap_empty counting_holes)" using r(5) by (simp add: sample_parameters_def)
  then obtain a heap where al: "heap_alloc counting_holes \<lparr>l_size = 4096, l_align = 4096\<rparr> (ks_heap s2) = Inr (a, heap)"
    using counting_heap_alloc [of "\<lparr>l_size = 4096, l_align = 4096\<rparr>" "ks_heap s2"]
    by (auto simp: heap_init_def heap_empty_def counting_holes_def HEAP_SIZE_def size_macros)
  obtain P t' m' n' where "from_elf sample_paging sample_elf sample_elf 0 0 mem (ks_tables s2, image_at bs, ks_idindex s2) = Inr (P, t', m', n')"
    using sample_from_elf [OF d(4,3)] by metis
  moreover have "ks_ram s2 = image_at bs" using r(4) by (simp add: sample_state_def)
  moreover have "\<exists>hs. process_manager_init (ks_handlers s2) = Inr hs"
    using r(7) by (simp add: sample_state_def process_manager_init_def register_handler_nth HANDLERS_init_def)
  moreover have "kn_pg sample_kernel_env = sample_paging" "kn_ho sample_kernel_env = counting_holes" "kp_boot_image ?p = (0x200000, length bs)"
    by (simp_all add: sample_kernel_env_def sample_parameters_def)
  ultimately show ?thesis
    using o d(1) rd [of 32] img al assms(2) by (auto simp: kernel_start_def new_kernel_process_def Let_def)
qed




end
