(* ===== verification/Frame_Handover.thy ===== *)
theory Frame_Handover
  imports Kernel_Start
begin

text \<open>
  Physical frames across loader and kernel (\<open>kernel_loader/src/main.rs\<close>, \<open>kernel/src/main.rs\<close>, \<open>common/src/mem.rs\<close>): the loader passes its frame
  allocator on, and the kernel continues with the memory map it is given.
\<close>

lemma runtime_identity_simps [simp]:
  "memory_type (runtime_identity d) = memory_type d" "physical_address (runtime_identity d) = physical_address d"
  "desc_end (runtime_identity d) = desc_end d"
  by (simp_all add: runtime_identity_def desc_end_def)

lemma usable_runtime_identity: "usable_descs (map runtime_identity mm) = map runtime_identity (usable_descs mm)"
  by (induction mm) simp_all

lemma adjusted_map_ok:
  "regions_sorted mm \<Longrightarrow> regions_sorted (map runtime_identity mm)" "map_ok mm \<Longrightarrow> map_ok (map runtime_identity mm)"
  by (auto simp: regions_sorted_def map_ok_def usable_runtime_identity sorted_wrt_map)

lemma loader_map:
  assumes "paging_ok (lo_pg env)" "get_memory_map (lo_bs env) image_handle DESCRIPTORS = Inr (mm, v)"
    and "loader_run env ks ke image_handle system_table (g, m, n, sg) = Inr hv"
  shows "kp_memory_map (hv_parameters hv) = map runtime_identity mm"
proof -
  obtain P a heap t m' sg' where h: "hand_over env mm v P a heap t m' system_table sg' = Inr hv"
    using assms(2,3) by (auto simp: loader_run_def register_global_system_table_def compare_exchange_def split: if_splits)
  obtain vmap t1 t2 where "map_state (map_runtime_desc (lo_pg env)) mm t1 = Inr (vmap, t2)" "kp_memory_map (hv_parameters hv) = vmap"
    using h by (auto simp: hand_over_def Let_def)
  with map_runtime_descs [OF assms(1)] show ?thesis by blast
qed



end
