(* ===== verification/Syscall.thy ===== *)
theory Syscall
  imports Scheduler
begin

text \<open>
  \<open>kernel/src/syscall.rs\<close>: the calls of a user program (\<open>Syscall<T>::syscall\<close>), and how they fit the entry stub of the kernel and the segments
  of \<open>kernel_api/common/src/gdt.rs\<close>.

  The \<open>syscall\<close> instruction saves the return address in rcx and the flags in r11 and clears the flags of the mask register, here the interrupt
  flag (\<open>jump_usermode\<close> writes 0x200); the stack pointer and the address space stay those of the program.
\<close>

section \<open>System calls\<close>

definition syscall_insn :: "u64 \<Rightarrow> u64 \<Rightarrow> machine \<Rightarrow> machine" where
  "syscall_insn rip flags m = m\<lparr>regs := (regs m)(RCX := rip, R11 := flags), int_flag := False\<rparr>"

definition syscall_number :: "SyscallType \<Rightarrow> u64" where
  "syscall_number stype = (case stype of Write \<Rightarrow> 0 | Unknown \<Rightarrow> 1)"

text \<open>The registers each of the five wrappers loads before the instruction.\<close>

definition syscall_none :: "SyscallType \<Rightarrow> (reg \<times> u64) list" where
  "syscall_none stype = [(RAX, syscall_number stype)]"

definition syscall_one :: "SyscallType \<Rightarrow> u64 \<Rightarrow> (reg \<times> u64) list" where
  "syscall_one stype a = [(RDI, syscall_number stype), (R8, a)]"

definition syscall_two :: "SyscallType \<Rightarrow> u64 \<Rightarrow> u64 \<Rightarrow> (reg \<times> u64) list" where
  "syscall_two stype a b = [(RDI, syscall_number stype), (R8, a), (R9, b)]"

definition syscall_three :: "SyscallType \<Rightarrow> u64 \<Rightarrow> u64 \<Rightarrow> u64 \<Rightarrow> (reg \<times> u64) list" where
  "syscall_three stype a b c = [(RDI, syscall_number stype), (R8, a), (R9, b), (R10, c)]"

definition syscall_four :: "SyscallType \<Rightarrow> u64 \<Rightarrow> u64 \<Rightarrow> u64 \<Rightarrow> u64 \<Rightarrow> (reg \<times> u64) list" where
  "syscall_four stype a b c d = [(RDI, syscall_number stype), (R8, a), (R9, b), (R10, c), (R12, d)]"

definition load_regs :: "(reg \<times> u64) list \<Rightarrow> machine \<Rightarrow> machine" where
  "load_regs ins m = m\<lparr>regs := fold (\<lambda>(r, v) f. f(r := v)) ins (regs m)\<rparr>"

text \<open>The snapshot that \<open>syscall_entry\<close> is given when a program makes a call with these registers.\<close>

definition snapshot_of_call :: "(reg \<times> u64) list \<Rightarrow> u64 \<Rightarrow> u64 \<Rightarrow> 'w kernel \<Rightarrow> CpuSnapshot" where
  "snapshot_of_call ins rip flags k =
     (let k1 = enter_kernel_stack (k\<lparr>mach := interrupt_begin (syscall_insn rip flags (load_regs ins (mach k)))\<rparr>)
      in snapshot_at (ram (mach k1)) (regs (mach k1) RDX))"

section \<open>Arguments\<close>

lemma snapshot_of_call_fields:
  "snapshot_of_call ins rip flags k =
     (let f = regs (syscall_insn rip flags (load_regs ins (mach k)))
      in \<lparr>s_rbp = f RBP, s_r15 = f R15, s_r14 = f R14, s_r13 = f R13, s_r12 = f R12, s_r11 = f R11, s_r10 = f R10, s_r9 = f R9,
          s_r8 = f R8, s_rdi = f RDI, s_rsi = f RSI, s_rax = f RDX, s_rbx = f RCX, s_rcx = f RBX, s_rdx = f RAX\<rparr>)"
  by (simp add: snapshot_of_call_def Let_def enter_kernel_stack_simps snapshot_fields)


section \<open>System call selectors\<close>

text \<open>
  The processor's rules: \<open>syscall\<close> takes CS from bits 32--47 of STAR and SS eight behind it; \<open>sysretq\<close> takes CS sixteen and SS eight
  behind bits 48--63, both with privilege level 3.
\<close>

definition syscall_cs :: "u64 \<Rightarrow> nat" where "syscall_cs star = unat (drop_bit 32 star AND 0xFFFF)"
definition syscall_ss :: "u64 \<Rightarrow> nat" where "syscall_ss star = syscall_cs star + 8"
definition sysret_cs :: "u64 \<Rightarrow> nat" where "sysret_cs star = unat (drop_bit 48 star) + 16 + 3"
definition sysret_ss :: "u64 \<Rightarrow> nat" where "sysret_ss star = unat (drop_bit 48 star) + 8 + 3"

lemma fault_stack:
  assumes "gdt_ok go" "st + STACK_SIZE < 2 ^ 64" "v = 8 \<or> v = 14"
  shows "\<exists>s' h i. gdt_init go st a s = Inr s' \<and> IDT v = Some (h, Some i) \<and> seg_ist s' ! i = st + STACK_SIZE"
  using gdt_init_registers [OF assms(1,2)] assms(3) by (fastforce simp: IDT_at)



end
