(* ===== verification/Exceptions.thy ===== *)
theory Exceptions
  imports Apic Serial Interrupts
begin

text \<open>
  The handlers of the processor exceptions and of the spurious interrupt in \<open>kernel/src/interrupts.rs\<close>.

  The text that the crate \<open>x86_64\<close> formats for an interrupt stack frame, an error code and the register CR2 is a parameter. A handler that
  ends in \<open>loop {}\<close> has the outcome \<open>Halts\<close>; the others return to the interrupted program.
\<close>

datatype outcome = Returns | Halts

record exception_text =
  frame_text :: "str list"
  code_text :: "str list"
  cr2_text :: "str list"

type_synonym exception_effect = "port_trace \<times> trace \<Rightarrow> (outcome \<times> port_trace \<times> trace) res option"

text \<open>Print lines one after the other, and then return or stay in the loop.\<close>

primrec print_lines :: "(port_trace \<Rightarrow> nat \<Rightarrow> u8) \<Rightarrow> str list list \<Rightarrow> outcome \<Rightarrow> exception_effect" where
  "print_lines dev [] r s = Some (Inr (r, s))"
| "print_lines dev (l # ls) r s =
     (case kprintln dev l (fst s) of
        None \<Rightarrow> None
      | Some (Inl e) \<Rightarrow> Some (Inl e)
      | Some (Inr ports) \<Rightarrow> print_lines dev ls r (ports, snd s))"

section \<open>The handlers\<close>

definition breakpoint_line :: "exception_text \<Rightarrow> str list" where
  "breakpoint_line x = (ascii ''EXCPETION: BREAKPOINT'' @ [0x0A]) # frame_text x @ [[0x0A]]"

definition breakpoint_body :: "(port_trace \<Rightarrow> nat \<Rightarrow> u8) \<Rightarrow> exception_text \<Rightarrow> exception_effect" where
  "breakpoint_body dev x = print_lines dev [breakpoint_line x] Returns"

definition nmi_line :: "exception_text \<Rightarrow> str list" where
  "nmi_line x = (ascii ''EXCPETION: NMI'' @ [0x0A]) # frame_text x @ [[0x0A]]"

definition nmi_body :: "(port_trace \<Rightarrow> nat \<Rightarrow> u8) \<Rightarrow> exception_text \<Rightarrow> exception_effect" where
  "nmi_body dev x = print_lines dev [nmi_line x] Returns"

definition segment_not_present_body :: "(port_trace \<Rightarrow> nat \<Rightarrow> u8) \<Rightarrow> exception_text \<Rightarrow> exception_effect" where
  "segment_not_present_body dev x = print_lines dev [] Returns"

definition general_protection_line :: "exception_text \<Rightarrow> str list" where
  "general_protection_line x = (ascii ''EXCPETION: GP'' @ [0x0A]) # frame_text x @ [[0x0A]] @ code_text x @ [[0x0A]]"

definition general_protection_body :: "(port_trace \<Rightarrow> nat \<Rightarrow> u8) \<Rightarrow> exception_text \<Rightarrow> exception_effect" where
  "general_protection_body dev x = print_lines dev [general_protection_line x] Halts"

definition double_fault_line :: "exception_text \<Rightarrow> str list" where
  "double_fault_line x = (ascii ''EXCPETION: Double Fault'' @ [0x0A]) # frame_text x @ [[0x0A]] @ code_text x @ [[0x0A]]"

definition double_fault_body :: "(port_trace \<Rightarrow> nat \<Rightarrow> u8) \<Rightarrow> exception_text \<Rightarrow> exception_effect" where
  "double_fault_body dev x = print_lines dev [double_fault_line x] Halts"

definition pagefault_line :: "exception_text \<Rightarrow> str list" where
  "pagefault_line x = (ascii ''EXCPETION: PAGE FAULT'' @ [0x0A]) # frame_text x @ [[0x0A]] @ code_text x @ [[0x0A]]"

definition pagefault_address_line :: "exception_text \<Rightarrow> str list" where
  "pagefault_address_line x = ascii ''Address: '' # cr2_text x @ [[0x0A]]"

definition pagefault_body :: "(port_trace \<Rightarrow> nat \<Rightarrow> u8) \<Rightarrow> exception_text \<Rightarrow> exception_effect" where
  "pagefault_body dev x = print_lines dev [pagefault_line x, pagefault_address_line x] Halts"

definition lapic_spurious_body :: "(port_trace \<Rightarrow> nat \<Rightarrow> u8) \<Rightarrow> LocalApic \<Rightarrow> exception_effect" where
  "lapic_spurious_body dev apic s =
     (case print_lines dev [[ascii ''LAPIC Spurious'']] Returns s of
        Some (Inr (r, ports, tr)) \<Rightarrow> Some (Inr (r, ports, send_eoi apic tr))
      | r \<Rightarrow> r)"

text \<open>
  The panic handlers of the kernel and of the loader print the message and location that \<open>PanicInfo\<close> displays (\<open>info\<close>), and stay in a loop.
\<close>

definition panic_line :: "str list \<Rightarrow> str list" where
  "panic_line info = ascii ''PANIC! '' # info @ [[0x0A]]"

definition panic_handler :: "(port_trace \<Rightarrow> nat \<Rightarrow> u8) \<Rightarrow> str list \<Rightarrow> exception_effect" where
  "panic_handler dev info = print_lines dev [panic_line info] Halts"

definition loader_panic_handler :: "(port_trace \<Rightarrow> nat \<Rightarrow> u8) \<Rightarrow> str list \<Rightarrow> exception_effect" where
  "loader_panic_handler dev info = print_lines dev [ascii ''LOADER PANIC! '' # info @ [[0x0A]]] Halts"

text \<open>What runs for an entry of the descriptor table; the stubs of the hardware interrupts are in \<open>Interrupts\<close>.\<close>

fun exception_body :: "(port_trace \<Rightarrow> nat \<Rightarrow> u8) \<Rightarrow> LocalApic \<Rightarrow> exception_text \<Rightarrow> Interrupts.entry \<Rightarrow> exception_effect option" where
  "exception_body dev apic x breakpoint_handler = Some (breakpoint_body dev x)"
| "exception_body dev apic x nmi_handler = Some (nmi_body dev x)"
| "exception_body dev apic x segment_not_present_handler = Some (segment_not_present_body dev x)"
| "exception_body dev apic x general_protection_handler = Some (general_protection_body dev x)"
| "exception_body dev apic x double_fault_handler = Some (double_fault_body dev x)"
| "exception_body dev apic x pagefault_handler = Some (pagefault_body dev x)"
| "exception_body dev apic x lapic_spurious = Some (lapic_spurious_body dev apic)"
| "exception_body dev apic x (isr_stub v) = None"

section \<open>Correctness\<close>

definition line_out :: "str list \<Rightarrow> str" where
  "line_out l = crlf (concat l) @ [0x0D, 0x0D, 0x0A]"

lemma print_lines_sends:
  assumes "transmitter_fair dev 0x3FD"
  shows "\<exists>ports'. print_lines dev ls r (ports, tr) = Some (Inr (r, ports', tr)) \<and> sent 0x3F8 ports' = sent 0x3F8 ports @ concat (map line_out ls)"
proof (induction ls arbitrary: ports)
  case (Cons l ls)
  obtain p where "kprintln dev l ports = Some (Inr p)" "sent 0x3F8 p = sent 0x3F8 ports @ line_out l"
    using kprintln_sends [OF assms, of l ports] by (auto simp: line_out_def)
  with Cons.IH [of p] show ?case by auto
qed simp



end
