(* ===== verification/Pci_Bus.thy ===== *)
theory Pci_Bus
  imports Pci
begin

text \<open>
  What \<open>kernel/src/drivers/pci.rs\<close> does: the layout of the configuration window (\<open>form_address\<close>), where its pages are mapped
  (\<open>map_address\<close>), which functions a traversal visits, and the resources read from base address registers.

  \<open>pci_env_ok\<close> collects what the code relies on in the crate \<open>x86_64\<close> and the address translation. \<open>window_maps\<close> is the invariant
  of the page tables that every access keeps.
\<close>

section \<open>Addresses of the configuration space\<close>

lemma ecam_offset:
  assumes "device < 32" "function < 8"
  shows "unat (push_bit 20 (ucast bus) OR push_bit 15 (ucast device) OR push_bit 12 (ucast function) OR ucast offset AND 0xFFF :: u64)
    = unat (bus :: u8) * 0x100000 + unat (device :: u8) * 0x8000 + unat (function :: u8) * 0x1000 + unat (offset :: u16) mod 0x1000"
proof -
  have l: "unat device < 32" "unat function < 8" "unat bus < 256" "unat offset < 65536"
    using assms unsigned_less [of bus] unsigned_less [of offset] by (simp_all add: word_less_nat_alt)
  have p: "unat (push_bit n (ucast x :: u64)) = 2 ^ n * unat x" if "n \<le> 20" for n and x :: u8
  proof -
    have "(2 :: nat) ^ n \<le> 2 ^ 20" using that by (intro power_increasing) auto
    then have "unat x * 2 ^ n < 2 ^ 8 * 2 ^ 20" using unsigned_less [of x]
      by (intro mult_less_le_imp_less) auto
    moreover have "unat x < 2 ^ LENGTH(8)" by (rule unsigned_less)
    then have "take_bit 64 (unat x) = unat x" by (simp add: take_bit_nat_eq_self)
    ultimately show ?thesis
      unfolding unsigned_push_bit_eq by (simp add: unsigned_ucast_eq push_bit_eq_mult take_bit_nat_eq_self mult.commute)
  qed
  have m: "unat (ucast offset AND 0xFFF :: u64) = unat offset mod 2 ^ 12"
  proof -
    have "(0xFFF :: u64) = mask 12" by (simp add: mask_eq_exp_minus_1)
    then have "unat (ucast offset AND 0xFFF :: u64) = take_bit 12 (unat (ucast offset :: u64))"
      by (simp only: take_bit_eq_mask [symmetric] unsigned_take_bit_eq)
    also have "\<dots> = take_bit 12 (unat offset)" by (simp add: unsigned_ucast_eq)
    finally show ?thesis by (simp add: take_bit_eq_mod)
  qed
  let ?o = "unat offset mod 2 ^ 12"
  have lo: "?o < 4096" by simp
  have o: "2 ^ n * b OR a = a + 2 ^ n * b" if "a < 2 ^ n" for a b n :: nat
    using or_disjoint [OF that] by (simp add: or.commute)
  have "2 ^ 12 * unat function OR ?o = ?o + 2 ^ 12 * unat function" by (rule o) simp
  moreover have "2 ^ 15 * unat device OR (?o + 2 ^ 12 * unat function) = ?o + 2 ^ 12 * unat function + 2 ^ 15 * unat device"
    using l(2) lo by (intro o) simp
  moreover have "2 ^ 20 * unat bus OR (?o + 2 ^ 12 * unat function + 2 ^ 15 * unat device)
      = ?o + 2 ^ 12 * unat function + 2 ^ 15 * unat device + 2 ^ 20 * unat bus"
    using l(1,2) lo by (intro o) simp
  moreover have "unat (push_bit 20 (ucast bus) OR push_bit 15 (ucast device) OR push_bit 12 (ucast function) OR ucast offset AND 0xFFF :: u64)
      = 2 ^ 20 * unat bus OR (2 ^ 15 * unat device OR (2 ^ 12 * unat function OR ?o))"
    unfolding unsigned_or_eq m by (simp only: p [of 20] p [of 15] p [of 12] order_refl numeral_le_iff semiring_norm)
  ultimately show ?thesis by simp
qed

lemma ecam_bound:
  assumes "device < 32" "function < 8"
  shows "unat (bus :: u8) * 0x100000 + unat (device :: u8) * 0x8000 + unat (function :: u8) * 0x1000 + 4095 < 0x10000000"
proof -
  have "unat device < 32" "unat function < 8" "unat bus < 256"
    using assms unsigned_less [of bus] by (simp_all add: word_less_nat_alt)
  then show ?thesis by simp
qed

lemma form_address_eq:
  assumes "mcfg self = Some t" "mcfg_index env t 0 = Inr seg" "seg_address seg < 2 ^ 52" "device < 32" "function < 8"
  shows "form_address env self (seg_address seg) bus device function offset
    = Inr (CONFIG_SPACE + (unat bus * 0x100000 + unat device * 0x8000 + unat function * 0x1000) + unat offset mod 0x1000)"
proof -
  have "unat offset mod 0x1000 < 0x1000" by simp
  then have "unat bus * 0x100000 + unat device * 0x8000 + unat function * 0x1000 + unat offset mod 0x1000 < 0x10000000"
    using ecam_bound [OF assms(4,5), of bus] by linarith
  then show ?thesis
    using assms(1-3) unfolding form_address_def ecam_offset [OF assms(4,5)]
    by (simp add: chk_def sub_chk_def CONFIG_SPACE_def size_tb_def)
qed

text \<open>
  The address formed for a register of a function decodes to exactly its bus, device, function and register number: the
  configuration window holds every function at a place of its own.
\<close>
theorem config_window_decodes:
  assumes "mcfg self = Some t" "mcfg_index env t 0 = Inr seg" "seg_address seg < 2 ^ 52" "device < 32" "function < 8" "offset < 0x1000"
  shows "\<exists>a. form_address env self (seg_address seg) bus device function offset = Inr (CONFIG_SPACE + a)
    \<and> a < 2 ^ 28 \<and> a div 0x100000 = unat bus \<and> a div 0x8000 mod 32 = unat device \<and> a div 0x1000 mod 8 = unat function
    \<and> a mod 0x1000 = unat offset"
proof -
  have l: "unat device < 32" "unat function < 8" "unat bus < 256" "unat offset < 0x1000"
    using assms(4-6) unsigned_less [of bus] by (simp_all add: word_less_nat_alt)
  let ?a = "unat bus * 0x100000 + unat device * 0x8000 + unat function * 0x1000 + unat offset"
  have "form_address env self (seg_address seg) bus device function offset = Inr (CONFIG_SPACE + ?a)"
    using l(4) by (simp add: form_address_eq [OF assms(1-5)])
  moreover have "?a < 2 ^ 28" using l by simp
  moreover have "?a div 0x100000 = unat bus" "?a div 0x8000 = unat bus * 32 + unat device"
      "?a div 0x1000 = (unat bus * 32 + unat device) * 8 + unat function"
    by (rule div_nat_eqI; use l in simp)+
  moreover have "?a mod 0x1000 = unat offset"
  proof -
    have "?a = unat offset + (unat bus * 0x100 + unat device * 8 + unat function) * 0x1000" by simp
    then show ?thesis using l(4) by (metis mod_less mod_mult_self1)
  qed
  moreover have "((unat bus * 32 + unat device) * 8 + unat function) mod 8 = unat function" "(unat bus * 32 + unat device) mod 32 = unat device"
    using l(1,2) by (metis add.commute mod_less mod_mult_self1)+
  ultimately show ?thesis by (intro exI [of _ ?a]) metis
qed

section \<open>The pages of the window\<close>

text \<open>
  What the accesses rely on: ranges of one page, a mapper that maps a free page when it is asked to, and the translation of
  addresses in a mapped page.
\<close>

definition pci_env_ok :: "('m, 'p, 'f, 'w, 'd) pci_env \<Rightarrow> bool" where
  "pci_env_ok env \<longleftrightarrow>
     mapper_ok (pci_mapper env)
   \<and> (\<forall>P. P mod 4096 = 0 \<and> P < 2 ^ 51 \<longrightarrow> (\<exists>f. frame_range (pci_mapper env) P (P + 4095) = Inr [f]))
   \<and> (\<forall>V. V mod 4096 = 0 \<and> V < 2 ^ 46 \<longrightarrow> (\<exists>p. page_range (pci_mapper env) V (V + 4095) = Inr [p]))
   \<and> (\<forall>p f fl w. \<exists>r w'. map_to (pci_mapper env) p f fl w = Inr (r, w') \<and> (translate_page (pci_mapper env) w p = None \<longrightarrow> r = Inr ()))
   \<and> (\<forall>P V f p w n. frame_range (pci_mapper env) P (P + 4095) = Inr [f] \<and> page_range (pci_mapper env) V (V + 4095) = Inr [p]
        \<and> translate_page (pci_mapper env) w p = Some f \<and> P mod 4096 = 0 \<and> V mod 4096 = 0 \<and> n < 4096
        \<longrightarrow> mmu env w (V + n) = Some (P + n))"

text \<open>No page of the window is mapped to another frame than the one at \<open>P\<close>.\<close>

definition window_maps :: "('m, 'p, 'f, 'w, 'd) pci_env \<Rightarrow> nat \<Rightarrow> 'w \<Rightarrow> bool" where
  "window_maps env P w \<longleftrightarrow>
     (\<forall>V p f g. CONFIG_SPACE \<le> V \<and> V < CONFIG_SPACE + 2 ^ 28 \<and> V mod 4096 = 0
        \<and> page_range (pci_mapper env) V (V + 4095) = Inr [p] \<and> frame_range (pci_mapper env) P (P + 4095) = Inr [f]
        \<and> translate_page (pci_mapper env) w p = Some g \<longrightarrow> g = f)"

lemma map_virt_one_page:
  assumes "pci_env_ok env" "frame_range (pci_mapper env) P (P + 4095) = Inr [f]" "page_range (pci_mapper env) V (V + 4095) = Inr [p]"
  shows "\<exists>r w'. map_virt (pci_mapper env) P V 4095 w = Inr (r, w')
    \<and> translate_page (pci_mapper env) w' = (case translate_page (pci_mapper env) w p of
        None \<Rightarrow> (translate_page (pci_mapper env) w)(p := Some f) | Some _ \<Rightarrow> translate_page (pci_mapper env) w)"
proof -
  let ?mp = "pci_mapper env"
  have ok: "mapper_ok ?mp" using assms(1) by (simp add: pci_env_ok_def)
  have "\<forall>p f fl w. \<exists>r w'. map_to ?mp p f fl w = Inr (r, w') \<and> (translate_page ?mp w p = None \<longrightarrow> r = Inr ())"
    using assms(1) unfolding pci_env_ok_def by (elim conjE)
  then obtain r w' where m: "map_to ?mp p f {PRESENT, WRITABLE} w = Inr (r, w')" "translate_page ?mp w p = None \<longrightarrow> r = Inr ()"
    by metis
  have "translate_page ?mp w' = (case translate_page ?mp w p of
        None \<Rightarrow> (translate_page ?mp w)(p := Some f) | Some _ \<Rightarrow> translate_page ?mp w)"
    using ok m by (cases r; cases "translate_page ?mp w p") (auto simp: mapper_ok_def)
  with m(1) assms(2,3) show ?thesis by (cases r) (simp_all add: map_virt_def)
qed

lemma map_address_alias:
  fixes env :: "('m, 'p, 'f, 'w, 'd) pci_env" and s :: "('w, 'd, 'z) pci_state_scheme"
  assumes "pci_env_ok env" "mcfg self = Some t" "mcfg_index env t 0 = Inr seg" "seg_address seg < 2 ^ 51" "seg_address seg mod 4096 = 0"
    and "bus_start seg \<le> bus" "device < 32" "function < 8" "window_maps env (seg_address seg) (tables s)"
  defines "V \<equiv> CONFIG_SPACE + (unat (bus - bus_start seg) * 0x100000 + unat device * 0x8000 + unat function * 0x1000)"
  shows "\<exists>w'. map_address env self 0 bus device function s = Inr (s\<lparr>tables := w'\<rparr>) \<and> window_maps env (seg_address seg) w'
    \<and> (\<forall>n < 4096. mmu env w' (V + n) = Some (seg_address seg + n))"
proof -
  let ?mp = "pci_mapper env" and ?P = "seg_address seg"
  have fa: "form_address env self ?P (bus - bus_start seg) device function 0 = Inr V"
    using assms(4) by (simp add: form_address_eq [OF assms(2,3) _ assms(7,8)] V_def)
  have V: "CONFIG_SPACE \<le> V" "V < CONFIG_SPACE + 2 ^ 28" "V < 2 ^ 46" "V mod 4096 = 0"
    using ecam_bound [OF assms(7,8), of "bus - bus_start seg"] by (auto simp: V_def CONFIG_SPACE_def size_tb_def)
  obtain f p where fp: "frame_range ?mp ?P (?P + 4095) = Inr [f]" "page_range ?mp V (V + 4095) = Inr [p]"
    using assms(1,4,5) V(3,4) unfolding pci_env_ok_def by metis
  obtain r w' where m: "map_virt ?mp ?P V 4095 (tables s) = Inr (r, w')"
      "translate_page ?mp w' = (case translate_page ?mp (tables s) p of
        None \<Rightarrow> (translate_page ?mp (tables s))(p := Some f) | Some _ \<Rightarrow> translate_page ?mp (tables s))"
    using map_virt_one_page [OF assms(1) fp] by blast
  have "map_address env self 0 bus device function s = Inr (s\<lparr>tables := w'\<rparr>)"
    using assms(2,3,6) fa m(1) by (simp add: map_address_def sub_w_def)
  moreover have "translate_page ?mp w' p = Some f"
    using m(2) assms(9) V fp by (auto simp: window_maps_def split: option.splits)
  moreover have "window_maps env ?P w'"
    using m(2) assms(9) fp(1) by (auto simp: window_maps_def split: option.splits if_splits)
  ultimately show ?thesis
    using assms(1,5) fp V(4) unfolding pci_env_ok_def by metis
qed

lemma config_address_alias:
  fixes env :: "('m, 'p, 'f, 'w, 'd) pci_env" and s :: "('w, 'd, 'z) pci_state_scheme"
  assumes "pci_env_ok env" "mcfg self = Some t" "mcfg_index env t 0 = Inr seg" "seg_address seg < 2 ^ 51" "seg_address seg mod 4096 = 0"
    and "bus_start seg \<le> bus" "device < 32" "function < 8" "window_maps env (seg_address seg) (tables s)"
  shows "\<exists>w'. config_address env self 0 bus device function offset s = Inr (seg_address seg + unat offset mod 0x1000, s\<lparr>tables := w'\<rparr>)
    \<and> window_maps env (seg_address seg) w'"
proof -
  obtain w' where "map_address env self 0 bus device function s = Inr (s\<lparr>tables := w'\<rparr>)" "window_maps env (seg_address seg) w'"
      "\<forall>n < 4096. mmu env w' (CONFIG_SPACE + (unat (bus - bus_start seg) * 0x100000 + unat device * 0x8000 + unat function * 0x1000) + n)
        = Some (seg_address seg + n)"
    using map_address_alias [OF assms] by blast
  moreover have "form_address env self (seg_address seg) (bus - bus_start seg) device function offset = Inr
      (CONFIG_SPACE + (unat (bus - bus_start seg) * 0x100000 + unat device * 0x8000 + unat function * 0x1000) + unat offset mod 0x1000)"
    using assms(4) by (simp add: form_address_eq [OF assms(2,3) _ assms(7,8)])
  moreover have "unat offset mod 0x1000 < 4096" by simp
  ultimately show ?thesis
    using assms(2,3,6) by (intro exI [of _ w']) (simp add: config_address_def sub_w_def)
qed

text \<open>
  \<open>map_address\<close> maps every page of the window to the frame at the start of the segment, so whatever function is asked
  for, a read returns, and a write goes to, the register of function 0 of device 0 of the first bus.
\<close>
lemma config_accesses_alias:
  fixes env :: "('m, 'p, 'f, 'w, 'd) pci_env" and s :: "('w, 'd, 'z) pci_state_scheme"
  assumes "pci_env_ok env" "mcfg self = Some t" "mcfg_index env t 0 = Inr seg" "seg_address seg < 2 ^ 51" "seg_address seg mod 4096 = 0"
    and "bus_start seg \<le> bus" "device < 32" "function < 8" "window_maps env (seg_address seg) (tables s)" "offset < 0x1000"
  shows "\<exists>w'. window_maps env (seg_address seg) w'
    \<and> read_u16 env self 0 bus device function offset s
        = Inr (cfg_read16 env (cfg s) (seg_address seg + unat offset), s\<lparr>tables := w'\<rparr>)
    \<and> pci_write_u32 env self 0 bus device function offset v s
        = Inr (s\<lparr>tables := w', cfg := cfg_write32 env (seg_address seg + unat offset) v (cfg s)\<rparr>)"
proof -
  have "unat offset < 0x1000" using assms(10) by (simp add: word_less_nat_alt)
  then show ?thesis
    using config_address_alias [OF assms(1-9), of offset] by (auto simp: read_u16_def pci_write_u32_def)
qed

section \<open>The traversal\<close>

lemma fold_r_log:
  assumes "\<And>x s. x \<in> set xs \<Longrightarrow> I s \<Longrightarrow> \<exists>s'. g x s = Inr s' \<and> I s' \<and> vis s' = vis s @ h x" "I s"
  shows "\<exists>s'. fold_r g xs s = Inr s' \<and> I s' \<and> vis s' = vis s @ concat (map h xs)"
  using assms
proof (induction xs arbitrary: s)
  case (Cons x xs)
  obtain s1 where s1: "g x s = Inr s1" "I s1" "vis s1 = vis s @ h x" using Cons.prems(1) [of x s] Cons.prems(2) by auto
  obtain s2 where "fold_r g xs s1 = Inr s2" "I s2" "vis s2 = vis s1 @ concat (map h xs)"
    using Cons.IH [OF _ s1(2)] Cons.prems(1) by (meson list.set_intros(2))
  with s1 show ?case by simp
qed simp

lemma map_enumerate_fst: "map (\<lambda>e. G (fst e)) (List.enumerate 0 xs) = map G [0..<length xs]"
proof -
  have "map (\<lambda>e. G (fst e)) (List.enumerate 0 xs) = map G (map fst (List.enumerate 0 xs))" by (simp only: map_map o_def)
  also have "map fst (List.enumerate 0 xs) = [0..<length xs]" by (simp add: enumerate_eq_zip)
  finally show ?thesis .
qed

text \<open>The functions of a device, a bus and a table, in the order a traversal should visit them.\<close>

definition device_functions ::
    "(u16 \<Rightarrow> u8 \<Rightarrow> u8 \<Rightarrow> u8 \<Rightarrow> bool) \<Rightarrow> (u16 \<Rightarrow> u8 \<Rightarrow> u8 \<Rightarrow> bool) \<Rightarrow> u16 \<Rightarrow> u8 \<Rightarrow> u8 \<Rightarrow> (u16 \<times> u8 \<times> u8 \<times> u8) list" where
  "device_functions present multi s b d =
     (if present s b d 0 then
        (s, b, d, 0) # (if multi s b d then [(s, b, d, f). f \<leftarrow> map word_of_nat [1..<8], present s b d f] else [])
      else [])"

definition all_functions ::
    "(u16 \<Rightarrow> u8 \<Rightarrow> u8 \<Rightarrow> u8 \<Rightarrow> bool) \<Rightarrow> (u16 \<Rightarrow> u8 \<Rightarrow> u8 \<Rightarrow> bool) \<Rightarrow> nat \<Rightarrow> (u16 \<times> u8 \<times> u8 \<times> u8) list" where
  "all_functions present multi n =
     concat (map (\<lambda>s. concat (map (\<lambda>b. concat (map (device_functions present multi (word_of_nat s) b)
       (map word_of_nat [0..<32]))) (map word_of_nat [0..<256]))) [0..<n])"

lemma check_device_log:
  fixes I :: "('w, 'd, 'z) pci_state_scheme \<Rightarrow> bool"
  assumes vendor: "\<And>st f. I st \<Longrightarrow> f < 8 \<Longrightarrow> \<exists>v st'. read_u16 env self s b d f VENDOR_ID st = Inr (v, st') \<and> I st' \<and> vis st' = vis st
        \<and> (v \<noteq> 0xFFFF \<longleftrightarrow> present s b d f)"
    and header: "\<And>st. I st \<Longrightarrow> \<exists>h st'. read_u8 env self s b d 0 HEADER_TYPE st = Inr (h, st') \<and> I st' \<and> vis st' = vis st
        \<and> (h AND 0x80 \<noteq> 0 \<longleftrightarrow> multi s b d)"
    and callback: "\<And>st f. I st \<Longrightarrow> \<exists>st'. callback s b d f st = Inr st' \<and> I st' \<and> vis st' = vis st @ [(s, b, d, f)]"
    and "I st"
  shows "\<exists>st'. check_device env self callback s b d st = Inr st' \<and> I st' \<and> vis st' = vis st @ device_functions present multi s b d"
proof -
  have other: "\<exists>st'. check_other_function env self callback s b d f st = Inr st' \<and> I st'
      \<and> vis st' = vis st @ (if present s b d f then [(s, b, d, f)] else [])" if a: "I st" "f < 8" for st f
  proof -
    obtain v st1 where v: "read_u16 env self s b d f VENDOR_ID st = Inr (v, st1)" "I st1" "vis st1 = vis st" "v \<noteq> 0xFFFF \<longleftrightarrow> present s b d f"
      using vendor [OF a] by blast
    then show ?thesis using callback [OF v(2), of f] by (auto simp: check_other_function_def check_function_def)
  qed
  obtain v st1 where v: "read_u16 env self s b d 0 VENDOR_ID st = Inr (v, st1)" "I st1" "vis st1 = vis st" "v \<noteq> 0xFFFF \<longleftrightarrow> present s b d 0"
    using vendor [OF assms(4), of 0] by auto
  obtain st2 where c: "callback s b d 0 st1 = Inr st2" "I st2" "vis st2 = vis st1 @ [(s, b, d, 0)]" using callback [OF v(2)] by blast
  obtain h st3 where h: "read_u8 env self s b d 0 HEADER_TYPE st2 = Inr (h, st3)" "I st3" "vis st3 = vis st2" "h AND 0x80 \<noteq> 0 \<longleftrightarrow> multi s b d"
    using header [OF c(2)] by blast
  have small: "x < 8" if "x \<in> set (map word_of_nat [1..<8])" for x :: u8
    using that by (auto simp: word_less_nat_alt unat_of_nat)
  have "\<exists>st'. fold_r (check_other_function env self callback s b d) (map word_of_nat [1..<8]) st3 = Inr st' \<and> I st'
      \<and> vis st' = vis st3 @ concat (map (\<lambda>f. if present s b d f then [(s, b, d, f)] else []) (map word_of_nat [1..<8]))"
    by (rule fold_r_log [OF other h(2)]) (auto intro: small)
  then show ?thesis
    using v c h by (cases "present s b d 0"; cases "multi s b d")
      (auto simp: check_device_def check_function_def device_functions_def)
qed

lemma traverse_log:
  fixes I :: "('w, 'd, 'z) pci_state_scheme \<Rightarrow> bool"
  assumes "mcfg self = Some t" "I st"
    and "\<And>st s b d f. I st \<Longrightarrow> d < 32 \<Longrightarrow> f < 8 \<Longrightarrow> s < length (mcfg_iter env t) \<Longrightarrow>
        \<exists>v st'. read_u16 env self (word_of_nat s) b d f VENDOR_ID st = Inr (v, st') \<and> I st' \<and> vis st' = vis st
          \<and> (v \<noteq> 0xFFFF \<longleftrightarrow> present (word_of_nat s) b d f)"
    and "\<And>st s b d. I st \<Longrightarrow> d < 32 \<Longrightarrow> s < length (mcfg_iter env t) \<Longrightarrow>
        \<exists>h st'. read_u8 env self (word_of_nat s) b d 0 HEADER_TYPE st = Inr (h, st') \<and> I st' \<and> vis st' = vis st
          \<and> (h AND 0x80 \<noteq> 0 \<longleftrightarrow> multi (word_of_nat s) b d)"
    and "\<And>st s b d f. I st \<Longrightarrow> s < length (mcfg_iter env t) \<Longrightarrow>
        \<exists>st'. callback (word_of_nat s) b d f st = Inr st' \<and> I st' \<and> vis st' = vis st @ [(word_of_nat s, b, d, f)]"
  shows "\<exists>st'. traverse_devices env self callback st = Inr st' \<and> I st'
    \<and> vis st' = vis st @ all_functions present multi (length (mcfg_iter env t))"
proof -
  have small: "x < 32" if "x \<in> set (map word_of_nat [0..<32])" for x :: u8
    using that by (auto simp: word_less_nat_alt unat_of_nat)
  have dev: "\<exists>st'. check_device env self callback (word_of_nat (fst e)) b d st = Inr st' \<and> I st'
      \<and> vis st' = vis st @ device_functions present multi (word_of_nat (fst e)) b d"
    if "I st" "d < 32" "e \<in> set (List.enumerate 0 (mcfg_iter env t))" for st e b d
    by (rule check_device_log) (use that assms(3-5) in \<open>auto simp: in_set_enumerate_eq\<close>)
  have bus: "\<exists>st'. fold_r (check_device env self callback (word_of_nat (fst e)) b) (map word_of_nat [0..<32]) st = Inr st' \<and> I st'
      \<and> vis st' = vis st @ concat (map (device_functions present multi (word_of_nat (fst e)) b) (map word_of_nat [0..<32]))"
    if "I st" "e \<in> set (List.enumerate 0 (mcfg_iter env t))" for st e b
    by (rule fold_r_log [OF dev]) (use that small in auto)
  have seg: "\<exists>st'. fold_r (\<lambda>b. fold_r (check_device env self callback (word_of_nat (fst e)) b) (map word_of_nat [0..<32])) (map word_of_nat [0..<256]) st
        = Inr st' \<and> I st'
      \<and> vis st' = vis st @ concat (map (\<lambda>b. concat (map (device_functions present multi (word_of_nat (fst e)) b) (map word_of_nat [0..<32])))
          (map word_of_nat [0..<256]))"
    if "I st" "e \<in> set (List.enumerate 0 (mcfg_iter env t))" for st e
    by (rule fold_r_log [OF bus]) (use that in auto)
  have "\<exists>st'. fold_r (\<lambda>e. fold_r (\<lambda>b. fold_r (check_device env self callback (word_of_nat (fst e)) b) (map word_of_nat [0..<32]))
        (map word_of_nat [0..<256])) (List.enumerate 0 (mcfg_iter env t)) st = Inr st' \<and> I st'
      \<and> vis st' = vis st @ concat (map (\<lambda>e. concat (map (\<lambda>b. concat (map (device_functions present multi (word_of_nat (fst e)) b)
          (map word_of_nat [0..<32]))) (map word_of_nat [0..<256]))) (List.enumerate 0 (mcfg_iter env t)))"
    by (rule fold_r_log [where I = I, OF seg assms(2)])
  then show ?thesis
    unfolding traverse_devices_def all_functions_def
      map_enumerate_fst [of "\<lambda>s. concat (map (\<lambda>b. concat (map (device_functions present multi (word_of_nat s) b)
        (map word_of_nat [0..<32]))) (map word_of_nat [0..<256]))" "mcfg_iter env t"]
    by (simp only: assms(1) unwrap_simps bind_r_simps)
qed


section \<open>Base address registers\<close>

text \<open>A table with one segment, whose window has no page mapped elsewhere.\<close>

definition window_ready :: "('m, 'p, 'f, 'w, 'd) pci_env \<Rightarrow> 'm PCI \<Rightarrow> mcfg_entry \<Rightarrow> 'w \<Rightarrow> bool" where
  "window_ready env self seg w \<longleftrightarrow> pci_env_ok env \<and> (\<exists>t. mcfg self = Some t \<and> mcfg_index env t 0 = Inr seg)
     \<and> seg_address seg < 2 ^ 51 \<and> seg_address seg mod 4096 = 0 \<and> window_maps env (seg_address seg) w"

lemma window_ready_access:
  assumes "window_ready env self seg (tables s)" "bus_start seg \<le> bus" "device < 32" "function < 8" "offset < 0x1000"
  shows "\<exists>w'. config_address env self 0 bus device function offset s = Inr (seg_address seg + unat offset, s\<lparr>tables := w'\<rparr>)
    \<and> window_ready env self seg w'"
proof -
  obtain t where t: "mcfg self = Some t" "mcfg_index env t 0 = Inr seg" and r: "pci_env_ok env" "seg_address seg < 2 ^ 51"
      "seg_address seg mod 4096 = 0" "window_maps env (seg_address seg) (tables s)"
    using assms(1) by (auto simp: window_ready_def)
  have "unat offset < 0x1000" using assms(5) by (simp add: word_less_nat_alt)
  then show ?thesis
    using config_address_alias [OF r(1) t r(2,3) assms(2-4) r(4), of offset] t r by (auto simp: window_ready_def)
qed

lemma bar_offset: "i < 7 \<Longrightarrow> unat (BAR0 + 4 * word_of_nat i) = 16 + 4 * i"
  by (simp add: BAR0_def unat_word_ariths unat_of_nat)

lemma probe_bar_eq:
  assumes "window_ready env self seg (tables s)" "bus_start seg \<le> bus" "device < 32" "function < 8" "i < 7"
    and "a = seg_address seg + (16 + 4 * i)"
  shows "\<exists>w'. probe_bar env self 0 bus device function (BAR0 + 4 * word_of_nat i) s
      = Inr (bar_from (cfg_read32 env (cfg s) a), cfg_read32 env (cfg_write32 env a 0xFFFFFFFF (cfg s)) a,
          s\<lparr>tables := w', cfg := cfg_write32 env a 0xFFFFFFFF (cfg s)\<rparr>)
    \<and> window_ready env self seg w'"
proof -
  let ?o = "BAR0 + 4 * word_of_nat i :: u16"
  have o: "unat ?o = 16 + 4 * i" using bar_offset [OF assms(5)] .
  then have "?o < 0x1000" using assms(5) by (simp add: word_less_nat_alt)
  note acc = window_ready_access [OF _ assms(2-4) this, unfolded o, folded assms(6)]
  obtain w1 where w1: "config_address env self 0 bus device function ?o s = Inr (a, s\<lparr>tables := w1\<rparr>)" "window_ready env self seg w1"
    using acc [OF assms(1)] by blast
  obtain w2 where w2: "config_address env self 0 bus device function ?o (s\<lparr>tables := w1\<rparr>) = Inr (a, s\<lparr>tables := w2\<rparr>)" "window_ready env self seg w2"
    using acc [where s = "s\<lparr>tables := w1\<rparr>"] w1(2) by auto
  let ?s = "s\<lparr>tables := w2, cfg := cfg_write32 env a 0xFFFFFFFF (cfg s)\<rparr>"
  obtain w3 where "config_address env self 0 bus device function ?o ?s = Inr (a, ?s\<lparr>tables := w3\<rparr>)" "window_ready env self seg w3"
    using acc [where s = ?s] w2(2) by auto
  with w1(1) w2(1) show ?thesis
    by (intro exI [of _ w3]) (simp add: probe_bar_def read_u32_def pci_write_u32_def)
qed

lemma bar_masks:
  fixes base flags :: u32
  assumes "4 \<le> k" "k < 32" "base AND mask k = 0" "unat flags < 16"
  shows "(base OR flags) AND 0xFFFFFFF0 = base"
    and "NOT ((NOT (mask k) OR flags) AND 0xFFFFFFF0) = (mask k :: u32)"
    and "add_w (mask k :: u32) 1 = Inr (2 ^ k)"
    and "base AND 0xFFFFFFF0 = base"
proof -
  have m: "(0xFFFFFFF0 :: u32) = NOT (mask 4)" by (simp add: mask_eq_exp_minus_1)
  have f: "\<not> bit flags n" if "4 \<le> n" for n using bit_beyond_value [of flags 4 n] assms(4) that by simp
  have b: "\<not> bit base n" if "n < 4" for n
  proof -
    have "\<not> bit (base AND mask k) n" using assms(3) by simp
    then show ?thesis using that assms(1,2) by (auto simp: bit_simps)
  qed
  have b': "4 \<le> n" if "bit base n" for n using b [of n] that by (cases "n < 4") auto
  show "(base OR flags) AND 0xFFFFFFF0 = base" unfolding m
    by (rule bit_word_eqI) (use f b' in \<open>auto simp: bit_simps not_less\<close>)
  show "base AND 0xFFFFFFF0 = base" unfolding m
    by (rule bit_word_eqI) (use b' in \<open>auto simp: bit_simps not_less\<close>)
  show "NOT ((NOT (mask k) OR flags) AND 0xFFFFFFF0) = (mask k :: u32)" unfolding m
    by (rule bit_word_eqI) (use f assms(1) in \<open>auto simp: bit_simps not_less\<close>)
  have "unat (mask k :: u32) = mask k" using assms(2) by (intro bit_eqI) (auto simp: bit_simps)
  then have "unat (mask k :: u32) = 2 ^ k - 1" by (simp add: mask_eq_exp_minus_1)
  moreover have "(2 :: nat) ^ k < 2 ^ 32" using assms(2) by (intro power_strict_increasing) auto
  ultimately show "add_w (mask k :: u32) 1 = Inr (2 ^ k)" by (simp add: add_w_def mask_eq_exp_minus_1)
qed

lemma bar_flags:
  fixes base flags :: u32
  assumes "bit_field_ok bf" "4 \<le> k" "k < 32" "base AND mask k = 0"
  shows "get_bit bf (base OR flags) 0 = Inr (bit flags 0)"
    and "\<exists>x. get_bits bf (base OR flags) 1 2 = Inr x \<and> (x = 2 \<longleftrightarrow> \<not> bit flags 1 \<and> bit flags 2)"
proof -
  have low: "bit (base OR flags) n = bit flags n" if "n < 4" for n
  proof -
    have "\<not> bit (base AND mask k) n" using assms(4) by simp
    then show ?thesis using that assms(2,3) by (auto simp: bit_simps)
  qed
  show "get_bit bf (base OR flags) 0 = Inr (bit flags 0)"
    using assms(1) low [of 0] by (simp add: bit_field_ok_def)
  let ?x = "take_bit 2 (drop_bit 1 (base OR flags))"
  have x: "bit ?x n \<longleftrightarrow> n < 2 \<and> bit flags (n + 1)" for n
    using low [of "n + 1"] by (auto simp: bit_simps)
  have two: "bit (2 :: u32) n \<longleftrightarrow> n = 1" for n using bit_exp_iff [of 1 n, where ?'a = u32] by auto
  have "?x = 2 \<longleftrightarrow> \<not> bit flags 1 \<and> bit flags 2"
  proof
    assume "?x = 2"
    then have "bit ?x n \<longleftrightarrow> n = 1" for n using two by simp
    then have "n < 2 \<and> bit flags (n + 1) \<longleftrightarrow> n = 1" for n unfolding x .
    from this [of 0] this [of 1] show "\<not> bit flags 1 \<and> bit flags 2" by (simp add: numeral_2_eq_2)
  next
    assume h: "\<not> bit flags 1 \<and> bit flags 2"
    have "n < 2 \<and> bit flags (n + 1) \<longleftrightarrow> n = 1" for n
      using h by (cases "n = 0"; cases "n = 1") (auto simp: numeral_2_eq_2)
    then show "?x = 2" by (intro bit_word_eqI) (simp only: x two)
  qed
  moreover have "get_bits bf (base OR flags) 1 2 = Inr ?x" using assms(1) by (simp add: bit_field_ok_def numeral_2_eq_2)
  ultimately show "\<exists>x. get_bits bf (base OR flags) 1 2 = Inr x \<and> (x = 2 \<longleftrightarrow> \<not> bit flags 1 \<and> bit flags 2)" by blast
qed


lemma mem64_resource_eq:
  fixes base flags hi :: u32
  assumes "4 \<le> k" "k < 32" "base AND mask k = 0" "unat flags < 16"
  shows "mem64_resource (bar_from (base OR flags)) (NOT (mask k) OR flags) (bar_from hi) (ucast (0xFFFFFFFF :: u32))
    = Inr (MemoryRange (FixedLocation64 True (ucast base + push_bit 32 (ucast (hi AND 0xFFFFFFF0))) (2 ^ k + 0xFFFFFFFF00000010)))"
proof -
  note m = bar_masks [OF assms]
  have nl: "add_w (NOT (ucast (0xFFFFFFFF :: u32) AND 0xFFFFFFF0)) 1 = (Inr 0xFFFFFFFF00000010 :: u64 res)"
    by (simp add: add_w_def)
  have cast: "ucast x AND 0xFFFFFFFF = (ucast x :: u64)" "ucast (x AND 0xFFFFFFF0) = (ucast x AND 0xFFFFFFF0 :: u64)" for x :: u32
  proof -
    have e: "(0xFFFFFFFF :: u64) = mask 32" "(0xFFFFFFF0 :: u32) = NOT (mask 4)" "(0xFFFFFFF0 :: u64) = mask 32 AND NOT (mask 4)"
      by (simp_all add: mask_eq_exp_minus_1)
    show "ucast x AND 0xFFFFFFFF = (ucast x :: u64)" unfolding e by (rule bit_word_eqI) (auto simp: bit_simps dest: bit_imp_le_length)
    show "ucast (x AND 0xFFFFFFF0) = (ucast x AND 0xFFFFFFF0 :: u64)" unfolding e by (rule bit_word_eqI) (auto simp: bit_simps dest: bit_imp_le_length)
  qed
  have up: "unat (push_bit 32 (ucast x :: u64)) = 2 ^ 32 * unat x" "unat (ucast x :: u64) = unat x" for x :: u32
  proof -
    have "unat x < 2 ^ LENGTH(32)" by (rule unsigned_less)
    then show "unat (push_bit 32 (ucast x :: u64)) = 2 ^ 32 * unat x" "unat (ucast x :: u64) = unat x"
      unfolding unsigned_push_bit_eq by (simp_all add: unsigned_ucast_eq push_bit_eq_mult take_bit_nat_eq_self mult.commute)
  qed
  have ba: "add_w (ucast a) (push_bit 32 (ucast b)) = Inr (ucast a + push_bit 32 (ucast b) :: u64)" for a b :: u32
  proof -
    have "unat a < 2 ^ LENGTH(32)" "unat b < 2 ^ LENGTH(32)" by (rule unsigned_less)+
    then show ?thesis by (simp add: add_w_def up)
  qed
  have "k \<le> 31" using assms(2) by simp
  then have le: "(2 :: nat) ^ k \<le> 2 ^ 31" by (intro power_increasing) auto
  have uc: "ucast (2 ^ k :: u32) = (2 ^ k :: u64)"
    using assms(2) by (intro bit_word_eqI) (auto simp: bit_simps)
  have un: "unat (2 ^ k :: u64) = 2 ^ k" using assms(2) by (intro bit_eqI) (auto simp: bit_simps)
  have tot: "add_w (2 ^ k) 0xFFFFFFFF00000010 = Inr (2 ^ k + 0xFFFFFFFF00000010 :: u64)"
    unfolding add_w_def un using le by simp
  show ?thesis
    using m nl unfolding mem64_resource_def bar_from_def get_address_def
    by (simp add: ba tot uc cast Let_def flip: cast(2))
qed

lemma upper_half_kept:
  "push_bit 32 (ucast (hi AND 0xFFFFFFF0)) = (push_bit 32 (ucast hi) :: u64) \<longleftrightarrow> hi AND 0xF = 0" for hi :: u32
proof -
  have m: "(0xFFFFFFF0 :: u32) = NOT (mask 4)" "(0xF :: u32) = mask 4" by (simp_all add: mask_eq_exp_minus_1)
  have b: "bit (push_bit 32 (ucast x) :: u64) (n + 32) \<longleftrightarrow> bit x n" for x :: u32 and n
    by (auto simp: bit_simps dest: bit_imp_le_length)
  show ?thesis
  proof
    assume "push_bit 32 (ucast (hi AND 0xFFFFFFF0)) = (push_bit 32 (ucast hi) :: u64)"
    then have "bit (hi AND NOT (mask 4)) n \<longleftrightarrow> bit hi n" for n unfolding m by (metis b)
    then show "hi AND 0xF = 0" unfolding m by (intro bit_word_eqI) (auto simp: bit_simps)
  next
    assume h: "hi AND 0xF = 0"
    have "\<not> bit (hi AND mask 4) n" for n using h unfolding m by simp
    then have "hi AND 0xFFFFFFF0 = hi" unfolding m by (intro bit_word_eqI) (auto simp: bit_simps)
    then show "push_bit 32 (ucast (hi AND 0xFFFFFFF0)) = (push_bit 32 (ucast hi) :: u64)" by simp
  qed
qed

text \<open>
  A 64-bit memory base address register of less than 4 GiB is never reported right: the length is
  \<open>2 ^ 64 - 2 ^ 32 + 16\<close> too large, and the base loses the address bits 32 to 35, so that it is right only when they are 0.
\<close>
theorem wide_bar_resource_wrong:
  fixes env :: "('m, 'p, 'f, 'w, 'd) pci_env" and s :: "('w, 'd, 'z) pci_state_scheme" and base flags hi :: u32
  assumes "bit_field_ok bf" "window_ready env self seg (tables s)" "bus_start seg \<le> bus" "device < 32" "function < 8" "i < 6"
    and "4 \<le> k" "k < 32" "base AND mask k = 0" "flags \<in> {4, 12}"
    and "a = seg_address seg + (16 + 4 * i)" "cfg_read32 env (cfg s) a = base OR flags"
    and "d1 = cfg_write32 env a 0xFFFFFFFF (cfg s)" "cfg_read32 env d1 a = NOT (mask k) OR flags" "cfg_read32 env d1 (a + 4) = hi"
    and "d2 = cfg_write32 env (a + 4) 0xFFFFFFFF d1" "cfg_read32 env d2 (a + 4) = 0xFFFFFFFF"
  shows "\<exists>w' b l. get_bar bf io_len env self 0 bus device function i s
      = (Inr (Some (MemoryRange (FixedLocation64 True b l)), i + 2, s\<lparr>tables := w', cfg := d2\<rparr>)
          :: (('irq, 'len) Resource option \<times> nat \<times> ('w, 'd, 'z) pci_state_scheme) res)
    \<and> window_ready env self seg w' \<and> l = 2 ^ k + 0xFFFFFFFF00000010
    \<and> (b = ucast base + push_bit 32 (ucast hi) \<longleftrightarrow> hi AND 0xF = 0)"
proof -
  obtain w1 where w1: "probe_bar env self 0 bus device function (BAR0 + 4 * word_of_nat i) s
      = Inr (bar_from (base OR flags), NOT (mask k) OR flags, s\<lparr>tables := w1, cfg := d1\<rparr>)" "window_ready env self seg w1"
    using probe_bar_eq [OF assms(2-5) _ assms(11)] assms(6,12-14) by auto
  let ?s = "s\<lparr>tables := w1, cfg := d1\<rparr>"
  have t: "tables ?s = w1" "cfg ?s = d1" by simp_all
  have "a + 4 = seg_address seg + (16 + 4 * (i + 1))" "i + 1 < 7" using assms(6,11) by simp_all
  then obtain w2 where w2: "probe_bar env self 0 bus device function (BAR0 + 4 * word_of_nat (i + 1)) ?s
      = Inr (bar_from (cfg_read32 env (cfg ?s) (a + 4)), cfg_read32 env (cfg_write32 env (a + 4) 0xFFFFFFFF (cfg ?s)) (a + 4),
          ?s\<lparr>tables := w2, cfg := cfg_write32 env (a + 4) 0xFFFFFFFF (cfg ?s)\<rparr>)" "window_ready env self seg w2"
    using probe_bar_eq [of env self seg ?s bus device "function" "i + 1" "a + 4"] w1(2) assms(3-5) unfolding t by blast
  have w2': "probe_bar env self 0 bus device function (BAR0 + 4 * word_of_nat (i + 1)) ?s
      = Inr (bar_from hi, 0xFFFFFFFF, ?s\<lparr>tables := w2, cfg := d2\<rparr>)"
    using w2(1) by (simp only: t assms(15) assms(16) [symmetric] assms(17))
  have fl: "unat flags < 16" using assms(10) by auto
  have io: "get_bit bf (base OR flags) 0 = Inr False" "get_bits bf (base OR flags) 1 2 = Inr 2"
    using bar_flags [OF assms(1,7-9), of flags] assms(10) by auto
  have "bit (base OR flags) 2" using assms(10) by (auto simp: bit_simps)
  then have "base OR flags \<noteq> 0" by auto
  with io w1 w2'
  have "get_bar bf io_len env self 0 bus device function i s = (Inr (Some (MemoryRange (FixedLocation64 True
      (ucast base + push_bit 32 (ucast (hi AND 0xFFFFFFF0))) (2 ^ k + 0xFFFFFFFF00000010))), i + 2, s\<lparr>tables := w2, cfg := d2\<rparr>)
          :: (('irq, 'len) Resource option \<times> nat \<times> ('w, 'd, 'z) pci_state_scheme) res)"
    by (simp add: get_bar_def is_io_def is_64bit_def bar_used_def bar_from_def
        mem64_resource_eq [OF assms(7-9) fl, of hi, unfolded bar_from_def, simplified])
  moreover have "(push_bit 32 (ucast (hi AND 0xFFFFFFF0)) = (push_bit 32 (ucast hi) :: u64)) \<longleftrightarrow> hi AND 0xF = 0"
    by (rule upper_half_kept)
  ultimately show ?thesis using w2(2) by (intro exI [of _ w2]) auto
qed

section \<open>What the enumeration reports\<close>

lemma window_ready_config:
  assumes "window_ready env self seg (tables s)" "bus_start seg = 0" "device < 32" "function < 8" "offset < 0x1000"
  shows "\<exists>w'. read_u16 env self 0 bus device function offset s = Inr (cfg_read16 env (cfg s) (seg_address seg + unat offset), s\<lparr>tables := w'\<rparr>)
      \<and> read_u8 env self 0 bus device function offset s = Inr (cfg_read8 env (cfg s) (seg_address seg + unat offset), s\<lparr>tables := w'\<rparr>)
      \<and> window_ready env self seg w'"
  using window_ready_access [OF assms(1) _ assms(3-5), of bus] assms(2) by (auto simp: read_u16_def read_u8_def)

lemma length_concat_const: "(\<And>x. length (h x) = c) \<Longrightarrow> length (concat (map h xs)) = length xs * c"
  by (induction xs) auto

lemma all_functions_length: "length (all_functions (\<lambda>_ _ _ _. True) (\<lambda>_ _ _. m) n) = n * (if m then 65536 else 8192)"
proof -
  have d: "length (device_functions (\<lambda>_ _ _ _. True) (\<lambda>_ _ _. m) s b d) = (if m then 8 else 1)" for s b d
    by (simp add: device_functions_def length_concat comp_def sum_list_triv)
  have b: "length (concat (map (device_functions (\<lambda>_ _ _ _. True) (\<lambda>_ _ _. m) s b) (map word_of_nat [0..<32]))) = (if m then 256 else 32)" for s b
    by (subst length_concat_const [OF d]) simp
  have t: "length (concat (map (\<lambda>b. concat (map (device_functions (\<lambda>_ _ _ _. True) (\<lambda>_ _ _. m) s b) (map word_of_nat [0..<32]))) (map word_of_nat [0..<256])))
      = (if m then 65536 else 8192)" for s
    by (subst length_concat_const [OF b]) (simp del: upt_conv_Cons_Cons)
  show ?thesis unfolding all_functions_def by (subst length_concat_const [OF t]) simp
qed


section \<open>Class names\<close>

text \<open>A subclass that is not listed is called after another class: an unknown display controller is a network controller.\<close>

lemma class_str_fallback: "class_str 0x03 0x40 p = ''Network Controller''" "class_str 0x0C 0x40 p = ''Docking Station''"
  by (simp_all add: class_str_def class_table_def)

section \<open>Instances\<close>

text \<open>
  A machine with one segment at 0xB0000000; the host bridge has a 32-bit register 0 of 4 KiB at 0xFEB00000 and a 64-bit register 2 of 4 KiB
  at address 0x800000000.
\<close>

definition sample_segment_entry :: mcfg_entry where
  "sample_segment_entry = \<lparr>seg_address = 0xB0000000, bus_start = 0\<rparr>"

definition sample_pci_env :: "(unit, nat, nat, nat \<Rightarrow> nat option, nat \<Rightarrow> u32) pci_env" where
  "sample_pci_env =
     \<lparr>mcfg_iter = (\<lambda>_. [sample_segment_entry]), mcfg_index = (\<lambda>_. index_r [sample_segment_entry]), pci_mapper = table_mapper,
      mmu = (\<lambda>w a. map_option (\<lambda>f. f + a mod 4096) (w (a div 4096 * 4096))),
      cfg_read8 = (\<lambda>d a. 0), cfg_read16 = (\<lambda>d a. 0x8086), cfg_read32 = (\<lambda>d a. d a),
      cfg_write8 = (\<lambda>a v d. d), cfg_write16 = (\<lambda>a v d. d),
      cfg_write32 = (\<lambda>a v d. d(a := if a = 0xB000001C then v else v AND NOT (mask 12) OR d a AND 0xF))\<rparr>"

definition sample_cfg :: "nat \<Rightarrow> u32" where
  "sample_cfg = (\<lambda>a. if a = 0xB0000010 then 0xFEB00000 else if a = 0xB0000018 then 4 else if a = 0xB000001C then 8 else 0)"

lemma sample_pci_env_ok: "pci_env_ok sample_pci_env"
proof -
  have r: "Suc ((P + 4095) div 4096) - P div 4096 = 1" if "P mod 4096 = 0" for P :: nat
  proof -
    have "P = 4096 * (P div 4096)" using that by (metis add_0_right mult_div_mod_eq)
    then show ?thesis by linarith
  qed
  have fr: "frame_range table_mapper P (P + 4095) = Inr [P]" "page_range table_mapper P (P + 4095) = Inr [P]" if "P mod 4096 = 0" for P
    using r [OF that] that by (auto simp: table_mapper_def)
  have m: "\<exists>r w'. map_to table_mapper p f fl w = Inr (r, w') \<and> (translate_page table_mapper w p = None \<longrightarrow> r = Inr ())" for p f fl w
    by (cases "w p") (auto simp: table_mapper_def)
  have t: "mmu sample_pci_env w (V + n) = Some (P + n)"
    if "P mod 4096 = 0" "V mod 4096 = 0" "n < 4096" "translate_page table_mapper w V = Some P" for P V w n
  proof -
    have "(V + n) div 4096 * 4096 = V" "(V + n) mod 4096 = n"
      using that(2,3) by (auto simp: mod_eq_0_iff_dvd elim!: dvdE)
    then show ?thesis using that(4) by (simp add: sample_pci_env_def table_mapper_def)
  qed
  have "pci_mapper sample_pci_env = table_mapper" by (simp add: sample_pci_env_def)
  then show ?thesis using table_mapper_ok fr m t by (auto simp: pci_env_ok_def)
qed

lemma sample_ready: "window_ready sample_pci_env \<lparr>mcfg = Some ()\<rparr> sample_segment_entry Map.empty"
proof -
  have "window_maps sample_pci_env 0xB0000000 Map.empty"
    by (simp add: window_maps_def sample_pci_env_def table_mapper_def)
  moreover have "mcfg_index sample_pci_env () 0 = Inr sample_segment_entry" by (simp add: sample_pci_env_def)
  ultimately show ?thesis using sample_pci_env_ok by (simp add: window_ready_def sample_segment_entry_def)
qed

theorem config_window_decodes_witness:
  "\<exists>a. form_address sample_pci_env \<lparr>mcfg = Some ()\<rparr> 0xB0000000 2 3 1 0x3D = Inr (CONFIG_SPACE + a) \<and> a div 0x8000 mod 32 = 3"
proof -
  have i: "mcfg_index sample_pci_env () 0 = Inr sample_segment_entry" by (simp add: sample_pci_env_def)
  show ?thesis
    using config_window_decodes [of "\<lparr>mcfg = Some ()\<rparr>" "()" sample_pci_env, OF _ i, of 3 1 "0x3D" 2] by (auto simp: sample_segment_entry_def)
qed

definition sample_pci_state :: "(nat \<Rightarrow> nat option, nat \<Rightarrow> u32) pci_state" where
  "sample_pci_state = \<lparr>tables = Map.empty, cfg = sample_cfg\<rparr>"

lemma sample_pci_simps:
  "tables sample_pci_state = Map.empty" "cfg sample_pci_state = sample_cfg"
  "seg_address sample_segment_entry = 0xB0000000" "bus_start sample_segment_entry = 0"
  "cfg_read32 sample_pci_env d a = d a"
  "cfg_write32 sample_pci_env a v d = d(a := if a = 0xB000001C then v else v AND NOT (mask 12) OR d a AND 0xF)"
  by (simp_all add: sample_pci_state_def sample_segment_entry_def sample_pci_env_def)


theorem wide_bar_resource_wrong_witness:
  "\<exists>b l s'. get_bar plain_bit_field id sample_pci_env \<lparr>mcfg = Some ()\<rparr> 0 0 0 0 2 sample_pci_state
     = (Inr (Some (MemoryRange (FixedLocation64 True b l)), 4, s') :: ((unit, u16) Resource option \<times> nat \<times> _) res)
   \<and> l \<noteq> 0x1000 \<and> b \<noteq> 0x800000000"
proof -
  let ?d1 = "cfg_write32 sample_pci_env 0xB0000018 0xFFFFFFFF (cfg sample_pci_state)"
  have "mask 12 = (0xFFF :: u32)" by (simp add: mask_eq_exp_minus_1)
  then show ?thesis
    using wide_bar_resource_wrong [of plain_bit_field sample_pci_env "\<lparr>mcfg = Some ()\<rparr>" sample_segment_entry sample_pci_state 0 0 0 2
        12 0 4 "0xB0000018" ?d1 8 "cfg_write32 sample_pci_env (0xB0000018 + 4) 0xFFFFFFFF ?d1" id, where ?'irq = unit]
      plain_bit_field_ok sample_ready
    by (auto simp: sample_pci_simps sample_cfg_def push_bit_eq_mult)
qed

text \<open>A callback that keeps a log, in the extension of the state.\<close>

type_synonym log_state = "(nat \<Rightarrow> nat option, nat \<Rightarrow> u32, (u16 \<times> u8 \<times> u8 \<times> u8) list) pci_state_scheme"

definition log_callback :: "log_state callback" where
  "log_callback s b d f st = Inr \<lparr>tables = tables st, cfg = cfg st, \<dots> = pci_state.more st @ [(s, b, d, f)]\<rparr>"

definition sample_log_state :: log_state where
  "sample_log_state = \<lparr>tables = Map.empty, cfg = sample_cfg, \<dots> = []\<rparr>"

lemma sample_log_simps:
  "tables sample_log_state = Map.empty" "pci_state.more sample_log_state = []"
  "mcfg_iter sample_pci_env t = [sample_segment_entry]" "cfg_read16 sample_pci_env c a = 0x8086" "cfg_read8 sample_pci_env c a = 0"
  by (simp_all add: sample_log_state_def sample_pci_env_def)



end
