(* ===== verification/Repr.thy ===== *)
theory Repr
  imports Efi Interrupts Elf Boot_Image
begin

text \<open>
  The memory layout of the structures that the program shares with the firmware, with files and with assembly code.

  \<open>size_of\<close>, \<open>align_of\<close> and \<open>offset_of\<close> are the layout rules of the Rust reference for \<open>repr(C)\<close> and \<open>repr(C, packed)\<close> on the target
  x86-64: fields in declaration order, each at the next multiple of its alignment, the size rounded up to the alignment of the structure.
  The structures of \<open>kernel_api/common/src/efi.rs\<close> are their field lists. A function pointer, a reference, \<open>usize\<close> and \<open>Handle\<close>
  are eight bytes. \<open>GUID\<close> has no \<open>repr(C)\<close>: its layout is the compiler's choice and a parameter.
\<close>

section \<open>Layout rules\<close>

datatype ty = U8 | U16 | U32 | U64 | I16 | Ptr | Opaque nat nat | Arr ty nat | Struct "(string \<times> ty) list" | Packed "(string \<times> ty) list"

definition pad_up :: "nat \<Rightarrow> nat \<Rightarrow> nat" where
  "pad_up p a = (p + a - 1) div a * a"

text \<open>Offsets of fields with the given sizes and alignments, and the end of the last one.\<close>

fun place :: "(nat \<times> nat) list \<Rightarrow> nat \<Rightarrow> nat list \<times> nat" where
  "place [] p = ([], p)"
| "place ((s, a) # fs) p = (let q = pad_up p a; (os, e) = place fs (q + s) in (q # os, e))"

primrec align_of :: "ty \<Rightarrow> nat" where
  "align_of U8 = 1"
| "align_of U16 = 2"
| "align_of U32 = 4"
| "align_of U64 = 8"
| "align_of I16 = 2"
| "align_of Ptr = 8"
| "align_of (Opaque s a) = a"
| "align_of (Arr t n) = align_of t"
| "align_of (Struct fs) = Max (set (1 # map snd (map (map_prod id align_of) fs)))"
| "align_of (Packed fs) = 1"

primrec size_of :: "ty \<Rightarrow> nat" where
  "size_of U8 = 1"
| "size_of U16 = 2"
| "size_of U32 = 4"
| "size_of U64 = 8"
| "size_of I16 = 2"
| "size_of Ptr = 8"
| "size_of (Opaque s a) = s"
| "size_of (Arr t n) = n * size_of t"
| "size_of (Struct fs) =
     pad_up (snd (place (zip (map snd (map (map_prod id size_of) fs)) (map (align_of \<circ> snd) fs)) 0)) (align_of (Struct fs))"
| "size_of (Packed fs) = sum_list (map snd (map (map_prod id size_of) fs))"

definition shapes :: "ty \<Rightarrow> (nat \<times> nat) list" where
  "shapes t = (case t of
     Struct fs \<Rightarrow> map (\<lambda>(_, t). (size_of t, align_of t)) fs
   | Packed fs \<Rightarrow> map (\<lambda>(_, t). (size_of t, 1)) fs
   | _ \<Rightarrow> [])"

definition names :: "ty \<Rightarrow> string list" where
  "names t = (case t of Struct fs \<Rightarrow> map fst fs | Packed fs \<Rightarrow> map fst fs | _ \<Rightarrow> [])"

definition offsets :: "ty \<Rightarrow> nat list" where
  "offsets t = fst (place (shapes t) 0)"

definition offset_of :: "ty \<Rightarrow> string \<Rightarrow> nat option" where
  "offset_of t f = map_of (zip (names t) (offsets t)) f"

section \<open>The structures of efi.rs\<close>

text \<open>
  One definition per structure, fields in the order of the source. The enum \<open>MemoryType\<close> is \<open>repr(u32)\<close>. The one field list with a parameter is
  \<open>ConfigurationTable\<close>, whose first field is a \<open>GUID\<close>.
\<close>

definition configuration_table_repr :: "nat \<Rightarrow> nat \<Rightarrow> ty" where
  "configuration_table_repr guid_size guid_align = Struct [(''guid'', Opaque guid_size guid_align), (''ptr'', Ptr)]"

definition table_header_repr :: ty where
  "table_header_repr = Struct [(''signature'', U64), (''revision'', U32), (''size'', U32), (''crc'', U32), (''res'', U32)]"

definition system_table_repr :: ty where
  "system_table_repr = Struct [(''header'', table_header_repr), (''vendor'', Ptr), (''revision'', U32), (''console_in_handle'', Ptr),
    (''console_in'', Ptr), (''console_out_handle'', Ptr), (''console_out'', Ptr), (''console_error_handle'', Ptr),
    (''console_error'', Ptr), (''runtime_services'', Ptr), (''boot_services'', Ptr), (''entry_count'', Ptr),
    (''configuration_table'', Ptr)]"

definition runtime_services_repr :: ty where
  "runtime_services_repr = Struct [(''header'', table_header_repr), (''get_time'', Ptr), (''set_time'', Ptr), (''get_wakeup_time'', Ptr),
    (''set_wakeup_time'', Ptr), (''set_virtual_address_map'', Ptr), (''convert_pointer'', Ptr)]"

definition boot_services_repr :: ty where
  "boot_services_repr = Struct [(''header'', table_header_repr), (''raise_tpl'', Ptr), (''restore_tple'', Ptr), (''allocate_pages'', Ptr),
    (''free_pages'', Ptr), (''get_memory_map'', Ptr), (''allocate_pool'', Ptr), (''free_pool'', Ptr),
    (''create_event'', Ptr), (''set_timer'', Ptr), (''wait_for_event'', Ptr), (''signal_event'', Ptr),
    (''close_event'', Ptr), (''check_event'', Ptr), (''install_protocol_interface'', Ptr),
    (''reinstall_protocol_interface'', Ptr), (''uninstall_protocol_interface'', Ptr), (''handle_protocol'', Ptr),
    (''reserved'', Ptr), (''register_protocol_notify'', Ptr), (''locate_handle'', Ptr),
    (''locate_device_path'', Ptr), (''install_configuration_table'', Ptr), (''image_load'', Ptr),
    (''start_image'', Ptr), (''exit'', Ptr), (''image_unload'', Ptr), (''exit_boot_services'', Ptr),
    (''get_next_monotonic_count'', Ptr), (''stall'', Ptr), (''set_watchdog_timer'', Ptr),
    (''connect_controller'', Ptr), (''disconnect_controller'', Ptr), (''open_protocol'', Ptr),
    (''close_protocol'', Ptr), (''open_protocol_info'', Ptr), (''protocols_per_handle'', Ptr),
    (''locate_handle_buffer'', Ptr), (''locate_protocol'', Ptr)]"

definition loaded_image_repr :: ty where
  "loaded_image_repr = Struct [(''revision'', U32), (''parent_handle'', Ptr), (''system_table'', Ptr), (''device_handle'', Ptr),
    (''file_path'', Ptr), (''reserved'', Ptr), (''load_options_size'', U32), (''load_options'', Ptr),
    (''image_base'', Ptr), (''image_size'', Ptr), (''image_code_type'', U32), (''image_data_type'', U32),
    (''unload'', Ptr)]"

definition file_io_interface_repr :: ty where
  "file_io_interface_repr = Packed [(''revision'', U64), (''open_volume'', Ptr)]"

definition file_protocol_repr :: ty where
  "file_protocol_repr = Struct [(''revision'', U64), (''open'', Ptr), (''close'', Ptr), (''delete'', Ptr), (''read'', Ptr), (''write'', Ptr),
    (''get_position'', Ptr), (''set_position'', Ptr), (''get_info'', Ptr)]"

definition time_repr :: ty where
  "time_repr = Packed [(''year'', U16), (''month'', U8), (''day'', U8), (''hour'', U8), (''minute'', U8), (''second'', U8),
    (''pad1'', U8), (''nanosecond'', U32), (''time_zone'', I16), (''daylight'', U8), (''pad2'', U8)]"

definition file_info_repr :: ty where
  "file_info_repr = Packed [(''size'', Ptr), (''file_size'', Ptr), (''physical_size'', Ptr), (''create_time'', time_repr),
    (''last_access_time'', time_repr), (''modification_time'', time_repr), (''attribute'', U64),
    (''file_name'', Arr U16 10)]"

definition memory_descriptor_repr :: ty where
  "memory_descriptor_repr = Struct [(''memory_type'', U32), (''physical_address'', Ptr), (''virtual_address'', Ptr), (''size'', Ptr),
    (''attributes'', U64), (''r1'', U64)]"

section \<open>Structures in files and on the interrupt stack\<close>

text \<open>Of \<open>elf.rs\<close>, of the crate \<open>boot_fs\<close> and of \<open>interrupts.rs\<close>; the enums are \<open>repr(u8)\<close>, \<open>repr(u16)\<close> and \<open>repr(u32)\<close>.\<close>

definition elf_header_repr :: ty where
  "elf_header_repr = Packed [(''ident'', U32), (''bits'', U8), (''endianess'', U8), (''abi'', U8), (''header_version'', U8), (''_reserved'', U64),
     (''file_type'', U16), (''machine'', U16), (''version'', U32), (''entry'', U64), (''prg_header_tbl'', U64), (''sec_header_tbl'', U64),
     (''flags'', U32), (''header_size'', U16), (''prg_entry_size'', U16), (''prg_entry_count'', U16), (''sec_entry_size'', U16),
     (''sec_entry_count'', U16), (''sec_str_index'', U16)]"

definition program_header_repr :: ty where
  "program_header_repr = Packed [(''segement_type'', U32), (''flags'', U32), (''offset'', U64), (''virtual_address'', U64), (''_reserved'', U64),
     (''segment_file_size'', U64), (''segment_mem_size'', U64), (''_align'', U64)]"

definition file_header_repr :: ty where
  "file_header_repr = Packed [(''magic'', U16), (''name'', Arr U8 16), (''file_offset'', U32), (''file_length'', U32)]"

definition cpu_snapshot_repr :: ty where
  "cpu_snapshot_repr = Struct [(''rbp'', U64), (''r15'', U64), (''r14'', U64), (''r13'', U64), (''r12'', U64), (''r11'', U64), (''r10'', U64),
     (''r9'', U64), (''r8'', U64), (''rdi'', U64), (''rsi'', U64), (''rax'', U64), (''rbx'', U64), (''rcx'', U64), (''rdx'', U64)]"

section \<open>Soundness\<close>

lemma pad_up_props:
  assumes "0 < a"
  shows "a dvd pad_up p a" "p \<le> pad_up p a" "pad_up p a < p + a"
proof -
  have m: "pad_up p a + (p + a - 1) mod a = p + a - 1" by (simp add: pad_up_def)
  have "(p + a - 1) mod a < a" using assms by simp
  with m assms show "p \<le> pad_up p a" "pad_up p a < p + a" by linarith+
qed (simp add: pad_up_def)

lemma pad_up_one [simp]: "pad_up p (Suc 0) = p"
  by (simp add: pad_up_def)

lemma place_Cons:
  "fst (place ((s, a) # fs) p) = pad_up p a # fst (place fs (pad_up p a + s))"
  "snd (place ((s, a) # fs) p) = snd (place fs (pad_up p a + s))"
  by (simp_all add: Let_def split: prod.splits)

lemma place_length [simp]: "length (fst (place fs p)) = length fs"
  by (induction fs arbitrary: p) (auto simp: place_Cons simp del: place.simps(2))

text \<open>Every field is aligned, lies behind the fields before it and before the end.\<close>

lemma place_fields:
  assumes "\<forall>(s, a) \<in> set fs. 0 < a"
  shows "p \<le> snd (place fs p)
    \<and> (\<forall>i < length fs. p \<le> fst (place fs p) ! i \<and> snd (fs ! i) dvd fst (place fs p) ! i
        \<and> fst (place fs p) ! i + fst (fs ! i) \<le> snd (place fs p))
    \<and> (\<forall>j < length fs. \<forall>i < j. fst (place fs p) ! i + fst (fs ! i) \<le> fst (place fs p) ! j)"
  using assms
proof (induction fs arbitrary: p)
  case (Cons f fs)
  obtain s a where f: "f = (s, a)" by force
  let ?q = "pad_up p a"
  have q: "a dvd ?q" "p \<le> ?q" using pad_up_props [of a p] Cons.prems f by auto
  have "?q + s \<le> snd (place fs (?q + s))"
    and field: "\<And>i. i < length fs \<Longrightarrow> ?q + s \<le> fst (place fs (?q + s)) ! i \<and> snd (fs ! i) dvd fst (place fs (?q + s)) ! i
      \<and> fst (place fs (?q + s)) ! i + fst (fs ! i) \<le> snd (place fs (?q + s))"
    and order: "\<And>i j. j < length fs \<Longrightarrow> i < j \<Longrightarrow> fst (place fs (?q + s)) ! i + fst (fs ! i) \<le> fst (place fs (?q + s)) ! j"
    using Cons.IH [of "?q + s"] Cons.prems by simp_all
  with q show ?case
    unfolding f place_Cons by (auto simp: nth_Cons split: nat.splits) (meson add_leE le_trans)+
qed simp

text \<open>Every field of a structure is aligned, ends before the next one begins, and lies within the size of the structure.\<close>

definition fields_ok :: "ty \<Rightarrow> bool" where
  "fields_ok t \<longleftrightarrow>
     (\<forall>i < length (shapes t). snd (shapes t ! i) dvd offsets t ! i \<and> offsets t ! i + fst (shapes t ! i) \<le> size_of t)
   \<and> (\<forall>j < length (shapes t). \<forall>i < j. offsets t ! i + fst (shapes t ! i) \<le> offsets t ! j)"

lemma fields_okI:
  assumes "\<forall>(s, a) \<in> set (shapes t). 0 < a" "snd (place (shapes t) 0) \<le> size_of t"
  shows "fields_ok t"
  using place_fields [OF assms(1), of 0] assms(2) by (auto simp: fields_ok_def offsets_def intro: le_trans)

lemma fields_ok_Struct:
  assumes "\<forall>(n, t) \<in> set fs. 0 < align_of t"
  shows "fields_ok (Struct fs)"
proof (rule fields_okI)
  have "zip (map snd (map (map_prod id size_of) fs)) (map (align_of \<circ> snd) fs) = shapes (Struct fs)"
    by (induction fs) (auto simp: shapes_def)
  moreover have "0 < align_of (Struct fs)" by (auto simp: Max_gr_iff)
  ultimately show "snd (place (shapes (Struct fs)) 0) \<le> size_of (Struct fs)" using pad_up_props(2) by simp
qed (use assms in \<open>auto simp: shapes_def\<close>)

lemma fields_ok_Packed: "fields_ok (Packed fs)"
proof (rule fields_okI)
  have "snd (place (map (\<lambda>(_, t). (size_of t, 1)) fs) p) = p + sum_list (map snd (map (map_prod id size_of) fs))" for p
    by (induction fs arbitrary: p) (auto simp: place_Cons simp del: place.simps(2))
  then show "snd (place (shapes (Packed fs)) 0) \<le> size_of (Packed fs)" by (simp add: shapes_def)
qed (auto simp: shapes_def)

section \<open>The firmware's view\<close>

lemmas efi_repr = table_header_repr_def system_table_repr_def runtime_services_repr_def boot_services_repr_def loaded_image_repr_def
  file_io_interface_repr_def file_protocol_repr_def time_repr_def file_info_repr_def memory_descriptor_repr_def configuration_table_repr_def

text \<open>The fields the program uses, with the offsets of the UEFI specification (64-bit).\<close>

definition uefi_offsets :: "(ty \<times> string \<times> nat) list" where
  "uefi_offsets =
     [(system_table_repr, ''runtime_services'', 88), (system_table_repr, ''boot_services'', 96), (system_table_repr, ''entry_count'', 104),
      (system_table_repr, ''configuration_table'', 112), (runtime_services_repr, ''set_virtual_address_map'', 56),
      (boot_services_repr, ''get_memory_map'', 56), (boot_services_repr, ''allocate_pool'', 64), (boot_services_repr, ''free_pool'', 72),
      (boot_services_repr, ''handle_protocol'', 152), (boot_services_repr, ''exit_boot_services'', 232),
      (boot_services_repr, ''set_watchdog_timer'', 256), (boot_services_repr, ''open_protocol'', 280), (boot_services_repr, ''locate_protocol'', 320),
      (loaded_image_repr, ''device_handle'', 24), (loaded_image_repr, ''image_base'', 64), (file_io_interface_repr, ''open_volume'', 8),
      (file_protocol_repr, ''open'', 8), (file_protocol_repr, ''read'', 32), (file_protocol_repr, ''get_info'', 64),
      (file_info_repr, ''file_size'', 8), (file_info_repr, ''file_name'', 80), (memory_descriptor_repr, ''memory_type'', 0),
      (memory_descriptor_repr, ''physical_address'', 8), (memory_descriptor_repr, ''virtual_address'', 16), (memory_descriptor_repr, ''size'', 24),
      (memory_descriptor_repr, ''attributes'', 32), (configuration_table_repr 16 4, ''guid'', 0), (configuration_table_repr 16 4, ''ptr'', 16)]"

definition efi_structs :: "ty list" where
  "efi_structs = [table_header_repr, system_table_repr, runtime_services_repr, boot_services_repr, loaded_image_repr, file_io_interface_repr,
     file_protocol_repr, time_repr, file_info_repr, memory_descriptor_repr, configuration_table_repr 16 4]"

lemma efi_structs_ok: "list_all fields_ok efi_structs"
  unfolding efi_structs_def list.pred_inject efi_repr
  by (intro conjI TrueI fields_ok_Packed fields_ok_Struct) (simp_all add: Max_gr_iff)


text \<open>
  The offsets that \<open>header_at\<close>, \<open>program_header_at\<close>, \<open>file_header_of\<close> and \<open>snapshot_at\<close> read at, and the sizes their callers step by, are those
  of the layout rules.
\<close>

lemma file_structure_layout:
  "offsets elf_header_repr = [0, 4, 5, 6, 7, 8, 16, 18, 20, 24, 32, 40, 48, 52, 54, 56, 58, 60, 62]"
  "offsets program_header_repr = [0, 4, 8, 16, 24, 32, 40, 48]" "size_of program_header_repr = size_of_ProgramHeader"
  "offsets file_header_repr = [0, 2, 18, 22]" "size_of file_header_repr = size_of_FileHeader"
  "offsets cpu_snapshot_repr = [0, 8, 16, 24, 32, 40, 48, 56, 64, 72, 80, 88, 96, 104, 112]"
  unfolding size_of_ProgramHeader_def size_of_FileHeader_def by code_simp+

end
