(* ===== verification/Guid.thy ===== *)
theory Guid
  imports Efi
begin

text \<open>
  The function-like macros \<open>create_guid!\<close> and \<open>wchar!\<close> of \<open>kernel_api/macros/src/lib.rs\<close>, and \<open>guid::GUID\<close> with its constants in
  \<open>kernel_api/common/src/efi.rs\<close>.

  A macro works on the tokens the compiler's lexer makes of its argument, and its result is source text. Text is a list of Unicode scalar
  values. A GUID expression is the text of its integer literals, and \<open>guid_value\<close> is what the compiler makes of it: the value of hexadecimal
  literals that fit their type, none otherwise (a literal with an underscore or a type suffix is given no value here). The crate
  \<open>unescape\<close> is a parameter.
\<close>

section \<open>Text\<close>

type_synonym utext = "nat list"

definition uchars :: "string \<Rightarrow> utext" where
  "uchars s = map of_char s"

datatype token = Punct utext | Ident utext | Literal utext | Group utext

primrec to_string :: "token \<Rightarrow> utext" where
  "to_string (Punct s) = s"
| "to_string (Ident s) = s"
| "to_string (Literal s) = s"
| "to_string (Group s) = s"

definition encode_utf8 :: "nat \<Rightarrow> nat list" where
  "encode_utf8 c =
     (if c < 0x80 then [c]
      else if c < 0x800 then [0xC0 + c div 64, 0x80 + c mod 64]
      else if c < 0x10000 then [0xE0 + c div 4096, 0x80 + c div 64 mod 64, 0x80 + c mod 64]
      else [0xF0 + c div 262144, 0x80 + c div 4096 mod 64, 0x80 + c div 64 mod 64, 0x80 + c mod 64])"

definition as_bytes :: "utext \<Rightarrow> nat list" where
  "as_bytes s = concat (map encode_utf8 s)"

text \<open>Hexadecimal digits: \<open>{:x}\<close>, \<open>{:0k x}\<close> on a value of at most \<open>k\<close> digits, and reading them.\<close>

definition hex_char :: "nat \<Rightarrow> nat" where
  "hex_char d = (if d < 10 then 48 + d else 87 + d)"

fun hex_min :: "nat \<Rightarrow> utext" where
  "hex_min n = (if n < 16 then [hex_char n] else hex_min (n div 16) @ [hex_char (n mod 16)])"

primrec hex_pad :: "nat \<Rightarrow> nat \<Rightarrow> utext" where
  "hex_pad 0 n = []"
| "hex_pad (Suc k) n = hex_pad k (n div 16) @ [hex_char (n mod 16)]"

definition hex_val :: "nat \<Rightarrow> nat option" where
  "hex_val c =
     (if 48 \<le> c \<and> c \<le> 57 then Some (c - 48) else if 65 \<le> c \<and> c \<le> 70 then Some (c - 55)
      else if 97 \<le> c \<and> c \<le> 102 then Some (c - 87) else None)"

fun hex_num :: "nat \<Rightarrow> utext \<Rightarrow> nat option" where
  "hex_num acc [] = Some acc"
| "hex_num acc (c # cs) = (case hex_val c of None \<Rightarrow> None | Some v \<Rightarrow> hex_num (acc * 16 + v) cs)"

text \<open>An integer literal \<open>0x\<dots>\<close> of a type with \<open>w\<close> bits.\<close>

definition literal_value :: "nat \<Rightarrow> utext \<Rightarrow> nat option" where
  "literal_value w s =
     (if take 2 s = [48, 120] \<and> 2 < length s then
        case hex_num 0 (drop 2 s) of None \<Rightarrow> None | Some v \<Rightarrow> if v < 2 ^ w then Some v else None
      else None)"

section \<open>create_guid\<close>

record guid_expr =
  ge_a :: utext
  ge_b :: utext
  ge_c :: utext
  ge_d :: "utext list"

abbreviation macro_panic :: "'a res" where
  "macro_panic \<equiv> Inl (Panic (ExplicitPanic ''explicit panic''))"

text \<open>The next token of the iterator, of a given length in bytes, and the \<open>-\<close> between two of them.\<close>

definition next_group :: "nat \<Rightarrow> token list \<Rightarrow> (utext \<times> token list) res" where
  "next_group n ts =
     (case ts of
        [] \<Rightarrow> Inl (Panic UnwrapNone)
      | t # ts \<Rightarrow> if length (as_bytes (to_string t)) \<noteq> n then macro_panic else Inr (to_string t, ts))"

definition next_dash :: "token list \<Rightarrow> token list res" where
  "next_dash ts = (case ts of Punct p # ts \<Rightarrow> if p \<noteq> uchars ''-'' then macro_panic else Inr ts | _ \<Rightarrow> macro_panic)"

fun chunks2 :: "'a list \<Rightarrow> 'a list list" where
  "chunks2 (x # y # xs) = [x, y] # chunks2 xs"
| "chunks2 [] = []"
| "chunks2 xs = [xs]"

definition hex_prefix :: "utext \<Rightarrow> utext" where
  "hex_prefix s = uchars ''0x'' @ s"

definition create_guid :: "token list \<Rightarrow> guid_expr res" where
  "create_guid items =
     bind_r (next_group 8 items) (\<lambda>(a, iter).
     bind_r (next_dash iter) (\<lambda>iter.
     bind_r (next_group 4 iter) (\<lambda>(b, iter).
     bind_r (next_dash iter) (\<lambda>iter.
     bind_r (next_group 4 iter) (\<lambda>(c, iter).
     bind_r (next_dash iter) (\<lambda>iter.
     bind_r (next_group 4 iter) (\<lambda>(d1, iter).
     bind_r (next_dash iter) (\<lambda>iter.
     bind_r (next_group 12 iter) (\<lambda>(d2, iter).
       Inr \<lparr>ge_a = hex_prefix a, ge_b = hex_prefix b, ge_c = hex_prefix c,
            ge_d = map hex_prefix (chunks2 (as_bytes d1)) @ map hex_prefix (chunks2 (as_bytes d2))\<rparr>)))))))))"

text \<open>The value of the structure expression \<open>GUID { a, b, c, d }\<close>, when it compiles.\<close>

definition guid_value :: "guid_expr \<Rightarrow> GUID option" where
  "guid_value e =
     (case (literal_value 32 (ge_a e), literal_value 16 (ge_b e), literal_value 16 (ge_c e), those (map (literal_value 8) (ge_d e))) of
        (Some a, Some b, Some c, Some d) \<Rightarrow>
          if length d = 8 then Some \<lparr>guid_a = word_of_nat a, guid_b = word_of_nat b, guid_c = word_of_nat c, guid_d = map word_of_nat d\<rparr> else None
      | _ \<Rightarrow> None)"

section \<open>GUID\<close>

definition guid_fmt :: "GUID \<Rightarrow> utext" where
  "guid_fmt g =
     hex_pad 8 (unat (guid_a g)) @ uchars ''-'' @ hex_pad 4 (unat (guid_b g)) @ uchars ''-'' @ hex_pad 4 (unat (guid_c g)) @ uchars ''-''
     @ hex_pad 2 (unat (guid_d g ! 0)) @ hex_pad 2 (unat (guid_d g ! 1)) @ uchars ''-''
     @ hex_pad 2 (unat (guid_d g ! 2)) @ hex_pad 2 (unat (guid_d g ! 3)) @ hex_pad 2 (unat (guid_d g ! 4))
     @ hex_pad 2 (unat (guid_d g ! 5)) @ hex_pad 2 (unat (guid_d g ! 6)) @ hex_pad 2 (unat (guid_d g ! 7))"

text \<open>The tokens of the constants: \<open>lit\<close> stands for an identifier or a literal, whichever the lexer makes of the text.\<close>

definition guid_tokens :: "(utext \<Rightarrow> token) \<Rightarrow> string list \<Rightarrow> token list" where
  "guid_tokens lit gs = concat (map (\<lambda>g. [Punct (uchars ''-''), lit (uchars g)]) gs)"

definition guid_const :: "string list \<Rightarrow> GUID option" where
  "guid_const gs = (case create_guid (tl (guid_tokens Literal gs)) of Inl _ \<Rightarrow> None | Inr e \<Rightarrow> guid_value e)"

definition LOADED_IMAGE_PROTOCOL :: "GUID option" where
  "LOADED_IMAGE_PROTOCOL = guid_const [''5B1B31A1'', ''9562'', ''11d2'', ''8E3F'', ''00A0C969723B'']"

definition RAM_DISK_PROTOCOL :: "GUID option" where
  "RAM_DISK_PROTOCOL = guid_const [''ab38a0df'', ''6873'', ''44a9'', ''87e6'', ''d4eb56148449'']"

definition SIMPLE_FILE_SYSTEM_PROTOCOL :: "GUID option" where
  "SIMPLE_FILE_SYSTEM_PROTOCOL = guid_const [''964e5b22'', ''6459'', ''11d2'', ''8e39'', ''00a0c969723b'']"

definition RSDP :: "GUID option" where
  "RSDP = guid_const [''8868E871'', ''E4F1'', ''11D3'', ''BC22'', ''0080C73C8881'']"

definition FILE_INFO :: "GUID option" where
  "FILE_INFO = guid_const [''09576e92'', ''6d3f'', ''11d2'', ''8e39'', ''00a0c969723b'']"

section \<open>wchar\<close>

datatype wchar_result = Units "nat list" | Unchanged token | NoTokens

text \<open>One character: UTF-8 in a buffer of two bytes, written as a hexadecimal literal of type \<open>u16\<close>.\<close>

definition wchar_text :: "nat \<Rightarrow> utext res" where
  "wchar_text s =
     (let e = encode_utf8 s in
      if 2 < length e then Inl (Panic OutOfBounds)
      else let b = e @ replicate (2 - length e) 0 in Inr (uchars ''0x'' @ hex_min (b ! 1) @ hex_min (b ! 0)))"

definition wchar :: "(utext \<Rightarrow> utext option) \<Rightarrow> token list \<Rightarrow> wchar_result res" where
  "wchar unescape tokens =
     (case tokens of
        [] \<Rightarrow> Inr NoTokens
      | Literal rstr # _ \<Rightarrow>
          bind_r (unwrap (unescape (butlast (tl rstr)))) (\<lambda>estr.
          bind_r (map_r wchar_text estr) (\<lambda>ls.
          bind_r (unwrap (those (map (literal_value 16) ls))) (\<lambda>us. Inr (Units (us @ [0])))))
      | s # _ \<Rightarrow> Inr (Unchanged s))"

section \<open>Hexadecimal text\<close>

lemma hex_val_char: "d < 16 \<Longrightarrow> hex_val (hex_char d) = Some d"
  by (auto simp: hex_val_def hex_char_def)

lemma hex_num_append: "hex_num acc (xs @ ys) = (case hex_num acc xs of None \<Rightarrow> None | Some v \<Rightarrow> hex_num v ys)"
  by (induction acc xs rule: hex_num.induct) (auto split: option.splits)

lemma hex_num_pad: "n < 16 ^ k \<Longrightarrow> hex_num acc (hex_pad k n) = Some (acc * 16 ^ k + n)"
proof (induction k arbitrary: n)
  case (Suc k)
  then have "n div 16 < 16 ^ k" by (simp add: div_less_iff_less_mult mult.commute)
  with Suc.IH show ?case by (simp add: hex_num_append hex_val_char algebra_simps)
qed simp

lemma hex_pad_length [simp]: "length (hex_pad k n) = k"
  by (induction k arbitrary: n) simp_all

lemma as_bytes_append [simp]: "as_bytes (xs @ ys) = as_bytes xs @ as_bytes ys"
  by (simp add: as_bytes_def)

lemma as_bytes_hex [simp]: "as_bytes (hex_pad k n) = hex_pad k n"
proof (induction k arbitrary: n)
  case (Suc k)
  have "hex_char (n mod 16) < 0x80"
    by (simp add: hex_char_def) presburger
  then have "as_bytes [hex_char (n mod 16)] = [hex_char (n mod 16)]" by (simp add: as_bytes_def encode_utf8_def)
  with Suc show ?case by simp
qed (simp add: as_bytes_def)

lemma chunks2_hex [simp]: "chunks2 (hex_pad 2 n @ xs) = hex_pad 2 n # chunks2 xs" "chunks2 (hex_pad 2 n) = [hex_pad 2 n]"
  by (simp_all add: numeral_2_eq_2)

lemma literal_value_hex: "0 < k \<Longrightarrow> n < 16 ^ k \<Longrightarrow> n < 2 ^ w \<Longrightarrow> literal_value w (hex_prefix (hex_pad k n)) = Some n"
  by (simp add: literal_value_def hex_prefix_def uchars_def hex_num_pad)

lemma literal_value_word:
  "literal_value 32 (hex_prefix (hex_pad 8 (unat (a :: u32)))) = Some (unat a)"
  "literal_value 16 (hex_prefix (hex_pad 4 (unat (b :: u16)))) = Some (unat b)"
  "literal_value 8 (hex_prefix (hex_pad 2 (unat (c :: u8)))) = Some (unat c)"
  using unsigned_less [of a] unsigned_less [of b] unsigned_less [of c] by (auto intro!: literal_value_hex)

section \<open>GUIDs\<close>

text \<open>The tokens of a GUID written the way \<open>Display\<close> prints it.\<close>

definition fmt_tokens :: "(utext \<Rightarrow> token) \<Rightarrow> GUID \<Rightarrow> token list" where
  "fmt_tokens lit g =
     [lit (hex_pad 8 (unat (guid_a g))), Punct (uchars ''-''), lit (hex_pad 4 (unat (guid_b g))), Punct (uchars ''-''),
      lit (hex_pad 4 (unat (guid_c g))), Punct (uchars ''-''),
      lit (concat (map (hex_pad 2 \<circ> unat) (take 2 (guid_d g)))), Punct (uchars ''-''),
      lit (concat (map (hex_pad 2 \<circ> unat) (drop 2 (guid_d g))))]"


definition sample_guid :: GUID where
  "sample_guid = \<lparr>guid_a = 0x5B1B31A1, guid_b = 0x9562, guid_c = 0x11d2, guid_d = [0x8E, 0x3F, 0x00, 0xA0, 0xC9, 0x69, 0x72, 0x3B]\<rparr>"


text \<open>Which token lists expand at all: nine tokens in the shape of a GUID; what follows them is ignored.\<close>

lemma create_guid_shape:
  "(\<exists>e. create_guid ts = Inr e) \<longleftrightarrow>
     (\<exists>a b c d1 d2 rest. ts = [a, Punct (uchars ''-''), b, Punct (uchars ''-''), c, Punct (uchars ''-''), d1, Punct (uchars ''-''), d2] @ rest
        \<and> map (length \<circ> as_bytes \<circ> to_string) [a, b, c, d1, d2] = [8, 4, 4, 4, 12])"
proof -
  have g: "next_group n ts = Inr (s, us) \<longleftrightarrow> (\<exists>t. ts = t # us \<and> s = to_string t \<and> length (as_bytes s) = n)" for n ts s us
    by (auto simp: next_group_def split: list.splits if_splits)
  have d: "next_dash ts = Inr us \<longleftrightarrow> ts = Punct (uchars ''-'') # us" for ts us
    by (auto simp: next_dash_def split: list.splits token.splits if_splits)
  show ?thesis (is "?L \<longleftrightarrow> ?R")
  proof
    show "?L \<Longrightarrow> ?R" unfolding create_guid_def by (auto simp: g d)
    show "?R \<Longrightarrow> ?L" by (auto simp: create_guid_def next_group_def next_dash_def)
  qed
qed

text \<open>The constants are the GUIDs of the UEFI specification.\<close>

lemma uefi_guids:
  "LOADED_IMAGE_PROTOCOL = Some \<lparr>guid_a = 0x5B1B31A1, guid_b = 0x9562, guid_c = 0x11d2,
     guid_d = [0x8E, 0x3F, 0x00, 0xA0, 0xC9, 0x69, 0x72, 0x3B]\<rparr>"
  "SIMPLE_FILE_SYSTEM_PROTOCOL = Some \<lparr>guid_a = 0x964e5b22, guid_b = 0x6459, guid_c = 0x11d2,
     guid_d = [0x8e, 0x39, 0x00, 0xa0, 0xc9, 0x69, 0x72, 0x3b]\<rparr>"
  "FILE_INFO = Some \<lparr>guid_a = 0x09576e92, guid_b = 0x6d3f, guid_c = 0x11d2, guid_d = [0x8e, 0x39, 0x00, 0xa0, 0xc9, 0x69, 0x72, 0x3b]\<rparr>"
  "RSDP = Some \<lparr>guid_a = 0x8868e871, guid_b = 0xe4f1, guid_c = 0x11d3, guid_d = [0xbc, 0x22, 0x00, 0x80, 0xc7, 0x3c, 0x88, 0x81]\<rparr>"
  "RAM_DISK_PROTOCOL = Some \<lparr>guid_a = 0xab38a0df, guid_b = 0x6873, guid_c = 0x44a9, guid_d = [0x87, 0xe6, 0xd4, 0xeb, 0x56, 0x14, 0x84, 0x49]\<rparr>"
  by (simp_all add: LOADED_IMAGE_PROTOCOL_def SIMPLE_FILE_SYSTEM_PROTOCOL_def FILE_INFO_def RSDP_def RAM_DISK_PROTOCOL_def guid_const_def
      guid_tokens_def create_guid_def next_group_def next_dash_def uchars_def as_bytes_def encode_utf8_def hex_prefix_def guid_value_def
      literal_value_def hex_val_def)

section \<open>Wide strings\<close>

lemma hex_min_byte: "n < 256 \<Longrightarrow> hex_min n = (if n < 16 then [hex_char n] else [hex_char (n div 16), hex_char (n mod 16)])"
  using less_mult_imp_div_less [of n 16 16] by (simp add: hex_min.simps [of n] hex_min.simps [of "n div 16"] del: hex_min.simps)

lemma wchar_text_ascii: "c < 0x80 \<Longrightarrow> wchar_text c = Inr l \<Longrightarrow> literal_value 16 l = Some c"
  by (auto simp: wchar_text_def encode_utf8_def Let_def hex_min_byte literal_value_def uchars_def hex_val_char simp del: hex_min.simps)

lemma wchar_text_two:
  assumes "0x80 \<le> c" "c < 0x800"
  shows "\<exists>l. wchar_text c = Inr l \<and> literal_value 16 l = Some (256 * (0x80 + c mod 64) + 0xC0 + c div 64)"
proof -
  have d: "c div 64 < 32" "2 \<le> c div 64" "c mod 64 < 64" using assms by (auto simp: div_less_iff_less_mult)
  then have "hex_val (hex_char ((0xC0 + c div 64) div 16)) = Some ((0xC0 + c div 64) div 16)"
      "hex_val (hex_char ((0x80 + c mod 64) div 16)) = Some ((0x80 + c mod 64) div 16)"
    by (auto intro!: hex_val_char)
  with assms d show ?thesis
    by (simp add: wchar_text_def encode_utf8_def Let_def hex_min_byte literal_value_def uchars_def hex_val_char del: hex_min.simps)
qed

definition wide_unit :: "nat \<Rightarrow> nat" where
  "wide_unit c = (if c < 0x80 then c else 256 * (0x80 + c mod 64) + 0xC0 + c div 64)"

lemma wchar_text_unit: "c < 0x800 \<Longrightarrow> \<exists>l. wchar_text c = Inr l \<and> literal_value 16 l = Some (wide_unit c)"
proof (cases "c < 0x80")
  case True
  then have "\<exists>l. wchar_text c = Inr l" by (simp add: wchar_text_def encode_utf8_def Let_def)
  with True show ?thesis using wchar_text_ascii by (auto simp: wide_unit_def)
qed (use wchar_text_two [of c] in \<open>simp add: wide_unit_def\<close>)

lemma wchar_units:
  assumes "\<forall>c \<in> set cs. c < 0x800"
  shows "\<exists>ls. map_r wchar_text cs = Inr ls \<and> those (map (literal_value 16) ls) = Some (map wide_unit cs)"
  using assms
proof (induction cs)
  case (Cons c cs)
  then show ?case using wchar_text_unit [of c] by auto
qed simp

lemma wchar_long_panics:
  "\<exists>c \<in> set cs. 0x800 \<le> c \<Longrightarrow> map_r wchar_text cs = Inl (Panic OutOfBounds)"
proof (induction cs)
  case (Cons c cs)
  then show ?case using wchar_text_unit [of c] by (cases "c < 0x800") (auto simp: wchar_text_def encode_utf8_def Let_def)
qed simp

text \<open>UTF-16, what the firmware expects of a \<open>CHAR16\<close> string.\<close>

definition utf16 :: "nat \<Rightarrow> nat list" where
  "utf16 c = (if c < 0x10000 then [c] else [0xD800 + (c - 0x10000) div 1024, 0xDC00 + (c - 0x10000) mod 1024])"

text \<open>
  C40: \<open>wchar!\<close> yields the terminated UTF-16 text of its literal exactly when the literal is ASCII. With a character from 0x800 on it panics at
  compile time; with characters below, each one from 0x80 on becomes its two UTF-8 bytes instead of its UTF-16 unit.
\<close>
theorem wchar_exact_for_ascii:
  assumes "unescape (butlast (tl rstr)) = Some estr"
  shows "(wchar unescape (Literal rstr # ts) = Inr (Units (concat (map utf16 estr) @ [0])) \<longleftrightarrow> (\<forall>c \<in> set estr. c < 0x80))
    \<and> ((\<exists>c \<in> set estr. 0x800 \<le> c) \<longrightarrow> wchar unescape (Literal rstr # ts) = Inl (Panic OutOfBounds))"
proof (cases "\<exists>c \<in> set estr. 0x800 \<le> c")
  case True
  with wchar_long_panics [OF this] assms show ?thesis by (fastforce simp: wchar_def)
next
  case False
  then have small: "\<forall>c \<in> set estr. c < 0x800" by auto
  obtain ls where "map_r wchar_text estr = Inr ls" "those (map (literal_value 16) ls) = Some (map wide_unit estr)"
    using wchar_units [OF small] by blast
  then have w: "wchar unescape (Literal rstr # ts) = Inr (Units (map wide_unit estr @ [0]))" by (simp add: wchar_def assms)
  have "concat (map utf16 estr) = estr" using small by (induction estr) (auto simp: utf16_def)
  moreover have "map wide_unit estr = estr \<longleftrightarrow> (\<forall>c \<in> set estr. wide_unit c = c)" by (induction estr) auto
  moreover have "wide_unit c = c \<longleftrightarrow> c < 0x80" if "c \<in> set estr" for c
    using small that by (auto simp: wide_unit_def)
  ultimately show ?thesis using w False by auto
qed

theorem wchar_exact_for_ascii_witness:
  "wchar Some [Literal (uchars [CHR 0x22, CHR ''e'', CHR ''f'', CHR ''i'', CHR 0x22])] = Inr (Units [0x65, 0x66, 0x69, 0])"
  using wchar_exact_for_ascii [of Some "uchars [CHR 0x22, CHR ''e'', CHR ''f'', CHR ''i'', CHR 0x22]" "[0x65, 0x66, 0x69]" "[]"]
  by (simp add: uchars_def utf16_def)

end
