(* ===== verification/Firmware.thy ===== *)
theory Firmware
  imports Guid
begin

text \<open>
  The calls of UEFI boot services in \<open>kernel_api/common/src/efi.rs\<close> (opening protocols, pools, files) and the closure at the start of
  \<open>run\<close> in \<open>kernel_loader/src/main.rs\<close> that reads \<open>efi\\boot\\btimg.bin\<close> from the boot volume with them. Nothing calls that closure: the
  loader has the image linked in.

  The firmware is a parameter: every service takes the state \<open>'w\<close> of the firmware and returns a status, what it stores through its output
  pointer (given what was there before), and the new state. A null or dangling pointer is one that \<open>fw_loaded_image\<close>,
  \<open>fw_volume\<close> or \<open>fw_file\<close> does not know; using it is undefined behaviour.
\<close>

type_synonym handle = nat

record 'w firmware =
  fw_open_protocol :: "handle \<Rightarrow> GUID \<Rightarrow> nat \<Rightarrow> handle \<Rightarrow> handle \<Rightarrow> nat \<Rightarrow> 'w \<Rightarrow> nat \<times> nat \<times> 'w"
  fw_handle_protocol :: "handle \<Rightarrow> GUID \<Rightarrow> nat \<Rightarrow> 'w \<Rightarrow> nat \<times> nat \<times> 'w"
  fw_allocate_pool :: "MemoryType \<Rightarrow> nat \<Rightarrow> nat \<Rightarrow> 'w \<Rightarrow> nat \<times> nat \<times> 'w"
  fw_free_pool :: "nat \<Rightarrow> 'w \<Rightarrow> nat \<times> 'w"
  fw_set_watchdog_timer :: "nat \<Rightarrow> nat \<Rightarrow> nat \<Rightarrow> nat \<Rightarrow> 'w \<Rightarrow> nat \<times> 'w"
  fw_open_volume :: "nat \<Rightarrow> nat \<Rightarrow> 'w \<Rightarrow> nat \<times> nat \<times> 'w"
  fw_open :: "nat \<Rightarrow> nat \<Rightarrow> nat list \<Rightarrow> nat \<Rightarrow> nat \<Rightarrow> 'w \<Rightarrow> nat \<times> nat \<times> 'w"
  fw_get_info :: "nat \<Rightarrow> GUID \<Rightarrow> nat \<Rightarrow> nat \<Rightarrow> 'w \<Rightarrow> nat \<times> nat \<times> 'w"
  fw_read :: "nat \<Rightarrow> nat \<Rightarrow> u8 list \<Rightarrow> 'w \<Rightarrow> nat \<times> u8 list \<times> 'w"
  fw_loaded_image :: "'w \<Rightarrow> nat \<Rightarrow> (handle \<times> nat) option"
  fw_volume :: "'w \<Rightarrow> nat \<Rightarrow> bool"
  fw_file :: "'w \<Rightarrow> nat \<Rightarrow> bool"

definition EMPTY_HANDLE :: handle where "EMPTY_HANDLE = 0"
definition OPEN_PROTOCOL_BY_HANDLE_PROTOCOL :: nat where "OPEN_PROTOCOL_BY_HANDLE_PROTOCOL = 1"
definition FILE_MODE_READ :: nat where "FILE_MODE_READ = 1"
definition FILE_READ_ONLY :: nat where "FILE_READ_ONLY = 1"

definition deref :: "bool \<Rightarrow> unit res" where
  "deref valid = (if valid then Inr () else Inl UndefinedBehaviour)"

section \<open>efi.rs\<close>

definition handle_protocol :: "'w firmware \<Rightarrow> handle \<Rightarrow> GUID \<Rightarrow> nat \<Rightarrow> 'w \<Rightarrow> nat \<times> nat \<times> 'w" where
  "handle_protocol fw h guid protocol w = fw_handle_protocol fw h guid protocol w"

definition open_protocol ::
    "'w firmware \<Rightarrow> handle \<Rightarrow> GUID \<Rightarrow> nat \<Rightarrow> handle \<Rightarrow> handle \<Rightarrow> nat \<Rightarrow> 'w \<Rightarrow> nat \<times> nat \<times> 'w" where
  "open_protocol fw h protocol interface agent_handle controller_handle attrs w =
     fw_open_protocol fw h protocol interface agent_handle controller_handle attrs w"

definition allocate_pool :: "'w firmware \<Rightarrow> nat \<Rightarrow> nat \<Rightarrow> nat \<Rightarrow> 'w \<Rightarrow> (nat \<times> nat \<times> 'w) res" where
  "allocate_pool fw elem_size n ptr w = bind_r (chk 64 (n * elem_size)) (\<lambda>bytes. Inr (fw_allocate_pool fw LoaderData bytes ptr w))"

definition free_pool :: "'w firmware \<Rightarrow> nat \<Rightarrow> 'w \<Rightarrow> nat \<times> 'w" where
  "free_pool fw ptr w = fw_free_pool fw ptr w"

definition set_watchdog_timer :: "'w firmware \<Rightarrow> nat \<Rightarrow> nat \<Rightarrow> 'w \<Rightarrow> nat \<times> 'w" where
  "set_watchdog_timer fw timeout watchdog_code w = fw_set_watchdog_timer fw timeout watchdog_code 0 0 w"

text \<open>The constants of module \<open>guid\<close> (they compile, see \<open>uefi_guids\<close>).\<close>

abbreviation guid_of :: "GUID option \<Rightarrow> GUID" where
  "guid_of c \<equiv> the c"

definition io_volume :: "'w firmware \<Rightarrow> handle \<Rightarrow> 'w \<Rightarrow> (nat \<times> 'w) res" where
  "io_volume fw image_handle w =
     (let (res, loaded_image, w) = open_protocol fw image_handle (guid_of LOADED_IMAGE_PROTOCOL) 0 image_handle EMPTY_HANDLE
                                      OPEN_PROTOCOL_BY_HANDLE_PROTOCOL w
      in case fw_loaded_image fw w loaded_image of
           None \<Rightarrow> Inl UndefinedBehaviour
         | Some (device_handle, image_base) \<Rightarrow>
             (let (res, io_volume, w) = open_protocol fw device_handle (guid_of SIMPLE_FILE_SYSTEM_PROTOCOL) 0 image_handle EMPTY_HANDLE
                                           OPEN_PROTOCOL_BY_HANDLE_PROTOCOL w
              in Inr (io_volume, w)))"

definition get_image_base :: "'w firmware \<Rightarrow> handle \<Rightarrow> 'w \<Rightarrow> (nat \<times> 'w) res" where
  "get_image_base fw image_handle w =
     (let (res, loaded_image, w) = handle_protocol fw image_handle (guid_of LOADED_IMAGE_PROTOCOL) 0 w
      in case fw_loaded_image fw w loaded_image of None \<Rightarrow> Inl UndefinedBehaviour | Some (_, image_base) \<Rightarrow> Inr (image_base, w))"

text \<open>\<open>offset\<close> and \<open>size\<close> (\<open>n\<close>) are not used: the read starts at the position of the file and asks for the length of the buffer.\<close>

definition read_fixed :: "'w firmware \<Rightarrow> nat \<Rightarrow> nat \<Rightarrow> nat \<Rightarrow> u8 list \<Rightarrow> 'w \<Rightarrow> nat \<times> u8 list \<times> 'w" where
  "read_fixed fw file offset n buffer w = fw_read fw file (length buffer) buffer w"

section \<open>The closure of the loader\<close>

definition btimg_path :: "nat list" where
  "btimg_path = uchars ''efi'' @ [0x5C] @ uchars ''boot'' @ [0x5C] @ uchars ''btimg.bin'' @ [0]"

text \<open>
  Every status is only printed. \<open>uninit\<close> is what the pool memory holds before the read; the slice over a null pointer is undefined
  behaviour. \<open>file_size\<close> is the second word of the zeroed \<open>FileInfo\<close> (100 bytes) that \<open>get_info\<close> fills.
\<close>

definition read_boot_volume :: "'w firmware \<Rightarrow> (nat \<Rightarrow> nat \<Rightarrow> u8 list) \<Rightarrow> handle \<Rightarrow> 'w \<Rightarrow> (u8 list \<times> 'w) res" where
  "read_boot_volume fw uninit image_handle w =
     bind_r (io_volume fw image_handle w) (\<lambda>(volume, w).
     bind_r (deref (fw_volume fw w volume)) (\<lambda>_.
     let (res, fileio, w) = fw_open_volume fw volume 0 w in
     bind_r (deref (fw_file fw w fileio)) (\<lambda>_.
     let (res, newfileio, w) = fw_open fw fileio 0 btimg_path FILE_MODE_READ FILE_READ_ONLY w;
         (res, file_size, w) = fw_get_info fw newfileio (guid_of FILE_INFO) 100 0 w in
     bind_r (allocate_pool fw 1 file_size 0 w) (\<lambda>(res, file_data, w).
     bind_r (deref (file_data \<noteq> 0)) (\<lambda>_.
     let (res, w) = set_watchdog_timer fw 0 0 w in
     bind_r (deref (fw_file fw w newfileio)) (\<lambda>_.
     let (res, data, w) = read_fixed fw newfileio 0 file_size (uninit file_data file_size) w in
       Inr (data, w)))))))"

section \<open>Unchecked statuses\<close>

text \<open>
  Although every status is looked at and printed, a firmware call that fails and leaves its output pointer null makes the code
  use that null pointer.
\<close>

lemma io_volume_unchecked:
  assumes "\<forall>w. fw_loaded_image fw w 0 = None"
    and "fw_open_protocol fw ih (guid_of LOADED_IMAGE_PROTOCOL) 0 ih EMPTY_HANDLE OPEN_PROTOCOL_BY_HANDLE_PROTOCOL w = (status, 0, w')"
  shows "io_volume fw ih w = Inl UndefinedBehaviour"
  using assms by (simp add: io_volume_def open_protocol_def)

lemma read_boot_volume_unchecked:
  assumes "\<forall>w. \<not> fw_file fw w 0" "\<forall>w. \<not> fw_volume fw w 0" "io_volume fw ih w = Inr (v, w1)"
  shows "v = 0 \<or> fst (snd (fw_open_volume fw v 0 w1)) = 0 \<Longrightarrow> read_boot_volume fw uninit ih w = Inl UndefinedBehaviour"
  using assms by (auto simp: read_boot_volume_def deref_def Let_def split: prod.splits)

text \<open>The path is what \<open>wchar!\<close> makes of its literal, a text without characters beyond ASCII.\<close>

lemma btimg_path_units:
  assumes "unescape (butlast (tl rstr)) = Some (butlast btimg_path)"
  shows "wchar unescape [Literal rstr] = Inr (Units btimg_path)"
proof -
  have "\<forall>c \<in> set (butlast btimg_path). c < 0x80" by (simp add: btimg_path_def uchars_def)
  then have "\<exists>ls. map_r wchar_text (butlast btimg_path) = Inr ls \<and> those (map (literal_value 16) ls) = Some (map wide_unit (butlast btimg_path))"
    by (intro wchar_units) auto
  moreover have "map wide_unit (butlast btimg_path) @ [0] = btimg_path" by (simp add: btimg_path_def uchars_def wide_unit_def)
  ultimately show ?thesis using assms by (auto simp: wchar_def)
qed

section \<open>The default file information\<close>

text \<open>
  \<open>Default for FileInfo\<close> fills the other fields with \<open>..Default::default()\<close>, which is the function itself: it never returns. Nothing calls it, the
  loader takes a zeroed structure.
\<close>

record Time =
  year :: u16
  month :: u8
  day :: u8
  hour :: u8
  minute :: u8
  second :: u8
  pad1 :: u8
  nanosecond :: u32
  time_zone :: u16
  daylight :: u8
  pad2 :: u8

record FileInfo =
  fi_size :: nat
  fi_file_size :: nat
  fi_physical_size :: nat
  fi_create_time :: Time
  fi_last_access_time :: Time
  fi_modification_time :: Time
  fi_attribute :: u64
  fi_file_name :: "u16 list"

partial_function (option) file_info_default :: "unit \<Rightarrow> FileInfo option" where
  "file_info_default u =
     Option.bind (file_info_default u) (\<lambda>rest. Some (rest\<lparr>fi_file_name := replicate 10 0\<rparr>))"

lemma file_info_default_diverges: "file_info_default () = None"
proof (rule ccontr)
  assume "file_info_default () \<noteq> None"
  then obtain r where r: "file_info_default () = Some r" by blast
  show False by (rule file_info_default.raw_induct [where P = "\<lambda>_ _. False", OF _ r]) (auto simp: bind_eq_Some_conv)
qed

end
