(* ===== verification/Iso_Tree.thy ===== *)
theory Iso_Tree
  imports Iso_Entry "HOL-Library.List_Lexorder" "HOL-Library.Product_Lexorder"
begin

text \<open>
  The operations of \<open>directory_entry.rs\<close> on the whole tree, and the two passes of \<open>iso/mod.rs\<close> that
  number the directories and reserve the blocks of the files.

  A \<open>&mut\<close> reference into the tree is the function that updates the tree at that place
  (\<open>get_file\<close> is \<open>find_file\<close> to read and \<open>update_file\<close> to write). The recursion of \<open>set_path\<close> follows the
  directories of the file system; its first argument is the depth the stack allows, and running out of
  it is the value \<open>StackOverflow\<close>.
\<close>

section \<open>Path tables\<close>

text \<open>The position rounded down to a block, and the zeros that fill the last block.\<close>

definition block_start :: "nat \<Rightarrow> nat" where
  "block_start p = unat ((word_of_nat p :: u64) AND (- 0x800))"

definition pad_to_block :: "out_file \<Rightarrow> out_file res" where
  "pad_to_block f =
     (let current_pos = fpos f;
          expected_aligned_pos = block_start current_pos
      in bind_r (sub_chk current_pos expected_aligned_pos) (\<lambda>diff_size.
         if diff_size \<noteq> 0 then
           bind_r (sub_chk LOGIC_SIZE diff_size) (\<lambda>n. write_all (replicate n 0) f)
         else Inr f))"

fun get_path_table_size :: "DirectoryEntry \<Rightarrow> nat res" where
  "get_path_table_size (DirectoryEntry pidx par p ds fs ca l) =
     bind_r (path_name p) (\<lambda>name.
     let directory_type = (if pidx = 1 then 5 else 6) in
     bind_r (get_entry_size 0x8 name directory_type 0) (\<lambda>n.
       fold_r (\<lambda>d s. bind_r (get_path_table_size d) (\<lambda>m. chk 32 (s + m))) ds n))"

definition write_path_table_entry :: "deps \<Rightarrow> endian \<Rightarrow> nat \<Rightarrow> DirectoryEntry \<Rightarrow> out_file \<Rightarrow> out_file res" where
  "write_path_table_entry dp order directory_type d f =
     bind_r (de_get_file_name d) (\<lambda>name.
     bind_r (convert_name name) (\<lambda>file_name_fixed.
     let file_identifier = (if directory_type = 1 then [0] else file_name_fixed);
         file_identifier_len = length file_identifier
     in run [write_u8 dp (as_u8 file_identifier_len),
             write_u8 dp 0,
             write_u32 dp order (de_lba d),
             write_u16 dp order (as_u16 (parent_index d)),
             write_all file_identifier,
             (if file_identifier_len mod 2 \<noteq> 0 then write_u8 dp 0 else Inr)] f))"

fun write_path_table_childs :: "deps \<Rightarrow> endian \<Rightarrow> DirectoryEntry \<Rightarrow> out_file \<Rightarrow> out_file res" where
  "write_path_table_childs dp order (DirectoryEntry pidx par p ds fs ca l) f =
     bind_r (fold_r (write_path_table_entry dp order 0) ds f) (\<lambda>f1.
       fold_r (\<lambda>d. write_path_table_childs dp order d) ds f1)"

definition write_path_table :: "deps \<Rightarrow> endian \<Rightarrow> DirectoryEntry \<Rightarrow> nat \<Rightarrow> out_file \<Rightarrow> out_file res" where
  "write_path_table dp order d path_table_pos f =
     (let old_pos = fpos f in
      bind_r (chk 32 (path_table_pos * LOGIC_SIZE)) (\<lambda>p.
      bind_r (seek_start p f) (\<lambda>f1.
      let old_pos_current_context = fpos f1 in
      bind_r (write_path_table_entry dp order 1 d f1) (\<lambda>f2.
      bind_r (write_path_table_childs dp order d f2) (\<lambda>f3.
      bind_r (sub_chk (fpos f3) old_pos_current_context) (\<lambda>written_size.
      bind_r (get_path_table_size d) (\<lambda>n.
      bind_r (assert_r (written_size = n)) (\<lambda>_.
      bind_r (pad_to_block f3) (\<lambda>f4.
        seek_start old_pos f4)))))))))"

section \<open>Extents and file contents\<close>

definition write_continuation_area :: "DirectoryEntry \<Rightarrow> out_file \<Rightarrow> out_file res" where
  "write_continuation_area d f =
     (case continuation_area d of
        None \<Rightarrow> Inr f
      | Some area \<Rightarrow>
          let old_pos = fpos f in
          bind_r (get_extent_size_in_lb d) (\<lambda>n.
          bind_r (chk 32 (de_lba d + n)) (\<lambda>l.
          bind_r (chk 32 (l * LOGIC_SIZE)) (\<lambda>p.
          bind_r (seek_start p f) (\<lambda>f1.
          bind_r (write_all area f1) (\<lambda>f2.
          bind_r (pad_to_block f2) (\<lambda>f3.
            seek_start old_pos f3)))))))"

text \<open>The directory written as the parent of the root.\<close>

definition empty_parent :: "nat \<Rightarrow> DirectoryEntry" where
  "empty_parent l = DirectoryEntry 0 0 [Normal (Unicode (ascii ''dummy''))] [] [] None l"

fun write_extent :: "deps \<Rightarrow> DirectoryEntry \<Rightarrow> DirectoryEntry option \<Rightarrow> out_file \<Rightarrow> out_file res" where
  "write_extent dp (DirectoryEntry pidx par p ds fs ca l) parent_option f =
     (let self = DirectoryEntry pidx par p ds fs ca l;
          old_pos = fpos f
      in
      bind_r (chk 32 (l * LOGIC_SIZE)) (\<lambda>start.
      bind_r (seek_start start f) (\<lambda>f1.
      bind_r (write_as_current dp self (if parent_option = None then 3 else 1) f1) (\<lambda>f2.
      bind_r (write_as_parent dp (case parent_option of Some d \<Rightarrow> d | None \<Rightarrow> empty_parent l) f2) (\<lambda>f3.
      bind_r (fold_r (\<lambda>child g. bind_r (write_one dp child g) (write_extent dp child (Some self))) ds f3) (\<lambda>f4.
      bind_r (fold_r (fe_write_entry dp) fs f4) (\<lambda>f5.
      bind_r (pad_to_block f5) (\<lambda>f6.
      bind_r (write_continuation_area self f6) (\<lambda>f7.
        seek_start old_pos f7)))))))))"

definition write_content :: "fs \<Rightarrow> FileEntry \<Rightarrow> out_file \<Rightarrow> out_file res" where
  "write_content fsys e f =
     (let old_pos = fpos f in
      bind_r (chk 32 (fe_lba e * LOGIC_SIZE)) (\<lambda>p.
      bind_r (seek_start p f) (\<lambda>f1.
      bind_r (open_content_provider fsys e) (\<lambda>content.
      bind_r (write_all content f1) (\<lambda>f2.
      bind_r (pad_to_block f2) (\<lambda>f3.
        seek_start old_pos f3))))))"

fun write_files :: "fs \<Rightarrow> DirectoryEntry \<Rightarrow> out_file \<Rightarrow> out_file res" where
  "write_files fsys (DirectoryEntry pidx par p ds fs ca l) f =
     bind_r (fold_r (\<lambda>d. write_files fsys d) ds f) (\<lambda>f1.
       fold_r (write_content fsys) fs f1)"

section \<open>Finding and adding entries\<close>

text \<open>
  \<open>get_directory\<close> scans the children in order and stops at the first with the name; the position it
  finds, \<open>None\<close> when there is none. A child without a file name panics.
\<close>

fun find_dir :: "str \<Rightarrow> DirectoryEntry list \<Rightarrow> nat option res" where
  "find_dir dir_name [] = Inr None"
| "find_dir dir_name (c # cs) =
     bind_r (de_get_file_name c) (\<lambda>n.
       if n = dir_name then Inr (Some 0)
       else bind_r (find_dir dir_name cs) (\<lambda>r. Inr (map_option Suc r)))"

fun find_child_file :: "str \<Rightarrow> FileEntry list \<Rightarrow> nat option res" where
  "find_child_file name [] = Inr None"
| "find_child_file name (c # cs) =
     bind_r (fe_get_file_name c) (\<lambda>n.
       if n = name then Inr (Some 0)
       else bind_r (find_child_file name cs) (\<lambda>r. Inr (map_option Suc r)))"

text \<open>
  \<open>get_file\<close>: every part of the path but the last names a directory. The address of the file found: the
  child indices to follow and the index in \<open>files_childs\<close>.
\<close>

fun find_file_parts :: "str list \<Rightarrow> DirectoryEntry \<Rightarrow> (nat list \<times> nat) option res" where
  "find_file_parts [] d = Inr None"
| "find_file_parts [name] d =
     bind_r (find_child_file name (files_childs d)) (\<lambda>r. Inr (map_option (\<lambda>i. ([], i)) r))"
| "find_file_parts (part # part' # parts) d =
     bind_r (find_dir part (dir_childs d)) (\<lambda>r.
       case r of
         None \<Rightarrow> Inr None
       | Some i \<Rightarrow>
           bind_r (find_file_parts (part' # parts) (dir_childs d ! i)) (\<lambda>a.
             Inr (map_option (\<lambda>(is, k). (i # is, k)) a)))"

definition find_file :: "str \<Rightarrow> DirectoryEntry \<Rightarrow> (nat list \<times> nat) option res" where
  "find_file p d = find_file_parts (split_on slash p) d"

primrec dir_at :: "nat list \<Rightarrow> DirectoryEntry \<Rightarrow> DirectoryEntry" where
  "dir_at [] d = d"
| "dir_at (i # is) d = dir_at is (dir_childs d ! i)"

definition file_at :: "nat list \<times> nat \<Rightarrow> DirectoryEntry \<Rightarrow> FileEntry" where
  "file_at a d = files_childs (dir_at (fst a) d) ! snd a"

definition set_dir_childs :: "DirectoryEntry list \<Rightarrow> DirectoryEntry \<Rightarrow> DirectoryEntry" where
  "set_dir_childs ds d =
     DirectoryEntry (path_table_index d) (parent_index d) (path d) ds (files_childs d) (continuation_area d) (de_lba d)"

definition set_files_childs :: "FileEntry list \<Rightarrow> DirectoryEntry \<Rightarrow> DirectoryEntry" where
  "set_files_childs fs d =
     DirectoryEntry (path_table_index d) (parent_index d) (path d) (dir_childs d) fs (continuation_area d) (de_lba d)"

primrec update_file_at :: "nat list \<Rightarrow> nat \<Rightarrow> FileEntry \<Rightarrow> DirectoryEntry \<Rightarrow> DirectoryEntry" where
  "update_file_at [] k e d = set_files_childs ((files_childs d)[k := e]) d"
| "update_file_at (i # is) k e d =
     set_dir_childs ((dir_childs d)[i := update_file_at is k e (dir_childs d ! i)]) d"

definition add_file :: "FileEntry \<Rightarrow> DirectoryEntry \<Rightarrow> DirectoryEntry" where
  "add_file e d = set_files_childs (files_childs d @ [e]) d"

text \<open>\<open>iter_mut().filter(same name).last()\<close>: the last child with the name.\<close>

fun find_last_dir :: "str \<Rightarrow> DirectoryEntry list \<Rightarrow> nat option res" where
  "find_last_dir n [] = Inr None"
| "find_last_dir n (c # cs) =
     bind_r (de_get_file_name c) (\<lambda>m.
     bind_r (find_last_dir n cs) (\<lambda>r.
       Inr (case r of Some i \<Rightarrow> Some (Suc i) | None \<Rightarrow> if m = n then Some 0 else None)))"

definition append_files :: "FileEntry list \<Rightarrow> DirectoryEntry \<Rightarrow> DirectoryEntry" where
  "append_files fs d = set_files_childs (files_childs d @ fs) d"

text \<open>
  \<open>merge_child_directories\<close>: fold the children of \<open>other\<close> into the receiver. Both it and
  \<open>add_and_merge_childs_directories\<close> do the same step on the list of children, \<open>merge_into\<close>: a child whose
  name is present gives the present one its files and its own children, a new name is appended. The name
  is compared inside the filter, so it is only computed when there is a child to compare with.
\<close>

function merge_into :: "DirectoryEntry \<Rightarrow> DirectoryEntry list \<Rightarrow> DirectoryEntry list res" where
  "merge_into (DirectoryEntry pidx par p ds fs ca l) dirs =
     (if dirs = [] then Inr [DirectoryEntry pidx par p ds fs ca l]
      else
        bind_r (path_name p) (\<lambda>name.
        bind_r (find_last_dir name dirs) (\<lambda>r.
          case r of
            None \<Rightarrow> Inr (dirs @ [DirectoryEntry pidx par p ds fs ca l])
          | Some i \<Rightarrow>
              let present = append_files fs (dirs ! i) in
              bind_r (fold_r merge_into ds (dir_childs present)) (\<lambda>cs.
                Inr (dirs[i := set_dir_childs cs present])))))"
  by pat_completeness auto
termination
  by (relation "measure (\<lambda>(d, _). size d)") (auto simp: less_Suc_eq_le intro: trans_le_add1 size_list_estimation')

definition merge_child_directories :: "DirectoryEntry \<Rightarrow> DirectoryEntry \<Rightarrow> DirectoryEntry res" where
  "merge_child_directories other self =
     bind_r (fold_r merge_into (dir_childs other) (dir_childs self)) (\<lambda>cs. Inr (set_dir_childs cs self))"

definition add_and_merge_childs_directories :: "DirectoryEntry list \<Rightarrow> DirectoryEntry \<Rightarrow> DirectoryEntry list res" where
  "add_and_merge_childs_directories dirs other = merge_into other dirs"

definition new_directory :: DirectoryEntry where
  "new_directory = DirectoryEntry 0 0 [] [] [] None 0"

section \<open>Building the tree\<close>

text \<open>\<open>sort_by_key\<close> on paths: components compare by kind, names by their bytes.\<close>

fun component_key :: "component \<Rightarrow> nat \<times> u8 list" where
  "component_key RootDir = (0, [])"
| "component_key CurDir = (1, [])"
| "component_key ParentDir = (2, [])"
| "component_key (Normal (Unicode s)) = (3, s)"
| "component_key (Normal (NonUnicode s)) = (3, s)"

definition path_key :: "path_buf \<Rightarrow> (nat \<times> u8 list) list" where
  "path_key p = map component_key p"

definition regular_entry :: "path_buf \<Rightarrow> fs_meta \<Rightarrow> FileEntry res" where
  "regular_entry p meta =
     bind_r (align_up_i32 (as_i32 (meta_len meta)) 2048) (\<lambda>a.
       Inr \<lparr>file_type = Regular p, fe_size = meta_len meta, fe_lba = 0, aligned_size = i32_as_usize a\<rparr>)"

text \<open>The body of the loops of \<open>set_path\<close> and \<open>set_path_files\<close>, given how a subdirectory is read.\<close>

definition collect_entry ::
    "(path_buf \<Rightarrow> fs_meta option) \<Rightarrow> (path_buf \<Rightarrow> DirectoryEntry res) \<Rightarrow> path_buf
       \<Rightarrow> DirectoryEntry list \<times> FileEntry list \<Rightarrow> (DirectoryEntry list \<times> FileEntry list) res" where
  "collect_entry metadata read_sub p s =
     (case metadata p of
        None \<Rightarrow> Inl (IoError ''metadata'')
      | Some meta \<Rightarrow>
          if is_dir meta then
            bind_r (read_sub p) (\<lambda>new_dir.
            bind_r (add_and_merge_childs_directories (fst s) new_dir) (\<lambda>ds. Inr (ds, snd s)))
          else if is_file meta then
            bind_r (regular_entry p meta) (\<lambda>e. Inr (fst s, snd s @ [e]))
          else Inr s)"

definition extend_entry ::
    "path_buf \<Rightarrow> DirectoryEntry list \<Rightarrow> FileEntry list \<Rightarrow> DirectoryEntry \<Rightarrow> DirectoryEntry" where
  "extend_entry p ds fs d =
     DirectoryEntry (path_table_index d) (parent_index d) p (dir_childs d @ ds) (files_childs d @ fs)
       (continuation_area d) (de_lba d)"

fun set_path :: "fs \<Rightarrow> nat \<Rightarrow> path_buf list \<Rightarrow> DirectoryEntry \<Rightarrow> DirectoryEntry res" where
  "set_path fsys 0 paths self = Inl StackOverflow"
| "set_path fsys (Suc depth) paths self =
     bind_r (map_r (\<lambda>p. unwrap (fs_read_dir fsys p)) paths) (\<lambda>dirs.
     let ordered_dir = sort_key path_key (concat dirs) in
     bind_r (fold_r (collect_entry (fs_entry_metadata fsys) (\<lambda>p. set_path fsys depth [p] new_directory))
       ordered_dir ([], [])) (\<lambda>(ds, fs).
     bind_r (index_r paths 0) (\<lambda>p0. Inr (extend_entry p0 ds fs self))))"

definition set_path_files :: "fs \<Rightarrow> nat \<Rightarrow> path_buf list \<Rightarrow> DirectoryEntry \<Rightarrow> DirectoryEntry res" where
  "set_path_files fsys depth paths self =
     bind_r (fold_r (collect_entry (fs_metadata fsys) (\<lambda>p. set_path fsys depth [p] new_directory))
       paths ([], [])) (\<lambda>(ds, fs).
     bind_r (index_r paths 0) (\<lambda>p0. Inr (extend_entry p0 ds fs self)))"

section \<open>Numbering and block assignment\<close>

definition set_ids :: "nat \<Rightarrow> nat \<Rightarrow> DirectoryEntry \<Rightarrow> DirectoryEntry" where
  "set_ids idx par d =
     DirectoryEntry idx par (path d) (dir_childs d) (files_childs d) (continuation_area d) (de_lba d)"

definition set_lba :: "nat \<Rightarrow> DirectoryEntry \<Rightarrow> DirectoryEntry" where
  "set_lba l d =
     DirectoryEntry (path_table_index d) (parent_index d) (path d) (dir_childs d) (files_childs d)
       (continuation_area d) l"

definition number_child :: "nat \<Rightarrow> DirectoryEntry \<Rightarrow> nat \<Rightarrow> (DirectoryEntry \<times> nat) res" where
  "number_child tree_index entry last_index =
     bind_r (chk 32 (last_index + 1)) (\<lambda>i. Inr (set_ids i tree_index entry, i))"

fun tree_size :: "DirectoryEntry \<Rightarrow> nat" where
  "tree_size (DirectoryEntry pidx par p ds fs ca l) = 1 + sum_list (map tree_size ds)"

lemma set_fields [simp]:
  "path_table_index (set_ids i par d) = i" "parent_index (set_ids i par d) = par" "path (set_ids i par d) = path d"
  "dir_childs (set_ids i par d) = dir_childs d" "files_childs (set_ids i par d) = files_childs d"
  "continuation_area (set_ids i par d) = continuation_area d" "de_lba (set_ids i par d) = de_lba d"
  "path_table_index (set_lba x d) = path_table_index d" "parent_index (set_lba x d) = parent_index d"
  "path (set_lba x d) = path d" "dir_childs (set_lba x d) = dir_childs d"
  "files_childs (set_lba x d) = files_childs d" "continuation_area (set_lba x d) = continuation_area d"
  "de_lba (set_lba x d) = x"
  "path_table_index (set_dir_childs ds d) = path_table_index d" "parent_index (set_dir_childs ds d) = parent_index d"
  "path (set_dir_childs ds d) = path d" "dir_childs (set_dir_childs ds d) = ds"
  "files_childs (set_dir_childs ds d) = files_childs d" "continuation_area (set_dir_childs ds d) = continuation_area d"
  "de_lba (set_dir_childs ds d) = de_lba d"
  "path_table_index (set_files_childs fs d) = path_table_index d" "parent_index (set_files_childs fs d) = parent_index d"
  "path (set_files_childs fs d) = path d" "dir_childs (set_files_childs fs d) = dir_childs d"
  "files_childs (set_files_childs fs d) = fs" "continuation_area (set_files_childs fs d) = continuation_area d"
  "de_lba (set_files_childs fs d) = de_lba d"
  by (simp_all add: set_ids_def set_lba_def set_dir_childs_def set_files_childs_def)

lemma tree_size_childs: "tree_size d = 1 + sum_list (map tree_size (dir_childs d))"
  by (cases d) simp

lemma tree_size_set [simp]:
  "tree_size (set_ids i par d) = tree_size d" "tree_size (set_lba x d) = tree_size d"
  by (simp_all add: tree_size_childs)

lemma number_childs_sizes:
  "map_state (number_child k) ds i = Inr (ds', i') \<Longrightarrow> map tree_size ds' = map tree_size ds"
  by (induction ds arbitrary: i ds') (auto simp: number_child_def)

function (sequential) assign_directory_identifiers ::
    "DirectoryEntry \<Rightarrow> nat \<times> nat \<Rightarrow> (DirectoryEntry \<times> nat \<times> nat) res" where
  "assign_directory_identifiers tree (last_index, last_lba) =
     bind_r (if continuation_area tree \<noteq> None then chk 32 (last_lba + 1) else Inr last_lba) (\<lambda>lba1.
     bind_r (if last_index = 0 then
               bind_r (chk 32 (last_index + 1)) (\<lambda>i. Inr (set_ids i last_index tree, i))
             else Inr (set_lba lba1 tree, last_index)) (\<lambda>(tree1, index1).
     bind_r (get_extent_size_in_lb tree1) (\<lambda>n.
     bind_r (chk 32 (lba1 + n)) (\<lambda>lba2.
     bind_r (map_state (number_child (path_table_index tree1)) (dir_childs tree1) index1) (\<lambda>(ds, index2).
     bind_r (map_state assign_directory_identifiers ds (index2, lba2)) (\<lambda>(ds', s).
       Inr (set_dir_childs ds' tree1, s)))))))"
  by pat_completeness auto
termination
proof (relation "measure (\<lambda>(d, _). tree_size d)")
  fix tree last_index last_lba lba1 x tree1 index1 n lba2 x2 ds index2 child s
  assume t: "(if last_index = 0 then bind_r (chk 32 (last_index + 1)) (\<lambda>i. Inr (set_ids i last_index tree, i))
      else Inr (set_lba lba1 tree, last_index)) = Inr x" "(tree1, index1) = x"
    and m: "map_state (number_child (path_table_index tree1)) (dir_childs tree1) index1 = Inr x2" "(ds, index2) = x2"
    and c: "child \<in> set ds"
  have "dir_childs tree1 = dir_childs tree" using t by (auto split: if_splits)
  moreover have "map tree_size ds = map tree_size (dir_childs tree1)" using m number_childs_sizes by auto
  ultimately have e: "map tree_size (dir_childs tree) = map tree_size ds" by simp
  have "tree_size child \<le> sum_list (map tree_size (dir_childs tree))"
    unfolding e using c by (intro member_le_sum_list) auto
  then show "((child, s), (tree, last_index, last_lba)) \<in> measure (\<lambda>(d, _). tree_size d)"
    by (simp add: tree_size_childs [of tree])
qed simp

declare assign_directory_identifiers.simps [simp del]

definition reserve_file :: "FileEntry \<Rightarrow> nat \<Rightarrow> (FileEntry \<times> nat) res" where
  "reserve_file e current_lba =
     bind_r (chk 32 (as_u32 (fe_size e) + LOGIC_SIZE)) (\<lambda>s.
     let lba_count = s div LOGIC_SIZE in
     bind_r (chk 32 (current_lba + lba_count)) (\<lambda>l. Inr (e\<lparr>fe_lba := current_lba\<rparr>, l)))"

fun reserve_file_space :: "DirectoryEntry \<Rightarrow> nat \<Rightarrow> (DirectoryEntry \<times> nat) res" where
  "reserve_file_space (DirectoryEntry pidx par p ds fs ca l) current_lba =
     bind_r (map_state reserve_file fs current_lba) (\<lambda>(fs', l1).
     bind_r (map_state reserve_file_space ds l1) (\<lambda>(ds', l2).
       Inr (DirectoryEntry pidx par p ds' fs' ca l, l2)))"

end
