(* ===== verification/Iso_Layout.thy ===== *)
theory Iso_Layout
  imports Iso_Tree "HOL-Library.Multiset"
begin

text \<open>
  Properties of the tree passes of \<open>Iso_Tree\<close>: the path table is what the announced size says, the numbers
  of the directories are their positions in it, the blocks of directories and files do not overlap, and
  what \<open>write_files\<close> writes is found at the blocks of the files.

  \<open>all_dirs\<close>, \<open>subdirs\<close> and \<open>all_files\<close> list a tree in the orders of the passes; \<open>chain\<close> says that regions
  follow each other without gap.
\<close>

section \<open>Lemmas on blocks\<close>

lemma block_start_eq: "p < 2 ^ 64 \<Longrightarrow> block_start p = p div 2048 * 2048"
proof -
  assume p: "p < 2 ^ 64"
  have "(- 0x800 :: u64) = NOT (2 ^ 11 - 1)" by (simp add: not_eq_complement)
  then have "(word_of_nat p :: u64) AND (- 0x800) = word_of_nat (unat (word_of_nat p :: u64) div 2 ^ 11 * 2 ^ 11)"
    by (simp only: and_not_mask_word)
  moreover have u: "unat (word_of_nat p :: u64) = p" using p by (simp add: unat_of_nat take_bit_eq_mod)
  moreover have "unat (word_of_nat (p div 2048 * 2048) :: u64) = p div 2048 * 2048"
    by (rule unat_word_of_nat_le [where w = "word_of_nat p :: u64"]) (simp add: u)
  ultimately show ?thesis by (simp add: block_start_def)
qed

lemma pad_to_block_eq:
  "fpos f < 2 ^ 64 \<Longrightarrow> pad_to_block f = Inr (put (replicate (room (fpos f)) 0) f)"
proof -
  assume p: "fpos f < 2 ^ 64"
  have d: "fpos f - fpos f div 2048 * 2048 = fpos f mod 2048" by (metis minus_div_mult_eq_mod)
  have "fpos f mod 2048 < 2048" by simp
  then have "fpos f mod 2048 \<le> 2048" by (rule less_imp_le)
  then show ?thesis
    by (simp add: pad_to_block_def Let_def block_start_eq [OF p] d sub_chk_def room_eq)
qed

section \<open>The path table\<close>

text \<open>The directories of a tree in preorder, and in the order of the path table (below the root).\<close>

fun all_dirs :: "DirectoryEntry \<Rightarrow> DirectoryEntry list" where
  "all_dirs (DirectoryEntry pidx par p ds fs ca l) =
     DirectoryEntry pidx par p ds fs ca l # concat (map all_dirs ds)"

fun subdirs :: "DirectoryEntry \<Rightarrow> DirectoryEntry list" where
  "subdirs (DirectoryEntry pidx par p ds fs ca l) = ds @ concat (map subdirs ds)"

definition name_ok :: "str res \<Rightarrow> bool" where
  "name_ok r = (case r of Inr name \<Rightarrow> length name \<le> 250 \<and> \<not> isl (convert_name name) | Inl _ \<Rightarrow> False)"

definition dir_name :: "DirectoryEntry \<Rightarrow> str" where
  "dir_name d = projr (de_get_file_name d)"

lemma name_okD:
  "name_ok (de_get_file_name d) \<Longrightarrow> de_get_file_name d = Inr (dir_name d)
     \<and> convert_name (dir_name d) = Inr (short_name (dir_name d)) \<and> length (dir_name d) \<le> 250"
  by (auto simp: name_ok_def dir_name_def split: sum.splits dest: convert_name_short)
    (metis convert_name_short sum.collapse(2))

definition pt_ident :: "nat \<Rightarrow> DirectoryEntry \<Rightarrow> str" where
  "pt_ident ty d = (if ty = 1 then [0] else short_name (dir_name d))"

definition pt_record :: "endian \<Rightarrow> nat \<Rightarrow> DirectoryEntry \<Rightarrow> u8 list" where
  "pt_record order ty d =
     [word_of_nat (length (pt_ident ty d)), 0] @ endian_bytes order 4 (de_lba d)
       @ endian_bytes order 2 (as_u16 (parent_index d)) @ pt_ident ty d
       @ (if odd (length (pt_ident ty d)) then [0] else [])"

definition path_table :: "endian \<Rightarrow> DirectoryEntry \<Rightarrow> u8 list" where
  "path_table order d = pt_record order 1 d @ concat (map (pt_record order 0) (subdirs d))"

definition dir_ok :: "DirectoryEntry \<Rightarrow> bool" where
  "dir_ok d \<longleftrightarrow> name_ok (de_get_file_name d) \<and> de_lba d < 2 ^ 32"

lemma pt_record_length: "length (pt_record order ty d) = 8 + pad_len 0 (length (pt_ident ty d))"
  by (auto simp: pt_record_def pad_len_def odd_iff_mod_2_eq_one)

lemma write_path_table_entry_eq:
  assumes "byteorder_ok dp" "dir_ok d" "ty = 0 \<or> ty = 1"
  shows "write_path_table_entry dp order ty d f = Inr (put (pt_record order ty d) f)"
proof -
  note n = name_okD [OF conjunct1 [OF assms(2) [unfolded dir_ok_def]]]
  have l: "length (short_name (dir_name d)) < 256" using short_name_length [of "dir_name d"] by simp
  have u: "as_u16 x < 65536" for x by (simp add: as_u16_def)
  have o: "odd m \<longleftrightarrow> m mod 2 = Suc 0" for m :: nat by presburger
  have lb: "de_lba d < 4294967296" using assms(2) by (simp add: dir_ok_def)
  show ?thesis
    using assms(1,3) n l u lb
    by (auto simp: write_path_table_entry_def pt_record_def pt_ident_def Let_def word_of_nat_as_u8 o)
qed

lemma fold_r_puts:
  assumes "\<And>x f. x \<in> set xs \<Longrightarrow> w x f = Inr (put (bs x) f)"
  shows "fold_r w xs f = Inr (put (concat (map bs xs)) f)"
  using assms by (induction xs arbitrary: f) auto

lemma concat_map_concat: "concat (concat xss) = concat (map concat xss)"
  by (induction xss) auto

lemma all_dirs_self: "d \<in> set (all_dirs d)"
  by (cases d) simp

lemma write_path_table_childs_eq:
  assumes "byteorder_ok dp"
  shows "\<forall>x \<in> set (all_dirs d). dir_ok x \<Longrightarrow>
    write_path_table_childs dp order d f = Inr (put (concat (map (pt_record order 0) (subdirs d))) f)"
proof (induction d arbitrary: f)
  case (DirectoryEntry pidx par p ds fs ca l)
  have ok: "dir_ok x" if "x \<in> set ds" for x
    using DirectoryEntry.prems that all_dirs_self by fastforce
  have 1: "fold_r (write_path_table_entry dp order 0) ds f
      = Inr (put (concat (map (pt_record order 0) ds)) f)"
    using ok assms by (intro fold_r_puts) (simp add: write_path_table_entry_eq)
  have 2: "fold_r (\<lambda>d. write_path_table_childs dp order d) ds g
      = Inr (put (concat (map (\<lambda>d. concat (map (pt_record order 0) (subdirs d))) ds)) g)" for g
    using DirectoryEntry by (intro fold_r_puts) auto
  show ?case by (simp add: 1 2 map_concat comp_def concat_map_concat)
qed

text \<open>The announced size: every directory once.\<close>

fun pt_total :: "DirectoryEntry \<Rightarrow> nat" where
  "pt_total (DirectoryEntry pidx par p ds fs ca l) =
     8 + pad_len 0 (length (short_name (dir_name (DirectoryEntry pidx par p ds fs ca l)))) + sum_list (map pt_total ds)"

lemma subdirs_total:
  "sum_list (map (\<lambda>x. length (pt_record order 0 x)) (subdirs d)) + length (pt_record order 0 d) = pt_total d"
proof (induction d)
  case (DirectoryEntry pidx par p ds fs ca l)
  have "sum_list (map (\<lambda>x. length (pt_record order 0 x)) (concat (map subdirs ds)))
      + sum_list (map (\<lambda>x. length (pt_record order 0 x)) ds) = sum_list (map pt_total ds)"
    using DirectoryEntry.IH by (induction ds) (auto simp flip: ac_simps)
  then show ?case by (simp add: pt_record_length pt_ident_def)
qed

lemma fold_sum_chk:
  assumes "\<And>d. d \<in> set ds \<Longrightarrow> g d = Inr (h d)" "s + sum_list (map h ds) < 2 ^ 32"
  shows "fold_r (\<lambda>d s. bind_r (g d) (\<lambda>m. chk 32 (s + m))) ds s = Inr (s + sum_list (map h ds))"
  using assms
proof (induction ds arbitrary: s)
  case (Cons d ds)
  have "s + h d < 2 ^ 32" using Cons.prems(2) by simp
  with Cons show ?case by (simp add: chk_ok add.assoc)
qed simp

lemma get_path_table_size_eq:
  assumes "\<forall>x \<in> set (all_dirs d). dir_ok x" "\<forall>x \<in> set (subdirs d). path_table_index x \<noteq> 1"
    and "pt_total d + 16 < 2 ^ 32"
  shows "get_path_table_size d = Inr (if path_table_index d = 1
      then 10 + sum_list (map pt_total (dir_childs d)) else pt_total d)"
  using assms
proof (induction d)
  case (DirectoryEntry pidx par p ds fs ca l)
  let ?d = "DirectoryEntry pidx par p ds fs ca l"
  have "dir_ok ?d" using DirectoryEntry.prems(1) by simp
  then have n: "path_name p = Inr (dir_name ?d)" "convert_name (dir_name ?d) = Inr (short_name (dir_name ?d))"
      "length (dir_name ?d) \<le> 250"
    using name_okD [of ?d] by (auto simp: dir_ok_def de_get_file_name_def)
  have ch: "get_path_table_size x = Inr (pt_total x)" if x: "x \<in> set ds" for x
  proof -
    have "pt_total x \<le> sum_list (map pt_total ds)" using x by (intro member_le_sum_list) auto
    then show ?thesis using DirectoryEntry.IH [OF x] DirectoryEntry.prems x by auto
  qed
  have r: "get_entry_size 8 (dir_name ?d) (if pidx = 1 then 5 else 6) 0
      = Inr (if pidx = 1 then 10 else 8 + pad_len 0 (length (short_name (dir_name ?d))))"
    using get_entry_size_cases(5,6) [OF _ n(2), of 8 0] n(3) by (auto simp: pad_len_def)
  have b: "(if pidx = 1 then 10 else 8 + pad_len 0 (length (short_name (dir_name ?d)))) + sum_list (map pt_total ds) < 2 ^ 32"
    using DirectoryEntry.prems(3) by auto
  show ?case
    using fold_sum_chk [OF ch b] r n(1) by (auto simp: Let_def)
qed

lemma path_table_length:
  "length (path_table order d) = 10 + sum_list (map pt_total (dir_childs d))"
proof -
  have "length (concat (map (pt_record order 0) (subdirs d))) = sum_list (map (\<lambda>x. length (pt_record order 0 x)) (subdirs d))"
    by (simp add: length_concat comp_def)
  also have "\<dots> = pt_total d - length (pt_record order 0 d)"
    using subdirs_total [of order d] by simp
  also have "\<dots> = sum_list (map pt_total (dir_childs d))"
    by (cases d) (simp add: pt_record_length pt_ident_def)
  finally show ?thesis by (simp add: path_table_def pt_record_length pt_ident_def pad_len_def)
qed


section \<open>Numbering\<close>

lemma upt_join: "i \<le> j \<Longrightarrow> j \<le> k \<Longrightarrow> [i..<j] @ [j..<k] = [i..<k]"
  by (metis le_Suc_ex upt_add_eq_append)

lemma number_child_Inr:
  "number_child k d i = Inr r \<longleftrightarrow> Suc i < 2 ^ 32 \<and> r = (set_ids (Suc i) k d, Suc i)"
  by (auto simp: number_child_def chk_def split: if_splits)

lemma number_childs_eq:
  "map_state (number_child k) ds i = Inr (ds', i') \<Longrightarrow>
     i' = i + length ds \<and> map path_table_index ds' = [Suc i..<Suc i']
     \<and> (\<forall>x \<in> set ds'. parent_index x = k) \<and> map path ds' = map path ds \<and> map dir_childs ds' = map dir_childs ds
     \<and> map continuation_area ds' = map continuation_area ds \<and> map files_childs ds' = map files_childs ds"
proof (induction ds arbitrary: i ds')
  case (Cons d ds)
  then obtain ds1 where r: "map_state (number_child k) ds (Suc i) = Inr (ds1, i')" "ds' = set_ids (Suc i) k d # ds1"
    by (auto simp: number_child_Inr)
  from Cons.IH [OF r(1)] r(2) show ?case by (auto simp: upt_conv_Cons simp del: upt_Suc)
qed simp

lemma assignE:
  assumes "assign_directory_identifiers tree (i, l) = Inr (t', i', l')"
  obtains l1 t1 i1 n ds i2 ds' where
    "l1 = l + (if continuation_area tree \<noteq> None then 1 else 0)"
    "t1 = (if i = 0 then set_ids 1 0 tree else set_lba l1 tree)" "i1 = (if i = 0 then 1 else i)"
    "get_extent_size_in_lb t1 = Inr n"
    "map_state (number_child (path_table_index t1)) (dir_childs tree) i1 = Inr (ds, i2)"
    "map_state assign_directory_identifiers ds (i2, l1 + n) = Inr (ds', i', l')"
    "t' = set_dir_childs ds' t1"
proof -
  let ?l1 = "l + (if continuation_area tree \<noteq> None then 1 else 0)"
  let ?t1 = "if i = 0 then set_ids 1 0 tree else set_lba ?l1 tree"
  let ?i1 = "if i = 0 then 1 else i"
  have "\<exists>n ds i2 ds'. get_extent_size_in_lb ?t1 = Inr n
      \<and> map_state (number_child (path_table_index ?t1)) (dir_childs tree) ?i1 = Inr (ds, i2)
      \<and> map_state assign_directory_identifiers ds (i2, ?l1 + n) = Inr (ds', i', l') \<and> t' = set_dir_childs ds' ?t1"
    using assms by (auto simp: assign_directory_identifiers.simps split: if_splits)
  then show thesis using that by blast
qed

text \<open>
  What one call does to the numbers: the directory keeps its own, its descendants get the next ones in
  the order of the path table, and every child points to its parent.
\<close>

definition numbered :: "nat \<Rightarrow> DirectoryEntry \<Rightarrow> nat \<Rightarrow> bool" where
  "numbered i t i' \<longleftrightarrow> i \<le> i' \<and> map path_table_index (subdirs t) = [Suc i..<Suc i']
     \<and> (\<forall>x \<in> set (all_dirs t). \<forall>c \<in> set (dir_childs x). parent_index c = path_table_index x)"

lemma subdirs_childs: "subdirs d = dir_childs d @ concat (map subdirs (dir_childs d))"
  by (cases d) simp

lemma all_dirs_childs: "all_dirs d = d # concat (map all_dirs (dir_childs d))"
  by (cases d) simp

definition assign_numbers :: "DirectoryEntry \<Rightarrow> bool" where
  "assign_numbers x \<longleftrightarrow> (\<forall>i l t' i' l'. 0 < i \<longrightarrow> assign_directory_identifiers x (i, l) = Inr (t', i', l') \<longrightarrow>
     numbered i t' i' \<and> path_table_index t' = path_table_index x \<and> parent_index t' = parent_index x)"

lemma assign_numbersD:
  "assign_numbers x \<Longrightarrow> 0 < i \<Longrightarrow> assign_directory_identifiers x (i, l) = Inr (t', i', l') \<Longrightarrow>
     numbered i t' i' \<and> path_table_index t' = path_table_index x \<and> parent_index t' = parent_index x"
  unfolding assign_numbers_def by blast

lemma assign_list_numbered:
  assumes "\<forall>x \<in> set ds. assign_numbers x"
    and "0 < i" "map_state assign_directory_identifiers ds (i, l) = Inr (ds', i', l')"
  shows "i \<le> i' \<and> concat (map (\<lambda>x. map path_table_index (subdirs x)) ds') = [Suc i..<Suc i']
    \<and> map path_table_index ds' = map path_table_index ds \<and> map parent_index ds' = map parent_index ds
    \<and> (\<forall>d \<in> set ds'. \<forall>x \<in> set (all_dirs d). \<forall>c \<in> set (dir_childs x). parent_index c = path_table_index x)"
  using assms
proof (induction ds arbitrary: i l ds')
  case (Cons d ds)
  from Cons.prems(3) obtain d' i1 l1 ds1 where
      d': "assign_directory_identifiers d (i, l) = Inr (d', i1, l1)"
    and r: "map_state assign_directory_identifiers ds (i1, l1) = Inr (ds1, i', l')" and ds': "ds' = d' # ds1"
    by auto
  have n: "numbered i d' i1" "path_table_index d' = path_table_index d" "parent_index d' = parent_index d"
    using assign_numbersD [OF _ Cons.prems(2) d'] Cons.prems(1) by simp_all
  then have "0 < i1" using Cons.prems(2) by (simp add: numbered_def)
  then have IH: "i1 \<le> i' \<and> concat (map (\<lambda>x. map path_table_index (subdirs x)) ds1) = [Suc i1..<Suc i']
    \<and> map path_table_index ds1 = map path_table_index ds \<and> map parent_index ds1 = map parent_index ds
    \<and> (\<forall>d \<in> set ds1. \<forall>x \<in> set (all_dirs d). \<forall>c \<in> set (dir_childs x). parent_index c = path_table_index x)"
    using Cons.IH [OF _ _ r] Cons.prems(1) by simp
  have u: "[Suc i..<Suc i1] @ [Suc i1..<Suc i'] = [Suc i..<Suc i']"
    using n(1) IH by (intro upt_join) (simp_all add: numbered_def)
  from n IH show ?case
    unfolding ds' using u by (auto simp: numbered_def simp del: upt_Suc)
qed (simp del: upt_Suc)

lemma assign_numbered:
  assumes "assign_directory_identifiers t (i, l) = Inr (t', i', l')"
  shows "numbered (if i = 0 then 1 else i) t' i'
    \<and> path_table_index t' = (if i = 0 then 1 else path_table_index t)
    \<and> parent_index t' = (if i = 0 then 0 else parent_index t)"
  using assms
proof (induction t arbitrary: i l t' i' l' rule: measure_induct_rule [of tree_size])
  case (less t)
  from less.prems obtain l1 t1 i1 n ds i2 ds' where
      t1: "t1 = (if i = 0 then set_ids 1 0 t else set_lba l1 t)" and i1: "i1 = (if i = 0 then 1 else i)"
    and nc: "map_state (number_child (path_table_index t1)) (dir_childs t) i1 = Inr (ds, i2)"
    and rc: "map_state assign_directory_identifiers ds (i2, l1 + n) = Inr (ds', i', l')"
    and t': "t' = set_dir_childs ds' t1"
    by (rule assignE)
  note c = number_childs_eq [OF nc]
  have sm: "tree_size x < tree_size t" if "x \<in> set ds" for x
  proof -
    have "tree_size x \<le> sum_list (map tree_size ds)" using that by (intro member_le_sum_list) auto
    then show ?thesis using number_childs_sizes [OF nc] by (simp add: tree_size_childs [of t])
  qed
  have "0 < i2" using c i1 by simp
  have "assign_numbers x" if "x \<in> set ds" for x
    unfolding assign_numbers_def using less.IH [OF sm [OF that]] by (metis not_gr_zero)
  then have L: "i2 \<le> i' \<and> concat (map (\<lambda>x. map path_table_index (subdirs x)) ds') = [Suc i2..<Suc i']
    \<and> map path_table_index ds' = map path_table_index ds \<and> map parent_index ds' = map parent_index ds
    \<and> (\<forall>d \<in> set ds'. \<forall>x \<in> set (all_dirs d). \<forall>c \<in> set (dir_childs x). parent_index c = path_table_index x)"
    by (intro assign_list_numbered [OF _ \<open>0 < i2\<close> rc]) simp
  have par: "\<forall>x \<in> set ds'. parent_index x = path_table_index t1"
    using L c by (metis in_set_conv_nth length_map nth_map nth_mem)
  have "[Suc i1..<Suc i2] @ [Suc i2..<Suc i'] = [Suc i1..<Suc i']"
    using L c by (intro upt_join) simp_all
  then have sub: "map path_table_index (subdirs t') = [Suc i1..<Suc i']"
    unfolding t' subdirs_childs [of "set_dir_childs ds' t1"]
    using L c by (simp add: map_concat comp_def del: upt_Suc)
  have "\<forall>x \<in> set (all_dirs t'). \<forall>c \<in> set (dir_childs x). parent_index c = path_table_index x"
    unfolding t' all_dirs_childs [of "set_dir_childs ds' t1"] using L par by auto
  with sub L c have "numbered i1 t' i'" by (simp add: numbered_def del: upt_Suc)
  with i1 show ?case by (simp add: t' t1)
qed

section \<open>Blocks\<close>

text \<open>Regions laid out one after the other from \<open>a\<close> to \<open>b\<close>.\<close>

primrec chain :: "nat \<Rightarrow> (nat \<times> nat) list \<Rightarrow> nat \<Rightarrow> bool" where
  "chain a [] b \<longleftrightarrow> a = b"
| "chain a (r # rs) b \<longleftrightarrow> fst r = a \<and> chain (a + snd r) rs b"

lemma chain_append: "chain a (xs @ ys) c \<longleftrightarrow> (\<exists>b. chain a xs b \<and> chain b ys c)"
  by (induction xs arbitrary: a) auto

lemma chain_bounds: "chain a rs b \<Longrightarrow> a \<le> b \<and> (\<forall>r \<in> set rs. a \<le> fst r \<and> fst r + snd r \<le> b)"
  by (induction rs arbitrary: a) fastforce+

lemma chain_disjoint:
  "chain a rs b \<Longrightarrow> i < j \<Longrightarrow> j < length rs \<Longrightarrow> fst (rs ! i) + snd (rs ! i) \<le> fst (rs ! j)"
proof (induction rs arbitrary: a i j)
  case (Cons r rs)
  then obtain j' where j': "j = Suc j'" by (cases j) auto
  show ?case
  proof (cases i)
    case 0
    have "rs ! j' \<in> set rs" using Cons.prems j' by simp
    then show ?thesis using Cons.prems chain_bounds [of "a + snd r" rs b] 0 j' by auto
  next
    case (Suc i')
    with Cons j' show ?thesis by auto
  qed
qed simp

text \<open>
  The extent of a directory depends on the names in it only, so neither numbering nor block assignment
  changes it.
\<close>

lemma get_extent_size_cong:
  assumes "path d = path d'" "map path (dir_childs d) = map path (dir_childs d')"
    and "map fe_get_file_name (files_childs d) = map fe_get_file_name (files_childs d')"
  shows "get_extent_size_in_lb d = get_extent_size_in_lb d'"
proof -
  have fold: "map g xs = map g ys \<Longrightarrow> fold_r (\<lambda>x s. h (g x) s) xs s = fold_r (\<lambda>x s. h (g x) s) ys s"
    for g :: "'a \<Rightarrow> 'b" and h :: "'b \<Rightarrow> nat \<times> nat \<Rightarrow> (nat \<times> nat) res" and xs ys s
  proof (induction xs arbitrary: ys s)
    case (Cons x xs)
    then obtain y ys' where "ys = y # ys'" by (cases ys) auto
    with Cons have "fold_r (\<lambda>x s. h (g x) s) xs = fold_r (\<lambda>x s. h (g x) s) ys'" "g x = g y" by auto
    with \<open>ys = y # ys'\<close> show ?case by simp
  qed simp
  let ?h = "\<lambda>p s. bind_r (bind_r (path_name p) (\<lambda>name. get_entry_size 33 name 0 1)) (\<lambda>n. extent_step n s)"
  let ?k = "\<lambda>m s. bind_r (bind_r m (\<lambda>name. get_entry_size (33 + 2) name 0 1)) (\<lambda>n. extent_step n s)"
  have 1: "fold_r (\<lambda>e s. ?h (path e) s) (dir_childs d) s = fold_r (\<lambda>e s. ?h (path e) s) (dir_childs d') s" for s
    by (rule fold [OF assms(2)])
  have 2: "fold_r (\<lambda>e s. ?k (fe_get_file_name e) s) (files_childs d) s
      = fold_r (\<lambda>e s. ?k (fe_get_file_name e) s) (files_childs d') s" for s
    by (rule fold [OF assms(3)])
  show ?thesis
    using assms(1) 1 2
    by (simp add: get_extent_size_in_lb_def de_get_entry_size_def de_get_file_name_def fe_get_entry_size_def)
qed

definition extent_blocks :: "DirectoryEntry \<Rightarrow> nat" where
  "extent_blocks d = projr (get_extent_size_in_lb d)"

text \<open>The blocks of a directory, with the continuation area that follows its extent.\<close>

definition dir_region :: "DirectoryEntry \<Rightarrow> nat \<times> nat" where
  "dir_region d = (de_lba d, extent_blocks d + (if continuation_area d = None then 0 else 1))"

definition file_region :: "FileEntry \<Rightarrow> nat \<times> nat" where
  "file_region e = (fe_lba e, (as_u32 (fe_size e) + 2048) div 2048)"

fun all_files :: "DirectoryEntry \<Rightarrow> FileEntry list" where
  "all_files (DirectoryEntry pidx par p ds fs ca l) = fs @ concat (map all_files ds)"

lemma reserve_file_Inr:
  "reserve_file e l = Inr r \<Longrightarrow> r = (e\<lparr>fe_lba := l\<rparr>, l + (as_u32 (fe_size e) + 2048) div 2048)"
  by (auto simp: reserve_file_def Let_def)

lemma reserve_files_chain:
  "map_state reserve_file fs l = Inr (fs', l') \<Longrightarrow>
     chain l (map file_region fs') l' \<and> map (fe_lba_update (\<lambda>_. 0)) fs' = map (fe_lba_update (\<lambda>_. 0)) fs"
proof (induction fs arbitrary: l fs')
  case (Cons e fs)
  from Cons.prems obtain fs1 l1 where
      r: "map_state reserve_file fs l1 = Inr (fs1, l')" "fs' = e\<lparr>fe_lba := l\<rparr> # fs1"
        "l1 = l + (as_u32 (fe_size e) + 2048) div 2048"
    by (auto dest!: reserve_file_Inr)
  from Cons.IH [OF r(1)] r(2,3) show ?case by (simp add: file_region_def)
qed simp

lemma same_but_lba:
  assumes "map (fe_lba_update (\<lambda>_. 0)) fs' = map (fe_lba_update (\<lambda>_. 0)) fs"
  shows "map fe_get_file_name fs' = map fe_get_file_name fs" "map file_type fs' = map file_type fs"
    "map fe_size fs' = map fe_size fs"
proof -
  have m: "map (g \<circ> fe_lba_update (\<lambda>_. 0)) fs' = map (g \<circ> fe_lba_update (\<lambda>_. 0)) fs" for g :: "FileEntry \<Rightarrow> 'a"
    using assms by (metis map_map)
  have n: "fe_get_file_name \<circ> fe_lba_update (\<lambda>_. 0) = fe_get_file_name" by (simp add: fun_eq_iff fe_get_file_name_def)
  show "map fe_get_file_name fs' = map fe_get_file_name fs" using m [of fe_get_file_name] n by simp
  show "map file_type fs' = map file_type fs" "map fe_size fs' = map fe_size fs"
    using m [of file_type] m [of fe_size] by (simp_all add: comp_def)
qed

definition reserved :: "nat \<Rightarrow> DirectoryEntry \<Rightarrow> DirectoryEntry \<Rightarrow> nat \<Rightarrow> bool" where
  "reserved l d d' l' \<longleftrightarrow> chain l (map file_region (all_files d')) l'
     \<and> map dir_region (all_dirs d') = map dir_region (all_dirs d)
     \<and> map file_type (all_files d') = map file_type (all_files d)
     \<and> map fe_size (all_files d') = map fe_size (all_files d) \<and> path d' = path d"

lemma reserve_list:
  assumes "\<forall>d \<in> set ds. \<forall>l d' l'. reserve_file_space d l = Inr (d', l') \<longrightarrow> reserved l d d' l'"
    and "map_state reserve_file_space ds l = Inr (ds', l')"
  shows "chain l (concat (map (\<lambda>d. map file_region (all_files d)) ds')) l'
    \<and> map (\<lambda>d. map dir_region (all_dirs d)) ds' = map (\<lambda>d. map dir_region (all_dirs d)) ds
    \<and> map (\<lambda>d. map file_type (all_files d)) ds' = map (\<lambda>d. map file_type (all_files d)) ds
    \<and> map (\<lambda>d. map fe_size (all_files d)) ds' = map (\<lambda>d. map fe_size (all_files d)) ds
    \<and> map path ds' = map path ds"
  using assms
proof (induction ds arbitrary: l ds')
  case (Cons d ds)
  from Cons.prems(2) obtain d' l1 ds1 where d': "reserve_file_space d l = Inr (d', l1)"
      and r: "map_state reserve_file_space ds l1 = Inr (ds1, l')" "ds' = d' # ds1" by auto
  have "reserved l d d' l1" using Cons.prems(1) d' by (meson list.set_intros(1))
  moreover from Cons.prems(1) have "\<forall>d \<in> set ds. \<forall>l d' l'. reserve_file_space d l = Inr (d', l') \<longrightarrow> reserved l d d' l'"
    by simp
  note IH = Cons.IH [OF this r(1)]
  ultimately show ?case unfolding r(2) by (auto simp: reserved_def chain_append)
qed simp

lemma reserve_file_space_ok: "reserve_file_space d l = Inr (d', l') \<Longrightarrow> reserved l d d' l'"
proof (induction d arbitrary: l d' l')
  case (DirectoryEntry pidx par p ds fs ca lba)
  from DirectoryEntry.prems obtain fs' l1 ds' where
      f: "map_state reserve_file fs l = Inr (fs', l1)" and c: "map_state reserve_file_space ds l1 = Inr (ds', l')"
    and d': "d' = DirectoryEntry pidx par p ds' fs' ca lba" by auto
  note F = reserve_files_chain [OF f] and N = same_but_lba [OF conjunct2 [OF reserve_files_chain [OF f]]]
  have "\<forall>d \<in> set ds. \<forall>l d' l'. reserve_file_space d l = Inr (d', l') \<longrightarrow> reserved l d d' l'"
    using DirectoryEntry.IH by blast
  note L = reserve_list [OF this c]
  have "get_extent_size_in_lb d' = get_extent_size_in_lb (DirectoryEntry pidx par p ds fs ca lba)"
    using L N(1) by (intro get_extent_size_cong) (simp_all add: d')
  then have "dir_region d' = dir_region (DirectoryEntry pidx par p ds fs ca lba)"
    by (simp add: dir_region_def extent_blocks_def d')
  with L F N show ?case
    by (auto simp: reserved_def d' chain_append map_concat comp_def)
qed

text \<open>What one call does to the blocks of a subtree without continuation areas.\<close>

definition placed :: "nat \<Rightarrow> DirectoryEntry \<Rightarrow> DirectoryEntry \<Rightarrow> nat \<Rightarrow> bool" where
  "placed l t t' l' \<longleftrightarrow> chain l (map dir_region (all_dirs t')) l' \<and> path t' = path t
     \<and> all_files t' = all_files t \<and> (\<forall>x \<in> set (all_dirs t'). continuation_area x = None)"

definition assign_places :: "DirectoryEntry \<Rightarrow> bool" where
  "assign_places x \<longleftrightarrow> (\<forall>i l t' i' l'. 0 < i \<longrightarrow> assign_directory_identifiers x (i, l) = Inr (t', i', l') \<longrightarrow>
     placed l x t' l')"

lemma assign_placesD:
  "assign_places x \<Longrightarrow> 0 < i \<Longrightarrow> assign_directory_identifiers x (i, l) = Inr (t', i', l') \<Longrightarrow> placed l x t' l'"
  unfolding assign_places_def by blast

lemma all_files_childs: "all_files d = files_childs d @ concat (map all_files (dir_childs d))"
  by (cases d) simp

lemma assign_list_placed:
  assumes "\<forall>x \<in> set ds. assign_places x"
    and "0 < i" "map_state assign_directory_identifiers ds (i, l) = Inr (ds', i', l')"
  shows "chain l (map dir_region (concat (map all_dirs ds'))) l' \<and> map path ds' = map path ds
    \<and> map all_files ds' = map all_files ds
    \<and> (\<forall>d \<in> set ds'. \<forall>x \<in> set (all_dirs d). continuation_area x = None)"
  using assms
proof (induction ds arbitrary: i l ds')
  case (Cons d ds)
  from Cons.prems(3) obtain d' i1 l1 ds1 where
      d': "assign_directory_identifiers d (i, l) = Inr (d', i1, l1)"
    and r: "map_state assign_directory_identifiers ds (i1, l1) = Inr (ds1, i', l')" and ds': "ds' = d' # ds1"
    by auto
  have p: "placed l d d' l1" using assign_placesD [OF _ Cons.prems(2) d'] Cons.prems(1) by simp
  have "0 < i1" using assign_numbered [OF d'] Cons.prems(2) by (simp add: numbered_def)
  from Cons.IH [OF _ this r] Cons.prems(1) p show ?case
    unfolding ds' by (auto simp: placed_def chain_append)
qed simp

lemma number_childs_files:
  assumes "map_state (number_child k) ds i = Inr (ds', i')"
  shows "map all_files ds' = map all_files ds"
proof -
  have e: "map all_files xs = map (\<lambda>(f, c). f @ concat (map all_files c)) (zip (map files_childs xs) (map dir_childs xs))" for xs
  proof (induction xs)
    case (Cons a xs)
    then show ?case by (simp add: all_files_childs [of a])
  qed simp
  show ?thesis using number_childs_eq [OF assms] by (simp only: e [of ds'] e [of ds])
qed

lemma number_childs_cont:
  assumes "map_state (number_child k) ds i = Inr (ds', i')"
    and "\<forall>d \<in> set ds. \<forall>x \<in> set (all_dirs d). continuation_area x = None"
  shows "\<forall>d \<in> set ds'. \<forall>x \<in> set (all_dirs d). continuation_area x = None"
proof -
  have f: "map (\<lambda>d. map continuation_area (all_dirs d)) xs
      = map (\<lambda>(c, ds). c # map continuation_area (concat (map all_dirs ds))) (zip (map continuation_area xs) (map dir_childs xs))" for xs
  proof (induction xs)
    case (Cons a xs)
    then show ?case by (simp add: all_dirs_childs [of a])
  qed simp
  have e: "map (\<lambda>d. map continuation_area (all_dirs d)) ds' = map (\<lambda>d. map continuation_area (all_dirs d)) ds"
    using number_childs_eq [OF assms(1)] by (simp only: f [of ds'] f [of ds])
  have "\<forall>cs \<in> set (map (\<lambda>d. map continuation_area (all_dirs d)) ds). \<forall>c \<in> set cs. c = None"
    using assms(2) by auto
  then have "\<forall>cs \<in> set (map (\<lambda>d. map continuation_area (all_dirs d)) ds'). \<forall>c \<in> set cs. c = None"
    by (simp only: e)
  then show ?thesis by auto
qed

lemma assign_childs_placed:
  assumes "\<And>x. tree_size x < tree_size t \<Longrightarrow> \<forall>y \<in> set (all_dirs x). continuation_area y = None \<Longrightarrow> assign_places x"
    and "map_state (number_child k) (dir_childs t) i1 = Inr (ds, i2)" "0 < i1"
    and "\<forall>d \<in> set (dir_childs t). \<forall>x \<in> set (all_dirs d). continuation_area x = None"
    and "map_state assign_directory_identifiers ds (i2, l) = Inr (ds', i', l')"
  shows "chain l (map dir_region (concat (map all_dirs ds'))) l' \<and> map path ds' = map path (dir_childs t)
    \<and> map all_files ds' = map all_files (dir_childs t)
    \<and> (\<forall>d \<in> set ds'. \<forall>x \<in> set (all_dirs d). continuation_area x = None)"
proof -
  note c = number_childs_eq [OF assms(2)]
  have "\<forall>x \<in> set ds. assign_places x"
  proof
    fix x assume x: "x \<in> set ds"
    have "tree_size x \<le> sum_list (map tree_size ds)" using x by (intro member_le_sum_list) auto
    then have "tree_size x < tree_size t" using number_childs_sizes [OF assms(2)] by (simp add: tree_size_childs [of t])
    then show "assign_places x" using assms(1) number_childs_cont [OF assms(2,4)] x by blast
  qed
  moreover have "0 < i2" using c assms(3) by simp
  ultimately show ?thesis
    using assign_list_placed [OF _ _ assms(5)] c number_childs_files [OF assms(2)] by simp
qed

lemma assign_placed: "\<forall>x \<in> set (all_dirs t). continuation_area x = None \<Longrightarrow> assign_places t"
proof (induction t rule: measure_induct_rule [of tree_size])
  case (less t)
  have "placed l t t' l'" if "0 < i" "assign_directory_identifiers t (i, l) = Inr (t', i', l')" for i l t' i' l'
    using that(2)
  proof (rule assignE)
    fix l1 t1 i1 n ds i2 ds'
    assume l1: "l1 = l + (if continuation_area t \<noteq> None then 1 else 0)"
      and t1: "t1 = (if i = 0 then set_ids 1 0 t else set_lba l1 t)" and i1: "i1 = (if i = 0 then 1 else i)"
      and n: "get_extent_size_in_lb t1 = Inr n"
      and nc: "map_state (number_child (path_table_index t1)) (dir_childs t) i1 = Inr (ds, i2)"
      and rc: "map_state assign_directory_identifiers ds (i2, l1 + n) = Inr (ds', i', l')"
      and t': "t' = set_dir_childs ds' t1"
    have co: "continuation_area t = None" "\<forall>d \<in> set (dir_childs t). \<forall>x \<in> set (all_dirs d). continuation_area x = None"
      using less.prems by (auto simp: all_dirs_childs [of t])
    have "0 < i1" using i1 by simp
    note L = assign_childs_placed [OF less.IH nc this co(2) rc]
    have "get_extent_size_in_lb t' = get_extent_size_in_lb t1"
      using L that(1) by (intro get_extent_size_cong) (simp_all add: t' t1)
    with n have "dir_region t' = (l, n)" using that(1) co(1) l1
      by (simp add: dir_region_def extent_blocks_def t' t1)
    with L that(1) l1 co(1) show "placed l t t' l'"
      by (simp add: placed_def all_dirs_childs [of t'] all_files_childs [of t'] all_files_childs [of t])
        (simp add: t' t1)
  qed
  then show ?case by (auto simp: assign_places_def)
qed

section \<open>File contents\<close>

definition padded :: "u8 list \<Rightarrow> u8 list" where
  "padded c = c @ replicate (room (length c)) 0"

lemma room_block: "room (l * 2048 + n) = room n"
  by (simp add: room_eq)

lemma padded_length: "length (padded c) = round_up 2048 (length c)"
  using round_up_bounds [of 2048 "length c"] by (simp add: padded_def room_def)

lemma write_content_eq:
  assumes "open_content_provider fsys e = Inr c" "fe_lba e * 2048 < 2 ^ 32" "length c < 2 ^ 63"
  shows "write_content fsys e f = Inr (f\<lparr>fbytes := overwrite (fbytes f) (fe_lba e * 2048) (padded c)\<rparr>)"
proof -
  let ?f1 = "f\<lparr>fpos := fe_lba e * 2048\<rparr>"
  have "fpos (put c ?f1) < 2 ^ 64" using assms(2,3) by simp
  note p = pad_to_block_eq [OF this]
  have "write_content fsys e f = seek_start (fpos f) (put (replicate (room (length c)) 0) (put c ?f1))"
    using assms p room_block [of "fe_lba e" "length c"]
    by (simp add: write_content_def Let_def seek_start_def chk_ok)
  then show ?thesis by (simp add: seek_start_def put_def padded_def overwrite_append)
qed

text \<open>The order in which \<open>write_files\<close> visits the files.\<close>

fun files_order :: "DirectoryEntry \<Rightarrow> FileEntry list" where
  "files_order (DirectoryEntry pidx par p ds fs ca l) = concat (map files_order ds) @ fs"

lemma files_order_mset: "mset (files_order d) = mset (all_files d)"
proof (induction d)
  case (DirectoryEntry pidx par p ds fs ca l)
  then have "mset (concat (map files_order ds)) = mset (concat (map all_files ds))"
    by (induction ds) auto
  then show ?case by simp
qed

lemma write_files_order: "write_files fsys d f = fold_r (write_content fsys) (files_order d) f"
proof (induction d arbitrary: f)
  case (DirectoryEntry pidx par p ds fs ca l)
  have "fold_r (\<lambda>d. write_files fsys d) xs f = fold_r (write_content fsys) (concat (map files_order xs)) f"
    if "set xs \<subseteq> set ds" for xs f
    using that
  proof (induction xs arbitrary: f)
    case (Cons x xs)
    have "write_files fsys x f = fold_r (write_content fsys) (files_order x) f"
      using DirectoryEntry.IH Cons.prems by simp
    moreover have "fold_r (\<lambda>d. write_files fsys d) xs = fold_r (write_content fsys) (concat (map files_order xs))"
      using Cons by (intro ext) simp
    ultimately show ?case by (simp add: fold_r_append)
  qed simp
  then show ?case by (simp add: fold_r_append)
qed

text \<open>A file written to its own blocks is still there after the others have been written to theirs.\<close>

definition content_ok :: "fs \<Rightarrow> FileEntry \<Rightarrow> bool" where
  "content_ok fsys e \<longleftrightarrow> (case open_content_provider fsys e of
     Inl _ \<Rightarrow> False | Inr c \<Rightarrow> length c \<le> 2048 * snd (file_region e))"

definition sep :: "FileEntry \<Rightarrow> FileEntry \<Rightarrow> bool" where
  "sep a b \<longleftrightarrow> fst (file_region a) + snd (file_region a) \<le> fst (file_region b)
     \<or> fst (file_region b) + snd (file_region b) \<le> fst (file_region a)"

lemma padded_fits:
  "length c \<le> 2048 * n \<Longrightarrow> length (padded c) \<le> 2048 * n"
  unfolding padded_length by (rule round_up_least) simp_all

lemma chain_sep:
  assumes "chain a (map file_region es) b"
  shows "distinct es" "\<forall>x \<in> set es. \<forall>y \<in> set es. x \<noteq> y \<longrightarrow> sep x y"
proof -
  have pos: "0 < snd (file_region e)" for e by (simp add: file_region_def)
  have d: "fst (file_region (es ! i)) + snd (file_region (es ! i)) \<le> fst (file_region (es ! j))"
    if "i < j" "j < length es" for i j
    using chain_disjoint [OF assms that(1)] that by simp
  have "es ! i \<noteq> es ! j" if "i < j" "j < length es" for i j
    using d [OF that] pos [of "es ! j"] by (metis add_le_same_cancel1 less_nat_zero_code le_zero_eq neq0_conv)
  then show "distinct es" unfolding distinct_conv_nth by (metis linorder_neqE_nat)
  show "\<forall>x \<in> set es. \<forall>y \<in> set es. x \<noteq> y \<longrightarrow> sep x y"
    by (auto simp: in_set_conv_nth sep_def) (metis d linorder_neqE_nat)
qed

lemma write_contents_ok:
  assumes "\<forall>e \<in> set es. content_ok fsys e \<and> (fst (file_region e) + snd (file_region e)) * 2048 < 2 ^ 32"
    and "distinct es" "\<forall>x \<in> set es. \<forall>y \<in> set es. x \<noteq> y \<longrightarrow> sep x y"
  shows "\<exists>f'. fold_r (write_content fsys) es f = Inr f' \<and> fpos f' = fpos f
    \<and> (\<forall>e \<in> set es. \<forall>c. open_content_provider fsys e = Inr c \<longrightarrow> bytes_at (fbytes f') (fe_lba e * 2048) (length c) = c)
    \<and> (\<forall>p n. p + n \<le> length (fbytes f) \<longrightarrow>
         (\<forall>e \<in> set es. p + n \<le> fe_lba e * 2048 \<or> (fst (file_region e) + snd (file_region e)) * 2048 \<le> p) \<longrightarrow>
         bytes_at (fbytes f') p n = bytes_at (fbytes f) p n)"
  using assms
proof (induction es arbitrary: f)
  case (Cons e es)
  let ?b = "fe_lba e * 2048" and ?hi = "\<lambda>e. (fst (file_region e) + snd (file_region e)) * 2048"
  from Cons.prems(1) obtain c where c: "open_content_provider fsys e = Inr c" "length c \<le> 2048 * snd (file_region e)"
    by (auto simp: content_ok_def split: sum.splits)
  have lb: "fst (file_region e) = fe_lba e" for e by (simp add: file_region_def)
  have hi: "?b < 2 ^ 32" "2048 * snd (file_region e) < 2 ^ 32"
    using Cons.prems(1) by (auto simp: lb algebra_simps)
  have pl: "?b + length (padded c) \<le> ?hi e" using padded_fits [OF c(2)] by (simp add: lb algebra_simps)
  define f1 where "f1 = f\<lparr>fbytes := overwrite (fbytes f) ?b (padded c)\<rparr>"
  have w: "write_content fsys e f = Inr f1"
    unfolding f1_def using c hi by (intro write_content_eq) simp_all
  from Cons.IH [of f1] Cons.prems obtain f' where f': "fold_r (write_content fsys) es f1 = Inr f'" "fpos f' = fpos f1"
      and rd: "\<forall>e \<in> set es. \<forall>c. open_content_provider fsys e = Inr c \<longrightarrow> bytes_at (fbytes f') (fe_lba e * 2048) (length c) = c"
      and fr: "\<And>p n. p + n \<le> length (fbytes f1) \<Longrightarrow> \<forall>e \<in> set es. p + n \<le> fe_lba e * 2048 \<or> ?hi e \<le> p \<Longrightarrow>
         bytes_at (fbytes f') p n = bytes_at (fbytes f1) p n"
    by auto
  have own: "bytes_at (fbytes f') ?b (length c) = c"
  proof (cases "c = []")
    case False
    have "\<forall>x \<in> set es. ?b + length c \<le> fe_lba x * 2048 \<or> ?hi x \<le> ?b"
    proof
      fix x assume x: "x \<in> set es"
      then have "sep e x" using Cons.prems by auto
      then show "?b + length c \<le> fe_lba x * 2048 \<or> ?hi x \<le> ?b"
        using c(2) by (auto simp: sep_def lb algebra_simps)
    qed
    moreover have "?b + length c \<le> length (fbytes f1)"
      using False by (simp add: f1_def overwrite_length padded_def)
    ultimately have "bytes_at (fbytes f') ?b (length c) = bytes_at (fbytes f1) ?b (length c)" by (intro fr)
    then show ?thesis by (simp add: f1_def padded_def bytes_at_overwrite_prefix)
  qed (simp add: bytes_at_def)
  have "bytes_at (fbytes f') p n = bytes_at (fbytes f) p n"
    if "p + n \<le> length (fbytes f)" "\<forall>x \<in> set (e # es). p + n \<le> fe_lba x * 2048 \<or> ?hi x \<le> p" for p n
  proof -
    have "p + n \<le> length (fbytes f1)" using that(1) by (auto simp: f1_def overwrite_length)
    then have "bytes_at (fbytes f') p n = bytes_at (fbytes f1) p n" using that(2) by (intro fr) auto
    moreover have "p + n \<le> ?b \<or> ?b + length (padded c) \<le> p" using that(2) pl by auto
    ultimately show ?thesis using that(1) by (simp add: f1_def bytes_at_overwrite_other)
  qed
  with own rd f' w show ?case by (auto simp: f1_def c(1))
qed simp

text \<open>A directory whose records fit one block has an extent of one block.\<close>

lemma extent_step_fits: "sz + n \<le> 2048 \<Longrightarrow> extent_step n (b, sz) = Inr (b, sz + n)"
proof -
  assume a: "sz + n \<le> 2048"
  have r: "round_up 2048 sz = (if sz = 0 then 0 else 2048)"
    using a by (auto simp: round_up_def)
  have "align_up_i32 (as_i32 sz) 2048 = Inr (int (round_up 2048 sz))"
    using a align_up_i32_block [of sz] by simp
  with a r show ?thesis by (auto simp: extent_step_def chk_i32_def chk_def)
qed

lemma extent_fold_fits:
  assumes "\<And>x. x \<in> set xs \<Longrightarrow> g x = Inr (h x)" "sz + sum_list (map h xs) \<le> 2048"
  shows "fold_r (\<lambda>x s. bind_r (g x) (\<lambda>n. extent_step n s)) xs (b, sz) = Inr (b, sz + sum_list (map h xs))"
  using assms
proof (induction xs arbitrary: sz)
  case (Cons x xs)
  then show ?case by (simp add: extent_step_fits add.assoc)
qed simp

definition file_record_size :: "str \<Rightarrow> nat" where
  "file_record_size name = 0x23 + pad_len 1 (length (short_name name)) + 0x31 + length name"

lemma fe_get_entry_size_eq:
  assumes "name_ok (fe_get_file_name e)"
  shows "fe_get_entry_size e = Inr (file_record_size (projr (fe_get_file_name e)))"
proof -
  from assms obtain name ident where n: "fe_get_file_name e = Inr name" "length name \<le> 250" "convert_name name = Inr ident"
    by (auto simp: name_ok_def split: sum.splits) (metis sum.collapse(2))
  have "ident = short_name name" by (rule convert_name_short [OF n(3)])
  with n get_entry_size_cases(1) [of name ident "0x23" 1] show ?thesis
    by (simp add: fe_get_entry_size_def file_record_size_def)
qed

lemma extent_one_block:
  assumes "name_ok (de_get_file_name d)" "\<forall>x \<in> set (dir_childs d). name_ok (de_get_file_name x)"
    and "\<forall>e \<in> set (files_childs d). name_ok (fe_get_file_name e)"
    and "191 + sum_list (map (\<lambda>x. dir_record_size (dir_name x) 0) (dir_childs d))
        + sum_list (map (\<lambda>e. file_record_size (projr (fe_get_file_name e))) (files_childs d)) \<le> 2048"
  shows "get_extent_size_in_lb d = Inr 1"
proof -
  have sz: "de_get_entry_size ty x = Inr (dir_record_size (dir_name x) ty)"
    if "name_ok (de_get_file_name x)" "ty \<in> {0, 2, 3}" for x ty
    using name_okD [OF that(1)] that(2)
    by (intro de_get_entry_size_eq [of x "dir_name x" "short_name (dir_name x)"]) auto
  let ?sd = "sum_list (map (\<lambda>x. dir_record_size (dir_name x) 0) (dir_childs d))"
  have a: "dir_record_size n 3 + dir_record_size n 2 = 191" for n
    by (simp add: dir_record_size_def dir_ident_def pad_len_def)
  have 1: "fold_r (\<lambda>e s. bind_r (de_get_entry_size 0 e) (\<lambda>n. extent_step n s)) (dir_childs d) (1, 191) = Inr (1, 191 + ?sd)"
    using assms(2,4) sz by (intro extent_fold_fits) auto
  have 2: "fold_r (\<lambda>e s. bind_r (fe_get_entry_size e) (\<lambda>n. extent_step n s)) (files_childs d) (1, 191 + ?sd)
      = Inr (1, 191 + ?sd + sum_list (map (\<lambda>e. file_record_size (projr (fe_get_file_name e))) (files_childs d)))"
    using assms(3,4) fe_get_entry_size_eq by (intro extent_fold_fits) auto
  show ?thesis
    using 1 2 sz [OF assms(1)] a [of "dir_name d"] by (simp add: get_extent_size_in_lb_def chk_def)
qed

section \<open>Properties\<close>

text \<open>
  Writing a path table succeeds on every numbered tree with usable names: the size assertion holds,
  the table of the given byte order (the root, then every other directory) and its padding are written
  at the announced block, nothing else changes and the position is restored.
\<close>
theorem path_table_written:
  assumes "byteorder_ok dp" "\<forall>x \<in> set (all_dirs d). dir_ok x"
    and "path_table_index d = 1" "\<forall>x \<in> set (subdirs d). path_table_index x \<noteq> 1"
    and "pt_total d + 4096 < 2 ^ 32" "pos * 2048 < 2 ^ 32"
  shows "\<exists>f'. write_path_table dp order d pos f = Inr f' \<and> fpos f' = fpos f
    \<and> get_path_table_size d = Inr (length (path_table order d))
    \<and> fbytes f' = overwrite (fbytes f) (pos * 2048)
        (path_table order d @ replicate (room (pos * 2048 + length (path_table order d))) 0)"
proof -
  let ?t = "path_table order d"
  let ?f1 = "f\<lparr>fpos := pos * 2048\<rparr>"
  have sz: "get_path_table_size d = Inr (length ?t)"
    using get_path_table_size_eq [OF assms(2,4)] assms(3,5) path_table_length [of order d] by simp
  have l: "length ?t < 2 ^ 32"
    using path_table_length [of order d] assms(5) by (cases d) simp
  have "dir_ok d" using assms(2) all_dirs_self by blast
  note e = write_path_table_entry_eq [OF assms(1) this, of "Suc 0"]
  note c = write_path_table_childs_eq [OF assms(1,2)]
  have "pos * 2048 + length ?t < 2 ^ 64" using l assms(6) by simp
  then have p: "pad_to_block (put ?t ?f1) = Inr (put (replicate (room (pos * 2048 + length ?t)) 0) (put ?t ?f1))"
    by (subst pad_to_block_eq) simp_all
  have "write_path_table dp order d pos f = seek_start (fpos f) (put (?t @ replicate (room (pos * 2048 + length ?t)) 0) ?f1)"
    using assms(6) p by (simp add: write_path_table_def Let_def seek_start_def e c chk_ok sz path_table_def sub_chk_def)
  then show ?thesis using sz by (simp add: seek_start_def)
qed

text \<open>
  C29: after numbering, the number of every directory is its position in the path table (the root has
  number 1), and the parent number of every directory is the number of the directory it lies in.
\<close>
theorem directories_numbered:
  assumes "assign_directory_identifiers t (0, l) = Inr (t', k, l')"
  shows "map path_table_index (t' # subdirs t') = [1..<Suc k]
    \<and> (\<forall>x \<in> set (all_dirs t'). \<forall>c \<in> set (dir_childs x). parent_index c = path_table_index x)"
  using assign_numbered [OF assms] by (simp add: numbered_def upt_conv_Cons del: upt_Suc)

lemma all_dirs_subdirs: "set (all_dirs d) = insert d (set (subdirs d))"
  by (induction d) auto

lemma assign_root_placed:
  assumes "continuation_area t \<noteq> None" "\<forall>x \<in> set (subdirs t). continuation_area x = None"
    and "assign_directory_identifiers t (0, l) = Inr (t', k, l')"
  shows "chain l (map dir_region (all_dirs (set_lba l t'))) l' \<and> all_files t' = all_files t \<and> path t' = path t
    \<and> continuation_area t' = continuation_area t \<and> (\<forall>x \<in> set (subdirs t'). continuation_area x = None)"
  using assms(3)
proof (rule assignE)
  fix l1 t1 i1 n ds i2 ds'
  assume l1: "l1 = l + (if continuation_area t \<noteq> None then 1 else 0)"
    and t1: "t1 = (if (0::nat) = 0 then set_ids 1 0 t else set_lba l1 t)" and i1: "i1 = (if (0::nat) = 0 then 1 else 0)"
    and n: "get_extent_size_in_lb t1 = Inr n"
    and nc: "map_state (number_child (path_table_index t1)) (dir_childs t) i1 = Inr (ds, i2)"
    and rc: "map_state assign_directory_identifiers ds (i2, l1 + n) = Inr (ds', k, l')"
    and t': "t' = set_dir_childs ds' t1"
  have "\<forall>d \<in> set (dir_childs t). \<forall>x \<in> set (all_dirs d). continuation_area x = None"
  proof (intro ballI)
    fix d x assume "d \<in> set (dir_childs t)" "x \<in> set (all_dirs d)"
    then have "x \<in> set (subdirs t)" using all_dirs_subdirs [of d] by (auto simp: subdirs_childs [of t])
    then show "continuation_area x = None" using assms(2) by blast
  qed
  moreover have "0 < i1" by (simp add: i1)
  ultimately have L: "chain (l1 + n) (map dir_region (concat (map all_dirs ds'))) l' \<and> map path ds' = map path (dir_childs t)
      \<and> map all_files ds' = map all_files (dir_childs t) \<and> (\<forall>d \<in> set ds'. \<forall>x \<in> set (all_dirs d). continuation_area x = None)"
    using assign_childs_placed [OF _ nc _ _ rc] assign_placed by blast
  have S: "\<forall>x \<in> set (subdirs t'). continuation_area x = None"
  proof
    fix x assume "x \<in> set (subdirs t')"
    moreover have "subdirs t' = ds' @ concat (map subdirs ds')" unfolding t' by (subst subdirs_childs) simp
    ultimately obtain d where "d \<in> set ds'" "x \<in> set (all_dirs d)" by (auto simp: all_dirs_subdirs)
    then show "continuation_area x = None" using L by blast
  qed
  have F: "path t' = path t" "continuation_area t' = continuation_area t" by (simp_all add: t' t1)
  have "get_extent_size_in_lb (set_lba l t') = get_extent_size_in_lb t1"
    using L by (intro get_extent_size_cong) (simp_all add: t' t1)
  with n assms(1) l1 have "dir_region (set_lba l t') = (l, n + 1)" "l1 = l + 1"
    by (auto simp: dir_region_def extent_blocks_def t' t1)
  with L have "chain l (map dir_region (all_dirs (set_lba l t'))) l' \<and> all_files t' = all_files t"
    by (simp add: all_dirs_childs [of "set_lba l t'"] all_files_childs [of t'] all_files_childs [of t])
      (simp add: t' t1 add.commute add.left_commute)
  with S F show ?thesis by blast
qed

text \<open>
  C16: the passes that number the directories and reserve the files give every directory extent, the
  root's continuation area and every file its own blocks: the regions follow each other without overlap
  from the first block to the block count recorded in the volume descriptor.
\<close>
theorem blocks_disjoint:
  assumes "continuation_area t \<noteq> None" "\<forall>x \<in> set (subdirs t). continuation_area x = None"
    and "assign_directory_identifiers t (0, l) = Inr (t1, k, l1)"
    and "reserve_file_space (set_lba l t1) l1 = Inr (t2, l2)"
    and "rs = map dir_region (all_dirs t2) @ map file_region (all_files t2)"
  shows "(\<forall>i j. i < j \<and> j < length rs \<longrightarrow> fst (rs ! i) + snd (rs ! i) \<le> fst (rs ! j))
    \<and> (\<forall>r \<in> set rs. l \<le> fst r \<and> fst r + snd r \<le> l2)
    \<and> map file_type (all_files t2) = map file_type (all_files t)"
proof -
  note p = assign_root_placed [OF assms(1,2,3)]
  note q = reserve_file_space_ok [OF assms(4), unfolded reserved_def]
  have "all_files (set_lba l t1) = all_files t1" by (simp add: all_files_childs [of "set_lba l t1"] all_files_childs [of t1])
  moreover have "chain l rs l2" using p q by (auto simp: assms(5) chain_append)
  ultimately show ?thesis using chain_disjoint [of l rs l2] chain_bounds [of l rs l2] p q by auto
qed

text \<open>
  When the files of a tree have their own blocks and every content fits the blocks reserved for it,
  \<open>write_files\<close> succeeds, and afterwards the content of every file is found at its block; every byte
  outside the file blocks and the position are unchanged.
\<close>
theorem files_readable:
  assumes "chain l (map file_region (all_files t)) l2" "l2 * 2048 < 2 ^ 32"
    and "\<forall>e \<in> set (all_files t). content_ok fsys e"
  shows "\<exists>f'. write_files fsys t f = Inr f' \<and> fpos f' = fpos f
    \<and> (\<forall>e \<in> set (all_files t). \<exists>c. open_content_provider fsys e = Inr c
         \<and> bytes_at (fbytes f') (fe_lba e * 2048) (length c) = c)
    \<and> (\<forall>p n. p + n \<le> length (fbytes f) \<and> (p + n \<le> l * 2048 \<or> l2 * 2048 \<le> p) \<longrightarrow>
         bytes_at (fbytes f') p n = bytes_at (fbytes f) p n)"
proof -
  have s: "set (files_order t) = set (all_files t)" "distinct (files_order t) \<longleftrightarrow> distinct (all_files t)"
    using files_order_mset [of t] by (metis mset_eq_setD, metis mset_eq_imp_distinct_iff)
  have b: "l \<le> fe_lba e \<and> fst (file_region e) + snd (file_region e) \<le> l2" if "e \<in> set (all_files t)" for e
    using chain_bounds [OF assms(1)] that by (auto simp: file_region_def)
  have "\<forall>e \<in> set (files_order t). content_ok fsys e \<and> (fst (file_region e) + snd (file_region e)) * 2048 < 2 ^ 32"
    using assms(2,3) b s(1) by (metis le_less_trans mult_le_mono1)
  note w = write_contents_ok [OF this, unfolded s, OF chain_sep [OF assms(1)], of f]
  then obtain f' where f': "write_files fsys t f = Inr f'" "fpos f' = fpos f"
      and rd: "\<forall>e \<in> set (all_files t). \<forall>c. open_content_provider fsys e = Inr c \<longrightarrow> bytes_at (fbytes f') (fe_lba e * 2048) (length c) = c"
      and fr: "\<forall>p n. p + n \<le> length (fbytes f) \<longrightarrow>
         (\<forall>e \<in> set (all_files t). p + n \<le> fe_lba e * 2048 \<or> (fst (file_region e) + snd (file_region e)) * 2048 \<le> p) \<longrightarrow>
         bytes_at (fbytes f') p n = bytes_at (fbytes f) p n"
    unfolding write_files_order by blast
  have "\<exists>c. open_content_provider fsys e = Inr c" if "e \<in> set (all_files t)" for e
    using assms(3) that by (cases "open_content_provider fsys e") (auto simp: content_ok_def)
  moreover have "bytes_at (fbytes f') p n = bytes_at (fbytes f) p n"
    if "p + n \<le> length (fbytes f)" "p + n \<le> l * 2048 \<or> l2 * 2048 \<le> p" for p n
  proof -
    have "\<forall>e \<in> set (all_files t). p + n \<le> fe_lba e * 2048 \<or> (fst (file_region e) + snd (file_region e)) * 2048 \<le> p"
      using b that(2) by (meson le_trans mult_le_mono1)
    then show ?thesis using fr that(1) by blast
  qed
  ultimately show ?thesis using f' rd by (intro exI [of _ f']) blast
qed

text \<open>
  \<open>get_extent_size_in_lb\<close> does not open a new block after one that is exactly full: a directory whose
  records fill the first block exactly and have one more record is given one block, although its records
  take more than 2048 bytes.
\<close>
theorem extent_exact_fill:
  assumes "name_ok (de_get_file_name d)" "dir_childs d = []" "files_childs d = es @ [e]"
    and "\<forall>x \<in> set (es @ [e]). name_ok (fe_get_file_name x)"
    and "191 + sum_list (map (\<lambda>e. file_record_size (projr (fe_get_file_name e))) es) = 2048"
  shows "get_extent_size_in_lb d = Inr 1
    \<and> 2048 < 191 + sum_list (map (\<lambda>e. file_record_size (projr (fe_get_file_name e))) (files_childs d))"
proof -
  have sz: "de_get_entry_size 3 d = Inr (dir_record_size (dir_name d) 3)" "de_get_entry_size 2 d = Inr (dir_record_size (dir_name d) 2)"
    using name_okD [OF assms(1)]
    by (auto intro!: de_get_entry_size_eq [of d "dir_name d" "short_name (dir_name d)"])
  have a: "dir_record_size n 3 + dir_record_size n 2 = 191" for n
    by (simp add: dir_record_size_def dir_ident_def pad_len_def)
  have 1: "fold_r (\<lambda>e s. bind_r (fe_get_entry_size e) (\<lambda>n. extent_step n s)) es (1, 191) = Inr (1, 2048)"
    using assms(4,5) fe_get_entry_size_eq
      extent_fold_fits [of es fe_get_entry_size "\<lambda>e. file_record_size (projr (fe_get_file_name e))" 191 1] by simp
  let ?n = "file_record_size (projr (fe_get_file_name e))"
  have "?n < 512"
    using assms(4) short_name_length [of "projr (fe_get_file_name e)"]
    by (auto simp: file_record_size_def pad_len_def name_ok_def split: sum.splits)
  then have 2: "fold_r (\<lambda>e s. bind_r (fe_get_entry_size e) (\<lambda>n. extent_step n s)) [e] (1, 2048) = Inr (1, 2048 + ?n)"
    using assms(4) align_up_i32_block [of 2048]
    by (simp add: fe_get_entry_size_eq extent_step_def chk_i32_def chk_def round_up_def)
  have "get_extent_size_in_lb d = Inr 1"
    using 1 2 sz a [of "dir_name d"] assms(2,3) by (simp add: get_extent_size_in_lb_def fold_r_append chk_def)
  moreover have "0 < ?n" by (simp add: file_record_size_def)
  ultimately show ?thesis using assms(3,5) by simp
qed

text \<open>For the witnesses: a root with one file and one subdirectory, before and after the passes.\<close>

definition buffer_file :: "u8 \<Rightarrow> u8 list \<Rightarrow> nat \<Rightarrow> FileEntry" where
  "buffer_file c content l = \<lparr>file_type = Buffer [c] content, fe_size = length content, fe_lba = l, aligned_size = 0\<rparr>"

definition two_dirs :: "nat \<Rightarrow> nat \<Rightarrow> nat \<Rightarrow> nat \<Rightarrow> nat \<Rightarrow> nat \<Rightarrow> nat \<Rightarrow> DirectoryEntry" where
  "two_dirs i j k l m f g = DirectoryEntry i 0 [Normal (Unicode [0x61])]
     [DirectoryEntry j k [Normal (Unicode [0x62])] [] [buffer_file 0x63 [7] g] None m]
     [buffer_file 0x64 [1, 2, 3] f] (Some [1]) l"

lemma ascii1: "c < 0x80 \<Longrightarrow> c \<noteq> dot \<Longrightarrow> convert_name [c] = Inr [c]"
  by (subst convert_name_ascii) (simp_all add: short_name_def)

lemma two_dirs_names:
  "name_ok (de_get_file_name (two_dirs i j k l m f g))"
  "name_ok (de_get_file_name (DirectoryEntry j k [Normal (Unicode [0x62])] ds fs None m))"
  "name_ok (fe_get_file_name (buffer_file 0x63 c g))" "name_ok (fe_get_file_name (buffer_file 0x64 c g))"
  by (simp_all add: name_ok_def two_dirs_def de_get_file_name_def path_name_def file_name_def buffer_file_def
      fe_get_file_name_def ascii1 dot_def)

lemma two_dirs_extents:
  "get_extent_size_in_lb (two_dirs i j k l m f g) = Inr 1"
  "get_extent_size_in_lb (DirectoryEntry j k [Normal (Unicode [0x62])] [] [buffer_file 0x63 c g] None m) = Inr 1"
proof -
  have d: "dir_record_size [c] 0 = 84" "file_record_size [c] = 86" if "c \<noteq> dot" for c
    using that by (simp_all add: dir_record_size_def file_record_size_def dir_ident_def short_name_def pad_len_def)
  have n: "projr (fe_get_file_name (buffer_file c ct g)) = [c]" for c ct g
    by (simp add: buffer_file_def fe_get_file_name_def)
  have m: "dir_name (DirectoryEntry j k [Normal (Unicode [c])] ds fs ca m) = [c]" for j k c ds fs ca m
    by (simp add: dir_name_def de_get_file_name_def path_name_def file_name_def)
  show "get_extent_size_in_lb (two_dirs i j k l m f g) = Inr 1"
    using two_dirs_names(1) [of i j k l m f g]
    by (intro extent_one_block) (simp_all add: two_dirs_def two_dirs_names d n m dot_def)
  show "get_extent_size_in_lb (DirectoryEntry j k [Normal (Unicode [0x62])] [] [buffer_file 0x63 c g] None m) = Inr 1"
    by (intro extent_one_block) (simp_all add: two_dirs_names d n m dot_def)
qed

lemma two_dirs_assign:
  "assign_directory_identifiers (two_dirs 0 0 0 0 0 0 0) (0, 24) = Inr (two_dirs 1 2 1 0 26 0 0, 2, 27)"
proof -
  have 1: "set_ids (Suc 0) 0 (two_dirs 0 0 0 0 0 0 0) = two_dirs 1 0 0 0 0 0 0"
    by (simp add: two_dirs_def set_ids_def)
  have 2: "continuation_area (two_dirs i j k l m f g) = Some [1]" for i j k l m f g by (simp add: two_dirs_def)
  show ?thesis
    by (simp add: assign_directory_identifiers.simps [of "two_dirs 0 0 0 0 0 0 0"] 1 2 two_dirs_extents chk_def)
      (simp add: two_dirs_def number_child_def chk_def assign_directory_identifiers.simps set_ids_def set_lba_def
        set_dir_childs_def two_dirs_extents)
qed

lemma two_dirs_reserve:
  "reserve_file_space (set_lba 24 (two_dirs 1 2 1 0 26 0 0)) 27 = Inr (two_dirs 1 2 1 24 26 27 28, 29)"
  by (simp add: two_dirs_def set_lba_def reserve_file_def chk_def Let_def buffer_file_def)

lemma two_dirs_dirs:
  "subdirs (two_dirs i j k l m f g) = [DirectoryEntry j k [Normal (Unicode [0x62])] [] [buffer_file 0x63 [7] g] None m]"
  "all_dirs (two_dirs i j k l m f g) = two_dirs i j k l m f g # subdirs (two_dirs i j k l m f g)"
  "all_files (two_dirs i j k l m f g) = [buffer_file 0x64 [1, 2, 3] f, buffer_file 0x63 [7] g]"
  by (simp_all add: two_dirs_def)

theorem path_table_written_witness:
  "\<exists>f' n. write_path_table sample_deps BigEndian (two_dirs 1 2 1 24 26 27 28) 22 file_create = Inr f'
     \<and> get_path_table_size (two_dirs 1 2 1 24 26 27 28) = Inr n"
proof -
  let ?t = "two_dirs 1 2 1 24 26 27 28"
  have l: "de_lba (two_dirs i j k l m f g) = l" "path_table_index (two_dirs i j k l m f g) = i" for i j k l m f g
    by (simp_all add: two_dirs_def)
  have "\<forall>x \<in> set (all_dirs ?t). dir_ok x"
    by (simp add: two_dirs_dirs dir_ok_def two_dirs_names l)
  moreover have "pt_total ?t + 4096 < 2 ^ 32"
    using short_name_length [of "dir_name ?t"] short_name_length [of "dir_name (hd (subdirs ?t))"]
    by (simp add: two_dirs_def pad_len_def split: if_splits)
  ultimately show ?thesis
    using path_table_written [OF sample_deps_ok(1), of ?t 22 BigEndian file_create] by (auto simp: two_dirs_dirs l)
qed

theorem directories_numbered_witness:
  "\<exists>t' k l'. assign_directory_identifiers (two_dirs 0 0 0 0 0 0 0) (0, 24) = Inr (t', k, l')
     \<and> map path_table_index (t' # subdirs t') = [1, 2]"
  using directories_numbered [OF two_dirs_assign] two_dirs_assign by (auto simp: upt_conv_Cons)

theorem blocks_disjoint_witness:
  "\<exists>t1 k l1 t2 l2. assign_directory_identifiers (two_dirs 0 0 0 0 0 0 0) (0, 24) = Inr (t1, k, l1)
     \<and> reserve_file_space (set_lba 24 t1) l1 = Inr (t2, l2)
     \<and> (\<forall>r \<in> set (map dir_region (all_dirs t2) @ map file_region (all_files t2)). 24 \<le> fst r \<and> fst r + snd r \<le> l2)"
proof -
  have "continuation_area (two_dirs 0 0 0 0 0 0 0) \<noteq> None" by (simp add: two_dirs_def)
  from blocks_disjoint [OF this _ two_dirs_assign two_dirs_reserve refl] two_dirs_assign two_dirs_reserve
  show ?thesis by (auto simp: two_dirs_dirs)
qed

definition no_files :: fs where
  "no_files = \<lparr>fs_metadata = (\<lambda>_. None), fs_entry_metadata = (\<lambda>_. None), fs_read_dir = (\<lambda>_. None), fs_open = (\<lambda>_. None),
     fs_create = (\<lambda>_. True)\<rparr>"

theorem files_readable_witness:
  "\<exists>f'. write_files no_files (two_dirs 1 2 1 24 26 27 28) file_create = Inr f'
     \<and> bytes_at (fbytes f') (27 * 2048) 3 = [1, 2, 3] \<and> bytes_at (fbytes f') (28 * 2048) 1 = [7]"
proof -
  let ?t = "two_dirs 1 2 1 24 26 27 28"
  have "chain 27 (map file_region (all_files ?t)) 29"
    by (simp add: two_dirs_dirs file_region_def buffer_file_def)
  moreover have "\<forall>e \<in> set (all_files ?t). content_ok no_files e"
    by (simp add: two_dirs_dirs content_ok_def open_content_provider_def buffer_file_def file_region_def)
  ultimately show ?thesis
    using files_readable [of 27 ?t 29 no_files file_create]
    by (auto simp: two_dirs_dirs open_content_provider_def buffer_file_def numeral_3_eq_3)
qed

theorem extent_exact_fill_witness:
  "\<exists>d. get_extent_size_in_lb d = Inr 1
     \<and> 2048 < 191 + sum_list (map (\<lambda>e. file_record_size (projr (fe_get_file_name e))) (files_childs d))"
proof -
  let ?es = "map (\<lambda>n. new_buffered (replicate n 0x61)) [216, 216, 216, 216, 216, 219]"
  let ?e = "new_buffered [0x63]"
  let ?d = "DirectoryEntry 0 0 [Normal (Unicode [0x62])] [] (?es @ [?e]) None 0"
  have sn: "short_name (replicate n 0x61) = replicate 8 0x61" if "8 \<le> n" for n
  proof -
    have "split_on dot (replicate n 0x61) = [replicate n 0x61]" for n by (induction n) (simp_all add: dot_def)
    with that show ?thesis by (simp add: short_name_def min_def)
  qed
  have nm: "fe_get_file_name (new_buffered name) = Inr name" for name
    by (simp add: new_buffered_def fe_get_file_name_def)
  have sz: "file_record_size (replicate n 0x61) = 93 + n" if "8 \<le> n" for n
    using sn [OF that] by (simp add: file_record_size_def pad_len_def)
  have ok: "name_ok (Inr (replicate n 0x61))" if "n \<le> 250" for n
    using that by (simp add: name_ok_def ascii_repeat)
  have "name_ok (Inr [0x63])" by (simp add: name_ok_def ascii1 dot_def)
  then have "\<forall>x \<in> set (?es @ [?e]). name_ok (fe_get_file_name x)" by (simp add: nm ok)
  moreover have "191 + sum_list (map (\<lambda>e. file_record_size (projr (fe_get_file_name e))) ?es) = 2048"
    by (simp add: nm sz)
  ultimately show ?thesis
    using extent_exact_fill [where d = ?d and es = ?es and e = ?e] two_dirs_names(2) [where ds = "[]" and fs = "?es @ [?e]" and j = 0 and k = 0 and m = 0]
    by (intro exI [of _ ?d]) simp
qed

section \<open>Merging\<close>

definition files_of :: "DirectoryEntry list \<Rightarrow> FileEntry multiset" where
  "files_of ds = mset (concat (map all_files ds))"

lemma files_of_simps [simp]:
  "files_of [] = {#}" "files_of (d # ds) = mset (all_files d) + files_of ds"
  "files_of (ds @ ds') = files_of ds + files_of ds'"
  by (simp_all add: files_of_def)

lemma find_last_dir_Some:
  "find_last_dir n ds = Inr (Some i) \<Longrightarrow> i < length ds \<and> de_get_file_name (ds ! i) = Inr n"
  by (induction ds arbitrary: i) (auto split: option.splits if_splits)

lemma find_last_dir_None:
  "find_last_dir n ds = Inr None \<Longrightarrow> Inr n \<notin> de_get_file_name ` set ds"
  by (induction ds) (auto split: option.splits if_splits)

lemma files_of_update:
  "i < length ds \<Longrightarrow> files_of (ds[i := d]) + mset (all_files (ds ! i)) = files_of ds + mset (all_files d)"
proof (induction ds arbitrary: i)
  case (Cons a ds)
  then show ?case by (cases i) (auto simp: ac_simps)
qed simp

lemma fold_merge_files:
  assumes "\<forall>x \<in> set xs. \<forall>dirs dirs'. merge_into x dirs = Inr dirs' \<longrightarrow>
      files_of dirs' = files_of dirs + mset (all_files x)"
    and "fold_r merge_into xs dirs = Inr dirs'"
  shows "files_of dirs' = files_of dirs + files_of xs"
  using assms
proof (induction xs arbitrary: dirs)
  case (Cons x xs)
  then obtain d1 where "merge_into x dirs = Inr d1" "fold_r merge_into xs d1 = Inr dirs'" by auto
  with Cons show ?case by (auto simp: ac_simps)
qed simp

lemma merge_into_files:
  "merge_into d dirs = Inr dirs' \<Longrightarrow> files_of dirs' = files_of dirs + mset (all_files d)"
proof (induction d arbitrary: dirs dirs')
  case (DirectoryEntry pidx par p ds fs ca l)
  let ?d = "DirectoryEntry pidx par p ds fs ca l"
  show ?case
  proof (cases "dirs = []")
    case True
    with DirectoryEntry.prems show ?thesis by auto
  next
    case False
    with DirectoryEntry.prems obtain name r where n: "path_name p = Inr name" "find_last_dir name dirs = Inr r"
      and m: "(case r of None \<Rightarrow> Inr (dirs @ [?d])
          | Some i \<Rightarrow> let present = append_files fs (dirs ! i) in
              bind_r (fold_r merge_into ds (dir_childs present)) (\<lambda>cs. Inr (dirs[i := set_dir_childs cs present]))) = Inr dirs'"
      by auto
    show ?thesis
    proof (cases r)
      case None
      with m show ?thesis by auto
    next
      case (Some i)
      with m obtain cs where cs: "fold_r merge_into ds (dir_childs (dirs ! i)) = Inr cs"
          "dirs' = dirs[i := set_dir_childs cs (append_files fs (dirs ! i))]"
        by (auto simp: Let_def append_files_def)
      have "files_of cs = files_of (dir_childs (dirs ! i)) + files_of ds"
        using fold_merge_files [OF _ cs(1)] DirectoryEntry.IH by blast
      then have "mset (all_files (set_dir_childs cs (append_files fs (dirs ! i)))) = mset (all_files (dirs ! i)) + mset (all_files ?d)"
        by (subst all_files_childs) (simp add: all_files_childs [of "dirs ! i"] append_files_def files_of_def ac_simps)
      moreover have "i < length dirs" using find_last_dir_Some n(2) Some by blast
      ultimately have "files_of dirs' + mset (all_files (dirs ! i)) = files_of dirs + mset (all_files ?d) + mset (all_files (dirs ! i))"
        using files_of_update [of i dirs "set_dir_childs cs (append_files fs (dirs ! i))"] unfolding cs(2)
        by (simp add: ac_simps)
      then show ?thesis by (rule add_right_imp_eq)
    qed
  qed
qed

lemma merge_into_names:
  assumes "merge_into d dirs = Inr dirs'" "distinct (map de_get_file_name dirs)"
  shows "distinct (map de_get_file_name dirs')"
proof (cases d)
  case (DirectoryEntry pidx par p ds fs ca l)
  show ?thesis
  proof (cases "dirs = []")
    case False
    with assms(1) DirectoryEntry obtain name r where n: "path_name p = Inr name" "find_last_dir name dirs = Inr r"
      and m: "(case r of None \<Rightarrow> Inr (dirs @ [d])
          | Some i \<Rightarrow> let present = append_files fs (dirs ! i) in
              bind_r (fold_r merge_into ds (dir_childs present)) (\<lambda>cs. Inr (dirs[i := set_dir_childs cs present]))) = Inr dirs'"
      by auto
    show ?thesis
    proof (cases r)
      case None
      have "de_get_file_name d = Inr name" using n(1) DirectoryEntry by (simp add: de_get_file_name_def)
      with None m assms(2) find_last_dir_None [of name dirs] n(2) show ?thesis by auto
    next
      case (Some i)
      with m obtain cs where cs: "dirs' = dirs[i := set_dir_childs cs (append_files fs (dirs ! i))]"
        by (auto simp: Let_def append_files_def)
      have "i < length dirs" using find_last_dir_Some n(2) Some by blast
      then have "map de_get_file_name dirs' = map de_get_file_name dirs"
        unfolding cs
        by (simp add: map_update de_get_file_name_def append_files_def list_update_same_conv)
      with assms(2) show ?thesis by simp
    qed
  qed (use assms DirectoryEntry in auto)
qed

text \<open>
  C30: merging a directory into a list of directories loses and duplicates no file, at any depth, and keeps
  the names of the list distinct: a directory that is given twice appears once, with the files of both.
\<close>
theorem merge_keeps_files:
  assumes "add_and_merge_childs_directories dirs other = Inr dirs'" "distinct (map de_get_file_name dirs)"
  shows "mset (concat (map all_files dirs')) = mset (concat (map all_files dirs)) + mset (all_files other)
    \<and> distinct (map de_get_file_name dirs')"
  using merge_into_files [of other dirs dirs'] merge_into_names [of other dirs dirs'] assms
  by (simp add: add_and_merge_childs_directories_def files_of_def)

theorem merge_keeps_files_witness:
  "\<exists>dirs'. add_and_merge_childs_directories [two_dirs 0 0 0 0 0 1 2] (two_dirs 0 0 0 0 0 3 4) = Inr dirs'
     \<and> size (mset (concat (map all_files dirs'))) = 4"
proof -
  have "de_get_file_name (two_dirs i j k l m f g) = Inr [0x61]" for i j k l m f g
    by (simp add: two_dirs_def de_get_file_name_def path_name_def file_name_def)
  then have "\<exists>dirs'. add_and_merge_childs_directories [two_dirs 0 0 0 0 0 1 2] (two_dirs 0 0 0 0 0 3 4) = Inr dirs'"
    by (simp add: add_and_merge_childs_directories_def two_dirs_def de_get_file_name_def path_name_def file_name_def
        append_files_def Let_def)
  then obtain dirs' where r: "add_and_merge_childs_directories [two_dirs 0 0 0 0 0 1 2] (two_dirs 0 0 0 0 0 3 4) = Inr dirs'"
    by blast
  from merge_keeps_files [OF r] have "size (mset (concat (map all_files dirs'))) = 4"
    by (simp add: two_dirs_dirs)
  with r show ?thesis by blast
qed

end
