(* ===== verification/Iso_Image.thy ===== *)
theory Iso_Image
  imports Iso_Layout
begin

text \<open>
  \<open>disk_image_generator/src/iso/mod.rs\<close>, \<open>volume_descriptor.rs\<close> and \<open>option.rs\<close>: the options, the boot
  catalog, the system area, the volume descriptors and \<open>create_iso\<close>, which puts the image together.

  A \<open>Vec<u8>\<close> written through \<open>Write\<close> is an empty output file whose bytes are taken at the end (\<open>to_vec\<close>); an
  \<open>io::Cursor\<close> over the bytes of a file is an output file positioned after them.
\<close>

section \<open>Options\<close>

record ElToritoOpt =
  eltorito_boot :: "str option"
  no_emu_boot :: bool
  no_boot :: bool
  boot_info_table :: bool
  grub2_boot_info :: bool

record Opt =
  out_path :: path_buf
  eltorito_opt :: ElToritoOpt
  embedded_boot :: "str option"
  grub2_mbr :: "str option"
  boot_load_size :: nat
  protective_msdos_label :: bool
  input_files :: "path_buf list"

text \<open>\<open>PathBuf::from_str\<close>: the components of a path on a Unix system.\<close>

definition component_of :: "str \<Rightarrow> path_buf" where
  "component_of c =
     (if c = [] \<or> c = [dot] then [] else if c = [dot, dot] then [ParentDir] else [Normal (Unicode c)])"

definition path_from_str :: "str \<Rightarrow> path_buf" where
  "path_from_str s =
     (let parts = split_on slash s in
      (if s \<noteq> [] \<and> hd s = slash then [RootDir] else if hd parts = [dot] then [CurDir] else [])
        @ concat (map component_of parts))"

definition to_vec :: "(out_file \<Rightarrow> out_file res) list \<Rightarrow> u8 list res" where
  "to_vec ops = bind_r (run ops file_create) (\<lambda>f. Inr (fbytes f))"

section \<open>Volume descriptors\<close>

datatype VolumeDescriptor = Boot | Primary | Supplementary | Volume | End

fun get_type_id :: "VolumeDescriptor \<Rightarrow> nat" where
  "get_type_id Boot = 0"
| "get_type_id Primary = 1"
| "get_type_id Supplementary = 2"
| "get_type_id Volume = 3"
| "get_type_id End = 0xff"

definition write_volume_header :: "deps \<Rightarrow> VolumeDescriptor \<Rightarrow> out_file \<Rightarrow> out_file res" where
  "write_volume_header dp v =
     run [write_u8 dp (get_type_id v), write_all (ascii ''CD001''), write_u8 dp 0x1]"

text \<open>\<open>root_dir.get_file(name).unwrap()\<close>.\<close>

definition get_file_unwrap :: "str \<Rightarrow> DirectoryEntry \<Rightarrow> (nat list \<times> nat) res" where
  "get_file_unwrap name tree = bind_r (find_file name tree) unwrap"

definition boot_catalog_name :: str where
  "boot_catalog_name = ascii ''boot.catalog''"

definition write_boot_volume :: "deps \<Rightarrow> DirectoryEntry \<Rightarrow> out_file \<Rightarrow> out_file res" where
  "write_boot_volume dp root_dir =
     run [write_all (ascii ''EL TORITO SPECIFICATION''),
          (\<lambda>f. bind_r (get_file_unwrap boot_catalog_name root_dir) (\<lambda>a.
             run [write_all (replicate 0x29 0),
                  write_u32 dp LittleEndian (fe_lba (file_at a root_dir)),
                  write_all (replicate 0x7b5 0)] f))]"

definition write_volume_times :: "deps \<Rightarrow> out_file \<Rightarrow> out_file res" where
  "write_volume_times dp f =
     (let creation_time = dt_format (now dp (ticks f));
          expiration_time = replicate 16 0x30
      in run [write_all creation_time, write_u8 dp 0, write_all creation_time, write_u8 dp 0,
              write_all expiration_time, write_u8 dp 0, write_all expiration_time, write_u8 dp 0] (tick f))"

definition write_primary_volume ::
    "deps \<Rightarrow> DirectoryEntry \<Rightarrow> nat \<Rightarrow> nat \<Rightarrow> out_file \<Rightarrow> out_file res" where
  "write_primary_volume dp root_dir path_table_start_lba size_in_lb =
     run [write_u8 dp 0,
          write_all (ascii ''LINUX                           ''),
          write_all (ascii ''CDROM                           ''),
          write_u64 dp LittleEndian 0,
          both_u32 dp size_in_lb,
          write_all (replicate 32 0),
          both_u16 dp 1,
          both_u16 dp 1,
          both_u16 dp LOGIC_SIZE,
          (\<lambda>f. bind_r (get_path_table_size root_dir) (\<lambda>n. both_u32 dp n f)),
          (\<lambda>f. bind_r (chk 32 (path_table_start_lba + 2)) (\<lambda>path_table_lba_be.
             run [write_u32 dp LittleEndian path_table_start_lba,
                  write_u32 dp LittleEndian 0,
                  write_u32 dp BigEndian path_table_lba_be,
                  write_u32 dp BigEndian 0] f)),
          write_as_current dp root_dir 5,
          write_all (replicate 128 0x20),
          write_all (replicate 128 0x20),
          write_all (replicate 128 0x20),
          write_all (replicate 128 0x20),
          write_all (replicate 38 0x20),
          write_all (replicate 36 0x20),
          write_all (replicate 37 0x20),
          write_volume_times dp,
          write_u8 dp 0x1,
          write_u8 dp 0x0,
          write_all (replicate 512 0x20),
          write_all (replicate 653 0)]"

fun write_volume ::
    "deps \<Rightarrow> VolumeDescriptor \<Rightarrow> DirectoryEntry \<Rightarrow> nat \<Rightarrow> nat \<Rightarrow> out_file \<Rightarrow> out_file res" where
  "write_volume dp v root_dir path_table_start_lba size_in_lb f =
     bind_r (write_volume_header dp v f) (\<lambda>f1.
       case v of
         Boot \<Rightarrow> write_boot_volume dp root_dir f1
       | Primary \<Rightarrow> write_primary_volume dp root_dir path_table_start_lba size_in_lb f1
       | End \<Rightarrow> write_all (replicate 2041 0) f1
       | _ \<Rightarrow> Inl (Panic (ExplicitPanic ''not implemented'')))"

definition generate_volume_descriptors :: "Opt \<Rightarrow> VolumeDescriptor list" where
  "generate_volume_descriptors opt =
     [Primary] @ (if eltorito_boot (eltorito_opt opt) \<noteq> None then [Boot] else []) @ [End]"

section \<open>The boot catalog and the boot image\<close>

definition create_boot_catalog :: "DirectoryEntry \<Rightarrow> DirectoryEntry" where
  "create_boot_catalog tree = add_file (new_buffered boot_catalog_name) tree"

definition boot_catalog_ops :: "deps \<Rightarrow> bool \<Rightarrow> nat \<Rightarrow> nat \<Rightarrow> (out_file \<Rightarrow> out_file res) list" where
  "boot_catalog_ops dp not_bootable sector_count eltorito_lba =
     [write_u8 dp 0x1,
      write_u8 dp 0xEF,
      write_u16 dp LittleEndian 0x0,
      write_all (replicate 0x16 0),
      write_u32 dp LittleEndian 0x66aa0000,
      write_u8 dp 0x55,
      write_u8 dp 0xAA,
      write_u8 dp (if not_bootable then 0x0 else 0x88),
      write_u8 dp 0x0,
      write_u16 dp LittleEndian 0x0,
      write_u8 dp 0x0,
      write_u8 dp 0x0,
      write_u16 dp LittleEndian (as_u16 sector_count),
      write_u32 dp LittleEndian eltorito_lba,
      write_all (replicate 0x14 0)]"

definition fill_boot_catalog :: "deps \<Rightarrow> Opt \<Rightarrow> DirectoryEntry \<Rightarrow> DirectoryEntry res" where
  "fill_boot_catalog dp opt tree =
     bind_r (unwrap (eltorito_boot (eltorito_opt opt))) (\<lambda>v.
     bind_r (get_file_unwrap v tree) (\<lambda>a.
     let sector_count = boot_load_size opt;
         eltorito_lba = fe_lba (file_at a tree)
     in
     bind_r (get_file_unwrap boot_catalog_name tree) (\<lambda>b.
     bind_r (to_vec (boot_catalog_ops dp (no_boot (eltorito_opt opt)) sector_count eltorito_lba)) (\<lambda>buff.
     let e = file_at b tree in
     case file_type e of
       Regular _ \<Rightarrow> Inl (Panic (ExplicitPanic ''explicit panic''))
     | Buffer name _ \<Rightarrow>
         bind_r (fe_update (e\<lparr>file_type := Buffer name buff\<rparr>)) (\<lambda>e'.
           Inr (update_file_at (fst b) (snd b) e' tree))))))"

definition patch_boot_image :: "deps \<Rightarrow> fs \<Rightarrow> Opt \<Rightarrow> DirectoryEntry \<Rightarrow> DirectoryEntry res" where
  "patch_boot_image dp fsys opt tree =
     bind_r (unwrap (eltorito_boot (eltorito_opt opt))) (\<lambda>v.
     bind_r (get_file_unwrap v tree) (\<lambda>a.
     let e = file_at a tree in
     bind_r (open_content_provider fsys e) (\<lambda>content.
     let buff = put content file_create in
     bind_r (if boot_info_table (eltorito_opt opt) then
               run [seek_start 0x8,
                    write_u32 dp LittleEndian 0x10,
                    write_u32 dp LittleEndian (fe_lba e),
                    write_u32 dp LittleEndian (as_u32 (fe_size e)),
                    write_u32 dp LittleEndian 0x0] buff
             else Inr buff) (\<lambda>buff1.
     bind_r (if grub2_boot_info (eltorito_opt opt) then
               run [seek_start 0x9f4,
                    (\<lambda>f. bind_r (chk 32 (fe_lba e * 4)) (\<lambda>x.
                         bind_r (chk 32 (x + 5)) (\<lambda>y. write_u64 dp LittleEndian y f)))] buff1
             else Inr buff1) (\<lambda>buff2.
     bind_r (fe_get_file_name e) (\<lambda>name.
     bind_r (fe_update (e\<lparr>file_type := Buffer name (fbytes buff2)\<rparr>)) (\<lambda>e'.
       Inr (update_file_at (fst a) (snd a) e' tree))))))))"

section \<open>The system area\<close>

definition write_msdos_label :: "deps \<Rightarrow> nat \<Rightarrow> out_file \<Rightarrow> out_file res" where
  "write_msdos_label dp lb_count f =
     (let current_pos = fpos f;
          partition_offset = 1;
          partition_number = 1;
          head_count = 64;
          sector_count = 32
      in
      bind_r (run [seek_start 0x1BE, write_u8 dp 0x80] f) (\<lambda>f1.
      bind_r (chk 32 (lb_count * LOGIC_SIZE)) (\<lambda>n.
      let size_in_sector = n div SECTOR_SIZE in
      run [write_lba_to_cls dp partition_number head_count sector_count,
           write_u8 dp 0x17,
           (\<lambda>f. bind_r (sub_chk size_in_sector 1) (\<lambda>l. write_lba_to_cls dp l head_count sector_count f)),
           write_u32 dp LittleEndian partition_offset,
           (\<lambda>f. bind_r (sub_chk size_in_sector partition_offset) (\<lambda>l. write_u32 dp LittleEndian l f)),
           write_all (replicate 0x10 0),
           write_all (replicate 0x10 0),
           write_all (replicate 0x10 0),
           seek_start 0x1FE,
           write_u8 dp 0x55,
           write_u8 dp 0xAA,
           seek_start current_pos] f1)))"

definition copy_embedded_boot :: "fs \<Rightarrow> str \<Rightarrow> out_file \<Rightarrow> out_file res" where
  "copy_embedded_boot fsys s f =
     (let p = path_from_str s in
      bind_r (unwrap (fs_metadata fsys p)) (\<lambda>meta.
      if LOGIC_SIZE * 0x10 < meta_len meta then Inl (IoError ''generic boot file is bigger than 32768 bytes!'')
      else case fs_open fsys p of
          None \<Rightarrow> Inl (IoError ''open'')
        | Some content \<Rightarrow> write_all content f))"

text \<open>Which file is copied to the start of the image, and whether it gets the GRUB 2 patch.\<close>

definition embedded_choice :: "Opt \<Rightarrow> str option \<times> bool" where
  "embedded_choice opt =
     (if embedded_boot opt \<noteq> None then (embedded_boot opt, False)
      else if grub2_mbr opt \<noteq> None then (grub2_mbr opt, True)
      else (None, False))"

definition patch_grub2_mbr :: "deps \<Rightarrow> Opt \<Rightarrow> DirectoryEntry \<Rightarrow> nat \<Rightarrow> out_file \<Rightarrow> out_file res" where
  "patch_grub2_mbr dp opt tree old_pos f =
     (let current_pos = fpos f in
      case eltorito_boot (eltorito_opt opt) of
        None \<Rightarrow> Inr f
      | Some boot \<Rightarrow>
          bind_r (seek_start (old_pos + 0x1B0) f) (\<lambda>g.
          bind_r (get_file_unwrap boot tree) (\<lambda>a.
          bind_r (chk 32 (fe_lba (file_at a tree) * 4)) (\<lambda>x.
          bind_r (chk 32 (x + 4)) (\<lambda>y.
            run [write_u64 dp LittleEndian y, seek_start current_pos] g)))))"

definition pad_system_area :: "nat \<Rightarrow> out_file \<Rightarrow> out_file res" where
  "pad_system_area old_pos f =
     bind_r (sub_chk (fpos f) old_pos) (\<lambda>diff_size.
       if diff_size \<noteq> LOGIC_SIZE * 0x10 then
         bind_r (sub_chk (LOGIC_SIZE * 0x10) diff_size) (\<lambda>n. write_all (replicate n 0) f)
       else Inr f)"

definition write_system_area ::
    "deps \<Rightarrow> fs \<Rightarrow> Opt \<Rightarrow> DirectoryEntry \<Rightarrow> nat \<Rightarrow> out_file \<Rightarrow> out_file res" where
  "write_system_area dp fsys opt tree lb_count f =
     (let old_pos = fpos f; embedded = fst (embedded_choice opt); need_grub2_mbr_patches = snd (embedded_choice opt) in
      bind_r (case embedded of Some s \<Rightarrow> copy_embedded_boot fsys s f | None \<Rightarrow> Inr f) (\<lambda>f1.
      bind_r (if need_grub2_mbr_patches then patch_grub2_mbr dp opt tree old_pos f1 else Inr f1) (\<lambda>f2.
      bind_r (pad_system_area old_pos f2) (\<lambda>f3.
      if protective_msdos_label opt then write_msdos_label dp lb_count f3 else Inr f3))))"

section \<open>The image\<close>

definition er_ops :: "deps \<Rightarrow> (out_file \<Rightarrow> out_file res) list" where
  "er_ops dp =
     [write_all (ascii ''ER''),
      write_u8 dp 0xB6, write_u8 dp 0x1, write_u8 dp 0x9, write_u8 dp 0x48, write_u8 dp 0x5d, write_u8 dp 0x1,
      write_all (ascii ''IEEE_1282''),
      write_all (ascii ''THE IEEE 1282 PROTOCOL PROVIDES SUPPORT FOR POSIX FILE SYSTEM SEMANTICS.''),
      write_all (ascii ''PLEASE CONTACT THE IEEE STANDARDS DEPARTMENT, PISCATAWAY, NJ, USA FOR THE 1282 SPECIFICATION.'')]"

definition set_continuation_area :: "u8 list option \<Rightarrow> DirectoryEntry \<Rightarrow> DirectoryEntry" where
  "set_continuation_area ca d =
     DirectoryEntry (path_table_index d) (parent_index d) (path d) (dir_childs d) (files_childs d) ca (de_lba d)"

text \<open>
  The first half of \<open>create_iso\<close>: reading the input files, numbering and block assignment. It returns the
  tree, the block of the path tables and the number of blocks.
\<close>

definition layout_tree :: "deps \<Rightarrow> fs \<Rightarrow> nat \<Rightarrow> Opt \<Rightarrow> (DirectoryEntry \<times> nat \<times> nat) res" where
  "layout_tree dp fsys depth opt =
     (let volume_descriptor_list = generate_volume_descriptors opt;
          has_boot = (eltorito_boot (eltorito_opt opt) \<noteq> None);
          path_table_start_lba = 0x10 + 1 + length volume_descriptor_list;
          current_lba = path_table_start_lba + 4
      in
      bind_r (set_path_files fsys depth (input_files opt)
        (if has_boot then create_boot_catalog new_directory else new_directory)) (\<lambda>tree.
      bind_r (to_vec (er_ops dp)) (\<lambda>er.
      bind_r (assign_directory_identifiers (set_continuation_area (Some er) tree) (0, current_lba))
        (\<lambda>(tree, _, tmp_lba).
      bind_r (reserve_file_space (set_lba current_lba (set_ids (path_table_index tree) 1 tree)) tmp_lba)
        (\<lambda>(tree, lba).
      bind_r (if has_boot then fill_boot_catalog dp opt tree else Inr tree) (\<lambda>tree.
      bind_r (if boot_info_table (eltorito_opt opt) \<or> grub2_boot_info (eltorito_opt opt)
              then patch_boot_image dp fsys opt tree else Inr tree) (\<lambda>tree.
        Inr (tree, path_table_start_lba, lba))))))))"

text \<open>The second half: writing the image.\<close>

definition write_image ::
    "deps \<Rightarrow> fs \<Rightarrow> Opt \<Rightarrow> DirectoryEntry \<Rightarrow> nat \<Rightarrow> nat \<Rightarrow> out_file \<Rightarrow> out_file res" where
  "write_image dp fsys opt tree path_table_start_lba current_lba =
     run [write_system_area dp fsys opt tree current_lba,
          fold_r (\<lambda>v. write_volume dp v tree path_table_start_lba current_lba) (generate_volume_descriptors opt),
          write_all (ascii ''MKI ''),
          write_all (drop 4 (replicate 2048 0)),
          write_path_table dp LittleEndian tree path_table_start_lba,
          (\<lambda>f. bind_r (chk 32 (path_table_start_lba + 2)) (\<lambda>l. write_path_table dp BigEndian tree l f)),
          write_extent dp tree None,
          write_files fsys tree,
          (\<lambda>f. bind_r (seek_end f) (\<lambda>g.
             let old = fpos g in
             run (replicate 128 (write_all (replicate 2048 0)) @ [seek_start old]) g))]"

definition create_iso :: "deps \<Rightarrow> fs \<Rightarrow> nat \<Rightarrow> Opt \<Rightarrow> out_file res" where
  "create_iso dp fsys depth opt =
     (if \<not> fs_create fsys (out_path opt) then Inl (IoError ''create'')
      else
        bind_r (layout_tree dp fsys depth opt) (\<lambda>(tree, path_table_start_lba, current_lba).
          write_image dp fsys opt tree path_table_start_lba current_lba file_create))"

section \<open>The bytes of the descriptors\<close>

definition volume_header :: "VolumeDescriptor \<Rightarrow> u8 list" where
  "volume_header v = [word_of_nat (get_type_id v)] @ ascii ''CD001'' @ [1]"

lemma volume_header_length [simp]: "length (volume_header v) = 7"
  by (simp add: volume_header_def)

lemma write_volume_header_eq:
  assumes "byteorder_ok dp"
  shows "write_volume_header dp v f = Inr (put (volume_header v) f)"
proof -
  have "get_type_id v < 256" by (cases v) simp_all
  with assms show ?thesis by (simp add: write_volume_header_def volume_header_def)
qed

definition boot_volume :: "nat \<Rightarrow> u8 list" where
  "boot_volume l = volume_header Boot @ ascii ''EL TORITO SPECIFICATION'' @ replicate 0x29 0
     @ le_bytes 4 l @ replicate 0x7b5 0"

lemma write_boot_volume_eq:
  assumes "byteorder_ok dp" "find_file boot_catalog_name root = Inr (Some a)" "fe_lba (file_at a root) < 2 ^ 32"
  shows "write_volume dp Boot root p n f = Inr (put (boot_volume (fe_lba (file_at a root))) f)"
  using assms
  by (simp add: write_volume_header_eq write_boot_volume_def get_file_unwrap_def boot_volume_def endian_bytes_def)

definition primary_volume :: "DirectoryEntry \<Rightarrow> nat \<Rightarrow> nat \<Rightarrow> nat \<Rightarrow> nat \<Rightarrow> date_time \<Rightarrow> date_time \<Rightarrow> u8 list" where
  "primary_volume root pt_lba size_lb pt_size blocks dt1 dt2 =
     volume_header Primary @ [0] @ ascii ''LINUX                           '' @ ascii ''CDROM                           ''
       @ le_bytes 8 0 @ both_bytes 4 size_lb @ replicate 32 0 @ both_bytes 2 1 @ both_bytes 2 1 @ both_bytes 2 2048
       @ both_bytes 4 pt_size @ le_bytes 4 pt_lba @ le_bytes 4 0 @ rev (le_bytes 4 (pt_lba + 2)) @ rev (le_bytes 4 0)
       @ dir_record root (dir_name root) 5 blocks dt1
       @ replicate 512 0x20 @ replicate 111 0x20
       @ dt_format dt2 @ [0] @ dt_format dt2 @ [0] @ replicate 16 0x30 @ [0] @ replicate 16 0x30 @ [0]
       @ [1, 0] @ replicate 512 0x20 @ replicate 653 0"

lemma dir_record_5_length: "length (dir_record d name 5 n dt) = 34"
  by (subst dir_record_length) (simp_all add: dir_record_size_def dir_ident_def pad_len_def)

lemma primary_volume_length:
  "length (dt_format dt2) = 16 \<Longrightarrow> length (primary_volume root p s t n dt1 dt2) = 2048"
  by (simp add: primary_volume_def dir_record_5_length)

lemma write_volume_times_eq:
  "byteorder_ok dp \<Longrightarrow> write_volume_times dp f =
     Inr (put (dt_format (now dp (ticks f)) @ [0] @ dt_format (now dp (ticks f)) @ [0]
       @ replicate 16 0x30 @ [0] @ replicate 16 0x30 @ [0]) (tick f))"
  by (simp add: write_volume_times_def Let_def)

lemma record_gap_room: "fpos f mod 2048 + n \<le> 2048 \<Longrightarrow> 0 < n \<Longrightarrow> record_gap (fpos f) n = 0"
  by (auto simp: record_gap_def room_eq)

definition root_ok :: "DirectoryEntry \<Rightarrow> nat \<Rightarrow> bool" where
  "root_ok d n \<longleftrightarrow> dir_ok d \<and> get_extent_size_in_lb d = Inr n \<and> n * 2048 < 2 ^ 32 \<and> de_lba d + n < 2 ^ 32
     \<and> de_lba d + path_table_index d < 2 ^ 32"

lemma write_root_record:
  assumes "byteorder_ok dp" "root_ok root n" "fpos f + 4096 \<le> 2 ^ 31" "fpos f mod 2048 + 34 \<le> 2048"
  shows "write_as_current dp root 5 f = Inr (put (dir_record root (dir_name root) 5 n (now dp (ticks f))) (tick f))"
proof -
  have n: "de_get_file_name root = Inr (dir_name root)"
      "convert_name (dir_name root) = Inr (short_name (dir_name root))" "length (dir_name root) \<le> 250"
    using assms(2) name_okD [of root] by (auto simp: root_ok_def dir_ok_def)
  have s: "dir_record_size (dir_name root) 5 = 34" by (simp add: dir_record_size_def dir_ident_def pad_len_def)
  have "de_write_entry dp 5 root f = Inr (put (replicate (record_gap (fpos f) (dir_record_size (dir_name root) 5)) 0
      @ dir_record root (dir_name root) 5 n (now dp (ticks f))) (tick f))"
    using assms(2) by (intro de_write_entry_eq [OF assms(1) n(1,2,3) _ assms(3)]) (simp_all add: root_ok_def dir_ok_def)
  then show ?thesis using assms(4) s record_gap_room [of f 34] by (simp add: write_as_current_def)
qed

lemma write_primary_volume_eq:
  assumes "byteorder_ok dp" "root_ok root n" "get_path_table_size root = Inr t" "t < 2 ^ 32"
    and "p + 2 < 2 ^ 32" "s < 2 ^ 32" "fpos f + 8192 \<le> 2 ^ 31" "fpos f mod 2048 = 0"
  shows "write_volume dp Primary root p s f =
    Inr (put (primary_volume root p s t n (now dp (ticks f)) (now dp (Suc (ticks f)))) (tick (tick f)))"
proof -
  let ?b = "[0] @ ascii ''LINUX                           '' @ ascii ''CDROM                           ''
       @ le_bytes 8 0 @ both_bytes 4 s @ replicate 32 0 @ both_bytes 2 1 @ both_bytes 2 1 @ both_bytes 2 2048
       @ both_bytes 4 t @ le_bytes 4 p @ le_bytes 4 0 @ rev (le_bytes 4 (p + 2)) @ rev (le_bytes 4 0)"
  let ?f1 = "put (volume_header Primary) f"
  have m: "(fpos f + 156) mod 2048 = 156" using assms(8) mod_add_left_eq [of "fpos f" 2048 156] by simp
  have r: "write_as_current dp root 5 (put ?b ?f1)
      = Inr (put (dir_record root (dir_name root) 5 n (now dp (ticks f))) (tick (put ?b ?f1)))"
    using write_root_record [OF assms(1,2), of "put ?b ?f1"] m assms(7) by simp
  let ?A = "[write_u8 dp 0, write_all (ascii ''LINUX                           ''),
      write_all (ascii ''CDROM                           ''), write_u64 dp LittleEndian 0, both_u32 dp s,
      write_all (replicate 32 0), both_u16 dp 1, both_u16 dp 1, both_u16 dp LOGIC_SIZE,
      (\<lambda>f. bind_r (get_path_table_size root) (\<lambda>n. both_u32 dp n f)),
      (\<lambda>f. bind_r (chk 32 (p + 2)) (\<lambda>path_table_lba_be.
         run [write_u32 dp LittleEndian p, write_u32 dp LittleEndian 0,
              write_u32 dp BigEndian path_table_lba_be, write_u32 dp BigEndian 0] f))]"
  let ?B = "[write_all (replicate 128 0x20), write_all (replicate 128 0x20), write_all (replicate 128 0x20),
      write_all (replicate 128 0x20), write_all (replicate 38 0x20), write_all (replicate 36 0x20),
      write_all (replicate 37 0x20), write_volume_times dp, write_u8 dp 0x1, write_u8 dp 0x0,
      write_all (replicate 512 0x20), write_all (replicate 653 0)]"
  have A: "run ?A g = Inr (put ?b g)" for g
    using assms(1,3-6) by (simp add: endian_bytes_def chk_ok)
  have B: "run ?B g = Inr (put (replicate 512 0x20 @ replicate 111 0x20
      @ dt_format (now dp (ticks g)) @ [0] @ dt_format (now dp (ticks g)) @ [0] @ replicate 16 0x30 @ [0] @ replicate 16 0x30 @ [0]
      @ [1, 0] @ replicate 512 0x20 @ replicate 653 0) (tick g))" for g
  proof -
    have "replicate 512 x = replicate 128 x @ replicate 128 x @ replicate 128 x @ replicate 128 x"
        "replicate 111 x = replicate 38 x @ replicate 36 x @ replicate 37 x" for x :: u8
      by (simp_all add: replicate_add [symmetric])
    then show ?thesis using assms(1) by (simp only: run_simps write_all_simp bind_r_simps write_volume_times_eq)
        (simp add: tick_put)
  qed
  have "write_primary_volume dp root p s ?f1 = run (?A @ write_as_current dp root 5 # ?B) ?f1"
    by (simp only: write_primary_volume_def append.simps)
  also have "\<dots> = run ?B (put (dir_record root (dir_name root) 5 n (now dp (ticks f))) (tick (put ?b ?f1)))"
    by (subst run_trans [OF A], subst run_simps(2), subst r, subst bind_r_simps(2), rule refl)
  also have "\<dots> = Inr (put (primary_volume root p s t n (now dp (ticks f)) (now dp (Suc (ticks f)))) (tick (tick f)))"
    by (simp only: B) (simp add: tick_put primary_volume_def)
  finally show ?thesis by (simp add: write_volume_header_eq [OF assms(1)])
qed

section \<open>The volume descriptors\<close>

definition volume_ready :: "DirectoryEntry \<Rightarrow> VolumeDescriptor \<Rightarrow> bool" where
  "volume_ready root v \<longleftrightarrow> v \<in> {Primary, Boot, End}
     \<and> (v = Boot \<longrightarrow> (\<exists>a. find_file boot_catalog_name root = Inr (Some a) \<and> fe_lba (file_at a root) < 2 ^ 32))"

lemma write_volume_put:
  assumes "byteorder_ok dp" "clock_ok dp" "root_ok root n" "get_path_table_size root = Inr t" "t < 2 ^ 32"
    and "p + 2 < 2 ^ 32" "s < 2 ^ 32" "fpos f + 8192 \<le> 2 ^ 31" "fpos f mod 2048 = 0" "volume_ready root v"
  shows "\<exists>bs g. write_volume dp v root p s f = Inr (put bs g) \<and> length bs = 2048
    \<and> take 7 bs = volume_header v \<and> fpos g = fpos f \<and> fbytes g = fbytes f"
proof -
  consider "v = Primary" | "v = End" | "v = Boot" using assms(10) by (auto simp: volume_ready_def)
  then show ?thesis
  proof cases
    case 1
    let ?bs = "primary_volume root p s t n (now dp (ticks f)) (now dp (Suc (ticks f)))"
    have "length ?bs = 2048" using assms(2) by (intro primary_volume_length) (simp add: clock_ok_def)
    moreover have "take 7 ?bs = volume_header Primary" by (simp add: primary_volume_def)
    ultimately show ?thesis
      using 1 write_primary_volume_eq [OF assms(1,3-9)]
      by (intro exI [of _ ?bs] exI [of _ "tick (tick f)"]) (simp del: write_volume.simps)
  next
    case 2
    show ?thesis
      using 2 write_volume_header_eq [OF assms(1)]
      by (intro exI [of _ "volume_header End @ replicate 2041 0"] exI [of _ f]) simp
  next
    case 3
    then obtain a where a: "find_file boot_catalog_name root = Inr (Some a)" "fe_lba (file_at a root) < 2 ^ 32"
      using assms(10) by (auto simp: volume_ready_def)
    show ?thesis
      using 3 write_boot_volume_eq [OF assms(1) a]
      by (intro exI [of _ "boot_volume (fe_lba (file_at a root))"] exI [of _ f])
        (simp add: boot_volume_def del: write_volume.simps)
  qed
qed

lemma write_volumes_pos:
  assumes "byteorder_ok dp" "clock_ok dp" "root_ok root n" "get_path_table_size root = Inr t" "t < 2 ^ 32"
    and "p + 2 < 2 ^ 32" "s < 2 ^ 32"
    and "fpos f + length vs * 2048 + 8192 \<le> 2 ^ 31" "fpos f mod 2048 = 0" "\<forall>v \<in> set vs. volume_ready root v"
  shows "\<exists>f'. fold_r (\<lambda>v. write_volume dp v root p s) vs f = Inr f' \<and> fpos f' = fpos f + length vs * 2048"
  using assms(8-10)
proof (induction vs arbitrary: f)
  case (Cons v vs)
  obtain bs g where g: "write_volume dp v root p s f = Inr (put bs g)" "length bs = 2048" "fpos g = fpos f"
    using write_volume_put [OF assms(1-7), of f v] Cons.prems by auto
  then have q: "fpos (put bs g) = fpos f + 2048" by simp
  then obtain f' where "fold_r (\<lambda>v. write_volume dp v root p s) vs (put bs g) = Inr f'"
      "fpos f' = fpos (put bs g) + length vs * 2048"
    using Cons.IH [of "put bs g"] Cons.prems by (auto simp del: put_simps write_volume.simps)
  with g(1) q show ?case by (simp add: add.assoc del: write_volume.simps)
qed simp

section \<open>The system area\<close>

lemma system_area_steps_pos:
  "write_msdos_label dp n f = Inr f1 \<Longrightarrow> fpos f1 = fpos f"
  "patch_grub2_mbr dp opt tree p f = Inr f1 \<Longrightarrow> fpos f1 = fpos f"
  "pad_system_area p f = Inr f1 \<Longrightarrow> fpos f1 = p + 32768"
  by (auto simp: write_msdos_label_def patch_grub2_mbr_def pad_system_area_def Let_def seek_start_def sub_chk_def
      split: if_splits option.splits)

lemma write_system_area_pos:
  assumes "write_system_area dp fsys opt tree n f = Inr f'"
  shows "fpos f' = fpos f + 32768"
proof -
  obtain f2 f3 where "pad_system_area (fpos f) f2 = Inr f3"
      "(if protective_msdos_label opt then write_msdos_label dp n f3 else Inr f3) = Inr f'"
    using assms by (auto simp: write_system_area_def Let_def)
  then show ?thesis using system_area_steps_pos(1,3) by (metis Inr_inject)
qed

lemma system_area_returns:
  assumes "byteorder_ok dp" "embedded_boot opt = None" "grub2_mbr opt = None"
    and "protective_msdos_label opt \<longrightarrow> 0 < n \<and> n * 2048 < 2 ^ 32"
  shows "\<exists>f'. write_system_area dp fsys opt tree n f = Inr f'"
proof -
  have e: "embedded_choice opt = (None, False)" using assms by (simp add: embedded_choice_def)
  have cls: "\<exists>h'. write_lba_to_cls dp l 64 32 h = Inr h'" for l h
    using assms(1) by (auto simp: write_lba_to_cls_def Let_def word_of_nat_as_u8)
  have m: "\<exists>g'. write_msdos_label dp n g = Inr g'" if "0 < n" "n * 2048 < 2 ^ 32" for g
  proof -
    obtain h1 where h1: "write_lba_to_cls dp 1 64 32 (put [128] (g\<lparr>fpos := 446\<rparr>)) = Inr h1" using cls by blast
    obtain h2 where h2: "write_lba_to_cls dp (n * 2048 div 512 - 1) 64 32 (put [23] h1) = Inr h2" using cls by blast
    show ?thesis
      using that assms(1) h1 h2
      by (simp add: write_msdos_label_def Let_def seek_start_def SECTOR_SIZE_def chk_ok sub_chk_def)
  qed
  show ?thesis
    using m assms(4) by (auto simp: write_system_area_def e pad_system_area_def sub_chk_def Let_def)
qed

section \<open>The descriptors' properties\<close>

text \<open>
  Every volume descriptor the program emits (primary, boot, terminator) takes exactly one 2048-byte
  block and starts with its type, the identifier CD001 and version 1.\<close>
theorem volume_descriptor_block:
  assumes "byteorder_ok dp" "clock_ok dp" "root_ok root n" "get_path_table_size root = Inr t" "t < 2 ^ 32"
    and "p + 2 < 2 ^ 32" "s < 2 ^ 32" "fpos f + 8192 \<le> 2 ^ 31" "fpos f mod 2048 = 0" "volume_ready root v"
  shows "\<exists>f'. write_volume dp v root p s f = Inr f' \<and> fpos f' = fpos f + 2048
    \<and> bytes_at (fbytes f') (fpos f) 7 = [word_of_nat (get_type_id v)] @ ascii ''CD001'' @ [1]"
proof -
  obtain bs g where g: "write_volume dp v root p s f = Inr (put bs g)" "length bs = 2048"
      "take 7 bs = volume_header v" "fpos g = fpos f"
    using write_volume_put [OF assms] by blast
  moreover have "bytes_at (fbytes (put bs g)) (fpos g + 0) 7 = volume_header v"
    using g(2,3) bytes_at_put_part [of 0 7 bs g] by (simp add: bytes_at_def)
  ultimately show ?thesis by (auto simp: volume_header_def simp del: write_volume.simps put_simps(3))
qed

text \<open>
  The primary descriptor holds, at the offsets ISO 9660 fixes, the number of blocks, the size of the path
  table, the block of the little-endian table, two blocks further that of the big-endian one, and a
  34-byte record of the root directory with its block and size.\<close>
theorem primary_descriptor_fields:
  assumes "byteorder_ok dp" "clock_ok dp" "root_ok root n" "get_path_table_size root = Inr t" "t < 2 ^ 32"
    and "p + 2 < 2 ^ 32" "s < 2 ^ 32" "fpos f + 8192 \<le> 2 ^ 31" "fpos f mod 2048 = 0"
  shows "\<exists>f' img. write_volume dp Primary root p s f = Inr f'
    \<and> img = (\<lambda>k. bytes_at (fbytes f') (fpos f + k))
    \<and> le_val (img 80 4) = s \<and> le_val (img 132 4) = t \<and> le_val (img 140 4) = p \<and> le_val (rev (img 148 4)) = p + 2
    \<and> read_record (img 156 34) = (34, de_lba root, n * 2048, 2, [0])"
proof -
  let ?dt1 = "now dp (ticks f)" and ?dt2 = "now dp (Suc (ticks f))"
  let ?bs = "primary_volume root p s t n ?dt1 ?dt2"
  let ?r = "dir_record root (dir_name root) 5 n ?dt1"
  let ?g = "tick (tick f)"
  have len: "length ?bs = 2048" using assms(2) by (intro primary_volume_length) (simp add: clock_ok_def)
  have at: "bytes_at (fbytes (put ?bs ?g)) (fpos f + k) m = bytes_at ?bs k m" if "k + m \<le> 2048" for k m
    using that len bytes_at_put_part [of k m ?bs ?g] by simp
  have "take 4 (both_bytes 4 x) = le_bytes 4 x" for x by (simp add: both_bytes_def)
  then have parts: "bytes_at ?bs 80 4 = le_bytes 4 s" "bytes_at ?bs 132 4 = le_bytes 4 t"
      "bytes_at ?bs 140 4 = le_bytes 4 p" "bytes_at ?bs 148 4 = rev (le_bytes 4 (p + 2))" "bytes_at ?bs 156 34 = ?r"
    by (simp_all add: primary_volume_def bytes_at_def dir_record_5_length)
  have r: "read_record ?r = (34, de_lba root, n * 2048, 2, [0])"
    using assms(3) by (subst dir_record_read) (simp_all add: root_ok_def dir_record_size_def dir_ident_def pad_len_def)
  show ?thesis
    using assms(5-7) r
    by (intro exI [of _ "put ?bs ?g"] exI [of _ "\<lambda>k. bytes_at (fbytes (put ?bs ?g)) (fpos f + k)"] conjI refl
        write_primary_volume_eq [OF assms(1,3-9)])
      (simp_all add: at parts le_val_le_bytes del: put_simps(3))
qed

text \<open>
  The system area takes exactly 32768 bytes whenever it is written; without a boot file to embed it
  is always written (given room for the partition table entry, when one is asked for); and an embedded boot
  file of more than 32768 bytes is refused.\<close>
theorem system_area_size:
  assumes "byteorder_ok dp" "protective_msdos_label opt \<longrightarrow> 0 < n \<and> n * 2048 < 2 ^ 32"
  shows "(\<forall>f'. write_system_area dp fsys opt tree n f = Inr f' \<longrightarrow> fpos f' = fpos f + 32768)
    \<and> (embedded_boot opt = None \<and> grub2_mbr opt = None \<longrightarrow> (\<exists>f'. write_system_area dp fsys opt tree n f = Inr f'))
    \<and> (\<forall>s m. embedded_boot opt = Some s \<and> fs_metadata fsys (path_from_str s) = Some m \<and> 32768 < meta_len m
        \<longrightarrow> write_system_area dp fsys opt tree n f = Inl (IoError ''generic boot file is bigger than 32768 bytes!''))"
proof (intro conjI allI impI)
  show "fpos f' = fpos f + 32768" if "write_system_area dp fsys opt tree n f = Inr f'" for f'
    using that by (rule write_system_area_pos)
  show "\<exists>f'. write_system_area dp fsys opt tree n f = Inr f'" if "embedded_boot opt = None \<and> grub2_mbr opt = None"
    using that assms system_area_returns by blast
  fix s m
  assume "embedded_boot opt = Some s \<and> fs_metadata fsys (path_from_str s) = Some m \<and> 32768 < meta_len m"
  then show "write_system_area dp fsys opt tree n f = Inl (IoError ''generic boot file is bigger than 32768 bytes!'')"
    by (simp add: write_system_area_def embedded_choice_def copy_embedded_boot_def Let_def)
qed

text \<open>
  The system area, the volume descriptors and the block after them end exactly at the block the layout
  gave to the path tables.\<close>
theorem descriptor_area_end:
  assumes "byteorder_ok dp" "clock_ok dp" "root_ok root n" "get_path_table_size root = Inr t" "t < 2 ^ 32"
    and "0 < s" "s * 2048 < 2 ^ 32" "embedded_boot opt = None" "grub2_mbr opt = None"
    and "\<forall>v \<in> set (generate_volume_descriptors opt). volume_ready root v"
    and "p = 17 + length (generate_volume_descriptors opt)"
  shows "\<exists>f'. run [write_system_area dp fsys opt root s,
          fold_r (\<lambda>v. write_volume dp v root p s) (generate_volume_descriptors opt),
          write_all (ascii ''MKI ''), write_all (drop 4 (replicate 2048 0))] file_create = Inr f'
        \<and> fpos f' = p * 2048"
proof -
  let ?vs = "generate_volume_descriptors opt"
  have l: "length ?vs \<le> 3" by (simp add: generate_volume_descriptors_def)
  obtain f1 where f1: "write_system_area dp fsys opt root s file_create = Inr f1"
    using system_area_returns [OF assms(1,8,9)] assms(6,7) by blast
  have p1: "fpos f1 = 32768" using write_system_area_pos [OF f1] by (simp add: file_create_def)
  obtain f2 where "fold_r (\<lambda>v. write_volume dp v root p s) ?vs f1 = Inr f2" "fpos f2 = fpos f1 + length ?vs * 2048"
    using write_volumes_pos [OF assms(1-5) _ _ _ _ assms(10), of p s f1] p1 l assms(7,11) by auto
  then show ?thesis using f1 p1 assms(11)
    by (simp add: ascii_def del: write_volume.simps put_simps(3))
qed

section \<open>The boot catalog\<close>

text \<open>The 16-bit little-endian words of a byte list: El Torito asks that those of the validation entry add up to 0.\<close>

fun words16 :: "u8 list \<Rightarrow> nat list" where
  "words16 (a # b # xs) = (unat a + 256 * unat b) # words16 xs"
| "words16 xs = []"

definition catalog_bytes :: "bool \<Rightarrow> nat \<Rightarrow> nat \<Rightarrow> u8 list" where
  "catalog_bytes nb n l =
     ([1, 0xEF, 0, 0] @ replicate 0x16 0 @ [0, 0, 0xaa, 0x66, 0x55, 0xAA])
       @ [if nb then 0 else 0x88, 0, 0, 0, 0, 0] @ le_bytes 2 (as_u16 n) @ le_bytes 4 l @ replicate 0x14 0"

lemma fbytes_create [simp]: "fbytes (put bs file_create) = bs"
  by (simp add: file_create_def overwrite_def)

lemma boot_catalog_bytes:
  assumes "byteorder_ok dp" "l < 2 ^ 32"
  shows "to_vec (boot_catalog_ops dp nb n l) = Inr (catalog_bytes nb n l)"
proof -
  have "as_u16 n < 65536" by (simp add: as_u16_def)
  moreover have "le_bytes 2 0 = [0, 0]" "le_bytes 4 0x66aa0000 = [0, 0, 0xaa, 0x66]"
    by (simp_all add: le_bytes_def upt_rec)
  ultimately show ?thesis
    using assms by (simp add: to_vec_def boot_catalog_ops_def catalog_bytes_def endian_bytes_def
        del: put_simps(3))
qed

lemma catalog_bytes_sum: "sum_list (words16 (take 32 (catalog_bytes nb n l))) = 0x20000"
proof -
  have z: "sum_list (words16 (replicate (2 * n) 0 @ xs)) = sum_list (words16 xs)" for n xs by (induction n) simp_all
  have "take 32 (catalog_bytes nb n l) = 1 # 0xEF # 0 # 0 # replicate (2 * 11) 0 @ [0, 0, 0xaa, 0x66, 0x55, 0xAA]"
    by (simp add: catalog_bytes_def)
  then show ?thesis by (simp only: words16.simps sum_list.Cons z) simp
qed

text \<open>
  The boot catalog written for an El Torito image has 64 bytes, its validation entry has the checksum
  zero and the key bytes, and its default entry holds the sector count and the block of the boot image;
  only the catalog file of the tree changes.\<close>
theorem boot_catalog_valid:
  assumes "byteorder_ok dp" "eltorito_boot (eltorito_opt opt) = Some v" "find_file v tree = Inr (Some a)"
    and "find_file boot_catalog_name tree = Inr (Some b)" "file_type (file_at b tree) = Buffer name c"
    and "fe_lba (file_at a tree) < 2 ^ 32"
  shows "\<exists>bs e. fill_boot_catalog dp opt tree = Inr (update_file_at (fst b) (snd b) e tree)
    \<and> e = (file_at b tree)\<lparr>file_type := Buffer name bs, fe_size := 64, aligned_size := 2048\<rparr>
    \<and> length bs = 64 \<and> sum_list (words16 (take 32 bs)) mod 2 ^ 16 = 0 \<and> bs ! 30 = 0x55 \<and> bs ! 31 = 0xAA
    \<and> le_val (bytes_at bs 38 2) = boot_load_size opt mod 2 ^ 16
    \<and> le_val (bytes_at bs 40 4) = fe_lba (file_at a tree)"
proof -
  let ?l = "fe_lba (file_at a tree)"
  let ?bs = "catalog_bytes (no_boot (eltorito_opt opt)) (boot_load_size opt) ?l"
  have b: "to_vec (boot_catalog_ops dp (no_boot (eltorito_opt opt)) (boot_load_size opt) ?l) = Inr ?bs"
    using assms by (intro boot_catalog_bytes)
  have len: "length ?bs = 64" by (simp add: catalog_bytes_def)
  let ?e = "(file_at b tree)\<lparr>file_type := Buffer name ?bs, fe_size := 64, aligned_size := 2048\<rparr>"
  have u: "fe_update ((file_at b tree)\<lparr>file_type := Buffer name ?bs\<rparr>) = Inr ?e"
    using len by (simp add: fe_update_def align_up_i32_def chk_i32_def Let_def)
  have 1: "fill_boot_catalog dp opt tree = Inr (update_file_at (fst b) (snd b) ?e tree)"
    using assms u by (simp add: fill_boot_catalog_def get_file_unwrap_def b Let_def)
  have "?bs ! 30 = 0x55" "?bs ! 31 = 0xAA" by (simp_all add: catalog_bytes_def nth_append)
  moreover have "bytes_at ?bs 38 2 = le_bytes 2 (as_u16 (boot_load_size opt))" "bytes_at ?bs 40 4 = le_bytes 4 ?l"
    by (simp_all add: catalog_bytes_def bytes_at_def)
  ultimately show ?thesis
    using 1 len catalog_bytes_sum assms(6)
    by (intro exI [of _ ?bs] exI [of _ ?e]) (simp add: le_val_le_bytes as_u16_def)
qed

section \<open>Witnesses\<close>

definition sample_opt :: "str option \<Rightarrow> Opt" where
  "sample_opt boot =
     \<lparr>out_path = [], eltorito_opt = \<lparr>eltorito_boot = boot, no_emu_boot = True, no_boot = False,
        boot_info_table = False, grub2_boot_info = False\<rparr>,
      embedded_boot = None, grub2_mbr = None, boot_load_size = 4548, protective_msdos_label = False, input_files = []\<rparr>"

lemma sample_root: "root_ok (two_dirs 1 2 1 24 26 27 28) 1"
  using two_dirs_names(1) [of 1 2 1 24 26 27 28]
  by (simp add: root_ok_def dir_ok_def two_dirs_extents) (simp add: two_dirs_def)

lemma sample_pt_size: "get_path_table_size (two_dirs 1 2 1 24 26 27 28) = Inr 20"
proof -
  have "get_entry_size 8 [c] 5 0 = Inr 10" "get_entry_size 8 [c] 6 0 = Inr 10" if "c < 0x80" "c \<noteq> dot" for c
    using that get_entry_size_cases(5,6) [OF _ ascii1 [OF that], of 8 0] by (simp_all add: pad_len_def)
  then show ?thesis
    by (simp add: two_dirs_def path_name_def file_name_def dot_def chk_def)
qed

theorem volume_descriptor_block_witness:
  "\<exists>f'. write_volume sample_deps Primary (two_dirs 1 2 1 24 26 27 28) 19 29 file_create = Inr f' \<and> fpos f' = 2048"
  using volume_descriptor_block [OF sample_deps_ok sample_root sample_pt_size, of 19 29 file_create Primary]
  by (auto simp: file_create_def volume_ready_def simp del: write_volume.simps)

theorem primary_descriptor_fields_witness:
  "\<exists>f'. write_volume sample_deps Primary (two_dirs 1 2 1 24 26 27 28) 19 29 file_create = Inr f'
     \<and> le_val (bytes_at (fbytes f') 80 4) = 29
     \<and> read_record (bytes_at (fbytes f') 156 34) = (34, 24, 2048, 2, [0])"
  using primary_descriptor_fields [OF sample_deps_ok sample_root sample_pt_size, of 19 29 file_create]
  by (auto simp: file_create_def two_dirs_def simp del: write_volume.simps)

theorem system_area_size_witness:
  "\<exists>f'. write_system_area sample_deps no_files (sample_opt None) new_directory 29 file_create = Inr f' \<and> fpos f' = 32768"
  using system_area_size [OF sample_deps_ok(1), of "sample_opt None" 29 no_files new_directory file_create]
  by (auto simp: sample_opt_def file_create_def)

theorem descriptor_area_end_witness:
  "\<exists>f'. run [write_system_area sample_deps no_files (sample_opt None) (two_dirs 1 2 1 24 26 27 28) 29,
        fold_r (\<lambda>v. write_volume sample_deps v (two_dirs 1 2 1 24 26 27 28) 19 29) (generate_volume_descriptors (sample_opt None)),
        write_all (ascii ''MKI ''), write_all (drop 4 (replicate 2048 0))] file_create = Inr f'
      \<and> fpos f' = 19 * 2048"
proof -
  have g: "generate_volume_descriptors (sample_opt None) = [Primary, End]"
    by (simp add: generate_volume_descriptors_def sample_opt_def)
  have n: "embedded_boot (sample_opt None) = None" "grub2_mbr (sample_opt None) = None"
    by (simp_all add: sample_opt_def)
  show ?thesis
    by (rule descriptor_area_end [OF sample_deps_ok sample_root sample_pt_size _ _ _ n]) (simp_all add: g volume_ready_def)
qed

theorem boot_catalog_valid_witness:
  "\<exists>tree t' bs (e :: FileEntry). fill_boot_catalog sample_deps (sample_opt (Some [0x64])) tree = Inr t'
     \<and> file_type e = Buffer boot_catalog_name bs \<and> length bs = 64
     \<and> le_val (bytes_at bs 38 2) = 4548 \<and> le_val (bytes_at bs 40 4) = 27"
proof -
  let ?tree = "DirectoryEntry 1 1 [] [] [new_buffered boot_catalog_name, buffer_file 0x64 [] 27] None 24"
  have f: "find_file [0x64] ?tree = Inr (Some ([], 1))" "find_file boot_catalog_name ?tree = Inr (Some ([], 0))"
      "eltorito_boot (eltorito_opt (sample_opt (Some [0x64]))) = Some [0x64]"
    by (simp_all add: find_file_def buffer_file_def new_buffered_def boot_catalog_name_def sample_opt_def
        fe_get_file_name_def ascii_def slash_def)
  have t: "file_type (file_at ([], 0) ?tree) = Buffer boot_catalog_name []" "fe_lba (file_at ([], 1) ?tree) = 27"
    by (simp_all add: file_at_def new_buffered_def buffer_file_def)
  obtain bs e where "fill_boot_catalog sample_deps (sample_opt (Some [0x64])) ?tree = Inr (update_file_at [] 0 e ?tree)"
      "file_type e = Buffer boot_catalog_name bs" "length bs = 64"
      "le_val (bytes_at bs 38 2) = 4548" "le_val (bytes_at bs 40 4) = 27"
    using boot_catalog_valid [OF sample_deps_ok(1) f(3,1,2) t(1)] t(2) by (auto simp: sample_opt_def)
  then show ?thesis by blast
qed

end
