(* ===== verification/Iso_Read.thy ===== *)
theory Iso_Read
  imports Iso_Image
begin

text \<open>
  A reader of ISO 9660 images, written from the formats and not from the program: ECMA-119 (descriptors and directory records), IEEE P1282 (Rock
  Ridge names) and the El Torito specification. It is the yardstick for what \<open>disk_image_generator/src/iso\<close> writes.

  \<^item> \<open>keeps\<close> says that two versions of a file agree outside some blocks; \<open>Iso_Roundtrip\<close> follows every write of the program with it.
  \<^item> \<open>iso_read\<close> finds a file by its path in the bytes of an image, \<open>el_torito\<close> the boot image; \<open>tree_read\<close> is the same look-up on the directory tree.
  \<^item> \<open>iso_read_tree\<close>: on an image whose blocks hold the extents and the contents of a tree, the two agree.
\<close>

section \<open>Block-wise writes\<close>

definition keeps :: "nat set \<Rightarrow> u8 list \<Rightarrow> u8 list \<Rightarrow> bool" where
  "keeps A xs ys \<longleftrightarrow> length xs \<le> length ys
     \<and> (\<forall>p n. p + n \<le> length xs \<and> (\<forall>l \<in> A. p + n \<le> l * 2048 \<or> (l + 1) * 2048 \<le> p) \<longrightarrow> bytes_at ys p n = bytes_at xs p n)"

lemma keeps_refl: "keeps {} xs xs"
  by (simp add: keeps_def)

lemma keeps_mono: "keeps A xs ys \<Longrightarrow> A \<subseteq> B \<Longrightarrow> keeps B xs ys"
  unfolding keeps_def by blast

lemma keeps_trans: "keeps A xs ys \<Longrightarrow> keeps B ys zs \<Longrightarrow> keeps (A \<union> B) xs zs"
  unfolding keeps_def by (smt (verit) UnCI le_trans)

lemma block_gap:
  fixes l m q n :: nat
  assumes "\<forall>k \<in> {l..<m}. q + n \<le> k * 2048 \<or> (k + 1) * 2048 \<le> q" "l < m" "0 < n"
  shows "q + n \<le> l * 2048 \<or> m * 2048 \<le> q"
proof (rule ccontr)
  assume "\<not> ?thesis"
  then have c: "l * 2048 < q + n" "q < m * 2048" by simp_all
  let ?k = "max l (q div 2048)"
  have "q div 2048 < m" using c(2) by (simp add: less_mult_imp_div_less)
  then have "?k \<in> {l..<m}" using assms(2) by simp
  then have "q + n \<le> ?k * 2048 \<or> (?k + 1) * 2048 \<le> q" using assms(1) by blast
  moreover have "q < (q div 2048 + 1) * 2048" using dividend_less_div_times [of 2048 q] by simp
  moreover have "q div 2048 * 2048 \<le> q" by simp
  ultimately show False using c(1) assms(3) by (auto simp: max_def split: if_splits)
qed

lemma keeps_overwrite:
  assumes "l * 2048 \<le> p" "p + length bs \<le> (l + m) * 2048"
  shows "keeps {l..<l + m} xs (overwrite xs p bs)"
  unfolding keeps_def
proof (intro conjI allI impI)
  show "length xs \<le> length (overwrite xs p bs)" by (simp add: overwrite_length)
  fix q n assume a: "q + n \<le> length xs \<and> (\<forall>k \<in> {l..<l + m}. q + n \<le> k * 2048 \<or> (k + 1) * 2048 \<le> q)"
  show "bytes_at (overwrite xs p bs) q n = bytes_at xs q n"
  proof (cases "n = 0 \<or> bs = []")
    case False
    then have "0 < m" using assms by (cases m; cases bs) auto
    then have "q + n \<le> l * 2048 \<or> (l + m) * 2048 \<le> q" using a False by (intro block_gap) simp_all
    then show ?thesis using a assms by (intro bytes_at_overwrite_other) auto
  qed (auto simp: bytes_at_def overwrite_def)
qed

lemma keeps_bytes_at:
  assumes "keeps A xs ys" "length (bytes_at xs p n) = n" "a * 2048 \<le> p" "p + n \<le> b * 2048" "A \<inter> {a..<b} = {}" 
  shows "bytes_at ys p n = bytes_at xs p n"
proof (cases "n = 0")
  case False
  then have "p + n \<le> length xs" using assms(2) by (simp add: bytes_at_def)
  moreover have "p + n \<le> l * 2048 \<or> (l + 1) * 2048 \<le> p" if "l \<in> A" for l
  proof (cases "l < a")
    case True
    then have "(l + 1) * 2048 \<le> a * 2048" by simp
    with assms(3) show ?thesis by linarith
  next
    case nl: False
    then have "b \<le> l" using assms(5) that by (metis atLeastLessThan_iff disjoint_iff not_less)
    then have "b * 2048 \<le> l * 2048" by simp
    with assms(4) show ?thesis by linarith
  qed
  ultimately show ?thesis using assms(1) unfolding keeps_def by blast
qed (simp add: bytes_at_def)

section \<open>A reader of the image\<close>

definition iso_block :: "u8 list \<Rightarrow> nat \<Rightarrow> u8 list" where
  "iso_block img l = bytes_at img (l * 2048) 2048"

function dir_records :: "u8 list \<Rightarrow> u8 list list" where
  "dir_records b =
     (if b = [] \<or> hd b = 0 then [] else take (unat (hd b)) b # dir_records (drop (unat (hd b)) b))"
  by auto
termination
proof (relation "measure length")
  fix b :: "u8 list"
  assume "\<not> (b = [] \<or> hd b = 0)"
  then show "(drop (unat (hd b)) b, b) \<in> measure length"
    by (simp add: unat_eq_0 [symmetric] del: unat_eq_0)
qed simp

declare dir_records.simps [simp del]

definition extent_records :: "u8 list \<Rightarrow> nat \<times> nat \<Rightarrow> u8 list list" where
  "extent_records img ext =
     concat (map (\<lambda>i. dir_records (iso_block img (fst ext + i))) [0..<(snd ext + 2047) div 2048])"

definition record_extent :: "u8 list \<Rightarrow> nat \<times> nat" where
  "record_extent r = (case read_record r of (_, lba, sz, _) \<Rightarrow> (lba, sz))"

definition is_dir_record :: "u8 list \<Rightarrow> bool" where
  "is_dir_record r \<longleftrightarrow> (case read_record r of (_, _, _, flags, _) \<Rightarrow> flags AND 2 \<noteq> 0)"

definition iso_find :: "u8 list \<Rightarrow> bool \<Rightarrow> str \<Rightarrow> nat \<times> nat \<Rightarrow> (nat \<times> nat) option" where
  "iso_find img dir name ext =
     map_option record_extent
       (find (\<lambda>r. is_dir_record r = dir \<and> read_nm (system_use r) = Some name) (extent_records img ext))"

primrec iso_walk :: "u8 list \<Rightarrow> str list \<Rightarrow> nat \<times> nat \<Rightarrow> (nat \<times> nat) option" where
  "iso_walk img [] ext = Some ext"
| "iso_walk img (name # names) ext = Option.bind (iso_find img True name ext) (iso_walk img names)"

definition iso_root :: "u8 list \<Rightarrow> (nat \<times> nat) option" where
  "iso_root img =
     (let b = iso_block img 16 in
      if take 7 b = [1] @ ascii ''CD001'' @ [1] then Some (record_extent (bytes_at b 156 34)) else None)"

definition iso_read :: "u8 list \<Rightarrow> str list \<Rightarrow> str \<Rightarrow> u8 list option" where
  "iso_read img names name =
     Option.bind (iso_root img) (\<lambda>root.
     Option.bind (iso_walk img names root) (\<lambda>ext.
     map_option (\<lambda>(l, n). bytes_at img (l * 2048) n) (iso_find img False name ext)))"

definition el_torito :: "u8 list \<Rightarrow> (nat \<times> nat) option" where
  "el_torito img =
     (let b = iso_block img 17; c = bytes_at img (le_val (bytes_at b 71 4) * 2048) 64 in
      if take 7 b = [0] @ ascii ''CD001'' @ [1] \<and> bytes_at b 7 23 = ascii ''EL TORITO SPECIFICATION''
        \<and> c ! 0 = 1 \<and> sum_list (words16 (take 32 c)) mod 2 ^ 16 = 0 \<and> c ! 30 = 0x55 \<and> c ! 31 = 0xAA \<and> c ! 32 = 0x88
      then Some (le_val (bytes_at c 40 4), le_val (bytes_at c 38 2)) else None)"

section \<open>The same on the tree\<close>

primrec tree_dir :: "str list \<Rightarrow> DirectoryEntry \<Rightarrow> DirectoryEntry option" where
  "tree_dir [] d = Some d"
| "tree_dir (name # names) d = Option.bind (find (\<lambda>c. de_get_file_name c = Inr name) (dir_childs d)) (tree_dir names)"

definition tree_file :: "str list \<Rightarrow> str \<Rightarrow> DirectoryEntry \<Rightarrow> FileEntry option" where
  "tree_file names name d =
     Option.bind (tree_dir names d) (\<lambda>x. find (\<lambda>e. fe_get_file_name e = Inr name) (files_childs x))"

definition tree_read :: "fs \<Rightarrow> DirectoryEntry \<Rightarrow> str list \<Rightarrow> str \<Rightarrow> u8 list option" where
  "tree_read fsys d names name = map_option (\<lambda>e. projr (open_content_provider fsys e)) (tree_file names name d)"

section \<open>Reading the records of one block\<close>

definition record_ok :: "u8 list \<Rightarrow> bool" where
  "record_ok r \<longleftrightarrow> r \<noteq> [] \<and> unat (hd r) = length r"

lemma dir_records_concat:
  assumes "\<forall>r \<in> set rs. record_ok r"
  shows "dir_records (concat rs @ replicate k 0) = rs"
  using assms
proof (induction rs)
  case Nil
  show ?case by (subst dir_records.simps) (cases k, simp_all)
next
  case (Cons r rs)
  then have r: "r \<noteq> []" "unat (hd r) = length r" by (simp_all add: record_ok_def)
  then have "hd r \<noteq> 0" by auto
  then show ?case using Cons r by (subst dir_records.simps) simp
qed

lemma find_list_all2:
  assumes "list_all2 (\<lambda>c r. P r = Q c \<and> F r = G c) cs rs"
  shows "map_option F (find P rs) = map_option G (find Q cs)"
  using assms by (induction cs rs rule: list_all2_induct) auto

lemma list_all2_member: "list_all2 R xs ys \<Longrightarrow> y \<in> set ys \<Longrightarrow> \<exists>x \<in> set xs. R x y"
  by (induction xs ys rule: list_all2_induct) auto

lemma find_member: "find P xs = Some x \<Longrightarrow> x \<in> set xs"
  by (auto simp: find_Some_iff)

lemma find_append_None: "\<forall>x \<in> set xs. \<not> P x \<Longrightarrow> find P (xs @ ys) = find P ys"
  by (induction xs) auto

lemma find_None: "\<forall>x \<in> set xs. \<not> P x \<Longrightarrow> find P xs = None"
  by (simp add: find_None_iff)

lemma find_append_None2: "\<forall>x \<in> set ys. \<not> P x \<Longrightarrow> find P (xs @ ys) = find P xs"
  by (induction xs) (auto simp: find_None)


section \<open>The records of a directory\<close>

definition file_nm :: "FileEntry \<Rightarrow> str" where
  "file_nm e = projr (fe_get_file_name e)"

text \<open>The records of an extent; each carries the time at which it was written.\<close>

definition sub_record :: "DirectoryEntry \<Rightarrow> u8 list \<Rightarrow> bool" where
  "sub_record c r \<longleftrightarrow> (\<exists>dt. r = dir_record c (dir_name c) 0 1 dt)"

definition leaf_record :: "FileEntry \<Rightarrow> u8 list \<Rightarrow> bool" where
  "leaf_record e r \<longleftrightarrow> (\<exists>dt. r = file_record e (file_nm e) dt)"

definition dot_record :: "nat set \<Rightarrow> u8 list \<Rightarrow> bool" where
  "dot_record T r \<longleftrightarrow> (\<exists>d ty dt. ty \<in> T \<and> r = dir_record d (dir_name d) ty 1 dt \<and> de_lba d < 2 ^ 32 \<and> (ty = 3 \<longrightarrow> continuation_area d \<noteq> None))"

definition extent_of :: "DirectoryEntry \<Rightarrow> u8 list list \<Rightarrow> bool" where
  "extent_of d rs \<longleftrightarrow> (\<exists>r1 r2 ds fs. rs = r1 # r2 # ds @ fs \<and> dot_record {1, 3} r1 \<and> dot_record {2} r2
     \<and> list_all2 sub_record (dir_childs d) ds \<and> list_all2 leaf_record (files_childs d) fs)"

definition extent_at :: "u8 list \<Rightarrow> DirectoryEntry \<Rightarrow> bool" where
  "extent_at img d \<longleftrightarrow> (\<exists>rs. extent_of d rs \<and> iso_block img (de_lba d) = padded (concat rs) \<and> length (iso_block img (de_lba d)) = 2048)"

text \<open>Names short enough for the one-byte record length, and records that fit one block.\<close>

definition name_short :: "str res \<Rightarrow> bool" where
  "name_short r \<longleftrightarrow> (case r of Inr name \<Rightarrow> length name \<le> 150 \<and> \<not> isl (convert_name name) | Inl _ \<Rightarrow> False)"

definition extent_ok :: "DirectoryEntry \<Rightarrow> bool" where
  "extent_ok d \<longleftrightarrow> name_short (de_get_file_name d) \<and> (\<forall>e \<in> set (files_childs d). name_short (fe_get_file_name e) \<and> fe_lba e < 2 ^ 32)
     \<and> (\<forall>c \<in> set (dir_childs d). name_short (de_get_file_name c))
     \<and> 191 + sum_list (map (\<lambda>x. dir_record_size (dir_name x) 0) (dir_childs d))
        + sum_list (map (\<lambda>e. file_record_size (file_nm e)) (files_childs d)) \<le> 2048
     \<and> de_lba d * 2048 + 8192 \<le> 2 ^ 31 \<and> path_table_index d < 2 ^ 31"

lemma name_shortD:
  "name_short (de_get_file_name d) \<Longrightarrow> de_get_file_name d = Inr (dir_name d)
     \<and> convert_name (dir_name d) = Inr (short_name (dir_name d)) \<and> length (dir_name d) \<le> 150"
  "name_short (fe_get_file_name e) \<Longrightarrow> fe_get_file_name e = Inr (file_nm e)
     \<and> convert_name (file_nm e) = Inr (short_name (file_nm e)) \<and> length (file_nm e) \<le> 150"
  by (auto simp: name_short_def dir_name_def file_nm_def split: sum.splits dest: convert_name_short)
    (metis convert_name_short sum.collapse(2))+

lemma name_short_ok: "name_short r \<Longrightarrow> name_ok r"
  by (auto simp: name_short_def name_ok_def split: sum.splits)

lemma extent_ok_blocks: "extent_ok d \<Longrightarrow> get_extent_size_in_lb d = Inr 1"
  by (rule extent_one_block) (auto simp: extent_ok_def file_nm_def intro: name_short_ok)

lemma sub_record_facts:
  assumes "sub_record c r" "name_short (de_get_file_name c)" "de_lba c < 2 ^ 32"
  shows "record_ok r" "length r = dir_record_size (dir_name c) 0" "is_dir_record r" "record_extent r = (de_lba c, 2048)"
    "read_nm (system_use r) = Some (dir_name c)"
proof -
  obtain dt where r: "r = dir_record c (dir_name c) 0 1 dt" using assms(1) by (auto simp: sub_record_def)
  have n: "length (dir_name c) \<le> 150" using name_shortD(1) [OF assms(2)] by simp
  show l: "length r = dir_record_size (dir_name c) 0" unfolding r by (rule dir_record_length) simp
  have b: "dir_record_size (dir_name c) 0 < 256"
    using n dir_ident_length [of 0 "dir_name c"] by (auto simp: dir_record_size_def pad_len_def)
  have "hd r = word_of_nat (dir_record_size (dir_name c) 0)" unfolding r by (simp add: dir_record_def Let_def)
  moreover have "r \<noteq> []" unfolding r by (simp add: dir_record_def Let_def)
  ultimately show "record_ok r" using l b by (simp add: record_ok_def unat_of_nat take_bit_eq_mod)
  have "read_record r = (dir_record_size (dir_name c) 0 mod 256, de_lba c, 1 * 2048, 2, dir_ident 0 (dir_name c))"
    unfolding r using assms(3) by (intro dir_record_read(1)) simp_all
  then show "is_dir_record r" "record_extent r = (de_lba c, 2048)" by (simp_all add: is_dir_record_def record_extent_def)
  show "read_nm (system_use r) = Some (dir_name c)"
    unfolding r using assms(3) n by (intro dir_record_read(2)) simp_all
qed

lemma leaf_record_facts:
  assumes "leaf_record e r" "name_short (fe_get_file_name e)" "fe_lba e < 2 ^ 32"
  shows "record_ok r" "length r = file_record_size (file_nm e)" "\<not> is_dir_record r"
    "record_extent r = (fe_lba e, as_u32 (fe_size e))" "read_nm (system_use r) = Some (file_nm e)"
proof -
  obtain dt where r: "r = file_record e (file_nm e) dt" using assms(1) by (auto simp: leaf_record_def)
  have n: "length (file_nm e) \<le> 150" using name_shortD(2) [OF assms(2)] by simp
  show l: "length r = file_record_size (file_nm e)" unfolding r file_record_size_def by (rule file_record_length)
  have b: "length r < 256"
    using n l short_name_length [of "file_nm e"] by (auto simp: file_record_size_def pad_len_def)
  have "hd r = word_of_nat (length r)" unfolding l unfolding r by (simp add: file_record_def file_record_size_def Let_def)
  moreover have "r \<noteq> []" unfolding r by (simp add: file_record_def Let_def)
  ultimately show "record_ok r" using b by (simp add: record_ok_def unat_of_nat take_bit_eq_mod)
  have "read_record r = (length r mod 256, fe_lba e, as_u32 (fe_size e), 0, short_name (file_nm e) @ ascii '';1'')"
    unfolding r using assms(3) n by (intro file_record_read(1)) simp_all
  then show "\<not> is_dir_record r" "record_extent r = (fe_lba e, as_u32 (fe_size e))" by (simp_all add: is_dir_record_def record_extent_def)
  show "read_nm (system_use r) = Some (file_nm e)"
    unfolding r using assms(3) n by (intro file_record_read(2)) simp_all
qed

lemma read_nm_susp:
  assumes "continuation_area d \<noteq> None"
  shows "read_nm (susp_bytes d n @ su) = read_nm su"
proof -
  obtain area where a: "continuation_area d = Some area" using assms by auto
  let ?ce = "ascii ''CE'' @ [0x1c, 1] @ both_bytes 4 (de_lba d + n) @ both_bytes 4 0 @ both_bytes 4 (as_u32 (length area))"
  have "read_nm (ascii ''SP'' @ [7, 1, 0xBE, 0xEF, 0] @ ?ce @ su) = read_nm (?ce @ su)"
    by (subst read_nm.simps) (simp add: ascii_def)
  moreover have "read_nm (?ce @ su) = read_nm su" by (subst read_nm.simps) (simp add: ascii_def)
  ultimately show ?thesis by (simp add: susp_bytes_def a)
qed

lemma dot_record_facts:
  assumes "dot_record T r" "T \<subseteq> {1, 2, 3}"
  shows "record_ok r" "is_dir_record r" "read_nm (system_use r) = None"
proof -
  obtain d ty dt where r: "r = dir_record d (dir_name d) ty 1 dt" "ty \<in> {1, 2, 3}" "de_lba d < 2 ^ 32" "ty = 3 \<longrightarrow> continuation_area d \<noteq> None"
    using assms by (auto simp: dot_record_def)
  have l: "length r = dir_record_size (dir_name d) ty" unfolding r(1) using r(4) by (intro dir_record_length) simp
  have b: "0 < dir_record_size (dir_name d) ty" "dir_record_size (dir_name d) ty < 256"
    using r(2) by (auto simp: dir_record_size_def dir_ident_def pad_len_def)
  have "hd r = word_of_nat (dir_record_size (dir_name d) ty)" unfolding r(1) by (simp add: dir_record_def Let_def)
  then show "record_ok r" using l b by (auto simp: record_ok_def unat_of_nat take_bit_eq_mod)
  have "read_record r = (dir_record_size (dir_name d) ty mod 256, de_lba d, 1 * 2048, 2, dir_ident ty (dir_name d))"
    unfolding r(1) using r(3) by (intro dir_record_read(1)) simp_all
  then show "is_dir_record r" by (simp add: is_dir_record_def)
  have s: "system_use r = dir_tail d (dir_name d) ty 1"
    using dir_ident_length [of ty "dir_name d"] r(3)
    by (intro read_record_shape(2) [where a = "de_lba d" and b = 2048 and fl = 2 and n = "dir_record_size (dir_name d) ty" and dt = dt
        and ident = "dir_ident ty (dir_name d)"]) (simp_all add: r(1) dir_record_def Let_def)
  have px: "read_nm (px_bytes m k) = None" for m k using read_nm_skip_px [of m k "[]"] by (simp add: read_nm.simps [of "[]"])
  show "read_nm (system_use r) = None"
    unfolding s using r(2,4) by (auto simp: dir_tail_def px read_nm_susp)
qed


section \<open>Reading the tree back\<close>

definition tree_ok :: "DirectoryEntry \<Rightarrow> bool" where
  "tree_ok d \<longleftrightarrow> (\<forall>x \<in> set (all_dirs d). extent_ok x)"

lemma tree_okD:
  assumes "tree_ok d"
  shows "extent_ok d" "c \<in> set (dir_childs d) \<Longrightarrow> tree_ok c" "e \<in> set (files_childs d) \<Longrightarrow> name_short (fe_get_file_name e) \<and> fe_lba e < 2 ^ 32"
    "de_lba d < 2 ^ 32" "name_short (de_get_file_name d)"
proof -
  show e: "extent_ok d" using assms all_dirs_self by (simp add: tree_ok_def)
  show "c \<in> set (dir_childs d) \<Longrightarrow> tree_ok c" using assms by (auto simp: tree_ok_def all_dirs_childs [of d])
  show "e \<in> set (files_childs d) \<Longrightarrow> name_short (fe_get_file_name e) \<and> fe_lba e < 2 ^ 32"
    "de_lba d < 2 ^ 32" "name_short (de_get_file_name d)"
    using e by (auto simp: extent_ok_def)
qed

lemma extent_at_records:
  assumes "extent_at img d" "tree_ok d"
  shows "extent_of d (extent_records img (de_lba d, 2048))"
proof -
  obtain rs where rs: "extent_of d rs" "iso_block img (de_lba d) = padded (concat rs)"
    using assms(1) by (auto simp: extent_at_def)
  then obtain r1 r2 ds fs where r: "rs = r1 # r2 # ds @ fs" "dot_record {1, 3} r1" "dot_record {2} r2"
      "list_all2 sub_record (dir_childs d) ds" "list_all2 leaf_record (files_childs d) fs"
    by (auto simp: extent_of_def)
  have "record_ok r" if "r \<in> set ds" for r
  proof -
    obtain c where "c \<in> set (dir_childs d)" "sub_record c r" using list_all2_member [OF r(4)] \<open>r \<in> set ds\<close> by blast
    then show ?thesis using tree_okD(2) [OF assms(2)] tree_okD(4,5) sub_record_facts(1) by blast
  qed
  moreover have "record_ok r" if "r \<in> set fs" for r
  proof -
    obtain e where "e \<in> set (files_childs d)" "leaf_record e r" using list_all2_member [OF r(5)] \<open>r \<in> set fs\<close> by blast
    then show ?thesis using tree_okD(3) [OF assms(2)] leaf_record_facts(1) by blast
  qed
  moreover have "record_ok r1" "record_ok r2" using dot_record_facts(1) r(2,3) by auto
  ultimately have "dir_records (iso_block img (de_lba d)) = rs"
    unfolding rs(2) padded_def by (intro dir_records_concat) (auto simp: r(1))
  then show ?thesis using rs(1) by (simp add: extent_records_def)
qed

lemma iso_find_dir:
  assumes "extent_at img d" "tree_ok d"
  shows "iso_find img True name (de_lba d, 2048)
    = map_option (\<lambda>c. (de_lba c, 2048)) (find (\<lambda>c. de_get_file_name c = Inr name) (dir_childs d))"
proof -
  let ?P = "\<lambda>r. is_dir_record r = True \<and> read_nm (system_use r) = Some name"
  obtain r1 r2 ds fs where r: "extent_records img (de_lba d, 2048) = r1 # r2 # ds @ fs" "dot_record {1, 3} r1" "dot_record {2} r2"
      "list_all2 sub_record (dir_childs d) ds" "list_all2 leaf_record (files_childs d) fs"
    using extent_at_records [OF assms] by (auto simp: extent_of_def)
  have "\<not> ?P r1" "\<not> ?P r2" using dot_record_facts(3) [OF r(2)] dot_record_facts(3) [OF r(3)] by auto
  moreover have "\<not> ?P r" if "r \<in> set fs" for r
  proof -
    obtain e where "e \<in> set (files_childs d)" "leaf_record e r" using list_all2_member [OF r(5)] \<open>r \<in> set fs\<close> by blast
    then show ?thesis using tree_okD(3) [OF assms(2)] leaf_record_facts(3) by blast
  qed
  ultimately have "find ?P (r1 # r2 # ds @ fs) = find ?P ds" by (auto simp: find_append_None2)
  moreover have "list_all2 (\<lambda>c r. ?P r = (de_get_file_name c = Inr name) \<and> record_extent r = (de_lba c, 2048)) (dir_childs d) ds"
    using r(4)
  proof (rule list.rel_mono_strong)
    fix c r assume "c \<in> set (dir_childs d)" "sub_record c r"
    then have "tree_ok c" "sub_record c r" using tree_okD(2) [OF assms(2)] by simp_all
    then show "?P r = (de_get_file_name c = Inr name) \<and> record_extent r = (de_lba c, 2048)"
      using sub_record_facts [of c r] tree_okD(4,5) [of c] name_shortD(1) [of c] by auto
  qed
  ultimately show ?thesis unfolding iso_find_def r(1) using find_list_all2 by simp
qed

lemma iso_find_file:
  assumes "extent_at img d" "tree_ok d"
  shows "iso_find img False name (de_lba d, 2048)
    = map_option (\<lambda>e. (fe_lba e, as_u32 (fe_size e))) (find (\<lambda>e. fe_get_file_name e = Inr name) (files_childs d))"
proof -
  let ?P = "\<lambda>r. is_dir_record r = False \<and> read_nm (system_use r) = Some name"
  obtain r1 r2 ds fs where r: "extent_records img (de_lba d, 2048) = r1 # r2 # ds @ fs" "dot_record {1, 3} r1" "dot_record {2} r2"
      "list_all2 sub_record (dir_childs d) ds" "list_all2 leaf_record (files_childs d) fs"
    using extent_at_records [OF assms] by (auto simp: extent_of_def)
  have "\<not> ?P r1" "\<not> ?P r2" using dot_record_facts(2) [OF r(2)] dot_record_facts(2) [OF r(3)] by auto
  moreover have "\<not> ?P r" if "r \<in> set ds" for r
  proof -
    obtain c where "c \<in> set (dir_childs d)" "sub_record c r" using list_all2_member [OF r(4)] \<open>r \<in> set ds\<close> by blast
    then show ?thesis using tree_okD(2) [OF assms(2)] tree_okD(4,5) sub_record_facts(3) by blast
  qed
  ultimately have "find ?P (r1 # r2 # ds @ fs) = find ?P fs" by (auto simp: find_append_None)
  moreover have "list_all2 (\<lambda>e r. ?P r = (fe_get_file_name e = Inr name) \<and> record_extent r = (fe_lba e, as_u32 (fe_size e))) (files_childs d) fs"
    using r(5)
  proof (rule list.rel_mono_strong)
    fix e r assume "e \<in> set (files_childs d)" "leaf_record e r"
    then have "name_short (fe_get_file_name e)" "fe_lba e < 2 ^ 32" "leaf_record e r" using tree_okD(3) [OF assms(2)] by simp_all
    then show "?P r = (fe_get_file_name e = Inr name) \<and> record_extent r = (fe_lba e, as_u32 (fe_size e))"
      using leaf_record_facts [of e r] name_shortD(2) [of e] by auto
  qed
  ultimately show ?thesis unfolding iso_find_def r(1) using find_list_all2 by simp
qed

lemma iso_walk_tree:
  assumes "\<forall>x \<in> set (all_dirs d). extent_at img x" "tree_ok d"
  shows "iso_walk img names (de_lba d, 2048) = map_option (\<lambda>x. (de_lba x, 2048)) (tree_dir names d)
    \<and> (\<forall>x. tree_dir names d = Some x \<longrightarrow> x \<in> set (all_dirs d) \<and> tree_ok x)"
  using assms
proof (induction names arbitrary: d)
  case Nil
  then show ?case using all_dirs_self by auto
next
  case (Cons name names)
  have "extent_at img d" using Cons.prems(1) all_dirs_self by blast
  note f = iso_find_dir [OF this Cons.prems(2), of name]
  show ?case
  proof (cases "find (\<lambda>c. de_get_file_name c = Inr name) (dir_childs d)")
    case (Some c)
    then have c: "c \<in> set (dir_childs d)" by (rule find_member)
    then have sub: "set (all_dirs c) \<subseteq> set (all_dirs d)" by (auto simp: all_dirs_childs [of d])
    then have "\<forall>x \<in> set (all_dirs c). extent_at img x" using Cons.prems(1) by blast
    from Cons.IH [OF this tree_okD(2) [OF Cons.prems(2) c]] Some f sub show ?thesis by auto
  qed (use f in simp)
qed

text \<open>What a reader finds, given the root record, the extents and the contents.\<close>

definition contents_at :: "fs \<Rightarrow> u8 list \<Rightarrow> DirectoryEntry \<Rightarrow> bool" where
  "contents_at fsys img d \<longleftrightarrow> (\<forall>e \<in> set (all_files d). \<exists>c. open_content_provider fsys e = Inr c \<and> as_u32 (fe_size e) = length c
     \<and> bytes_at img (fe_lba e * 2048) (length c) = c)"

lemma all_files_of_dirs: "x \<in> set (all_dirs d) \<Longrightarrow> e \<in> set (files_childs x) \<Longrightarrow> e \<in> set (all_files d)"
  by (induction d) auto

lemma iso_read_tree:
  assumes "iso_root img = Some (de_lba d, 2048)" "\<forall>x \<in> set (all_dirs d). extent_at img x" "tree_ok d" "contents_at fsys img d"
  shows "iso_read img names name = tree_read fsys d names name"
proof (cases "tree_dir names d")
  case None
  then show ?thesis using iso_walk_tree [OF assms(2,3), of names] assms(1) by (simp add: iso_read_def tree_read_def tree_file_def)
next
  case (Some x)
  then have x: "iso_walk img names (de_lba d, 2048) = Some (de_lba x, 2048)" "x \<in> set (all_dirs d)" "tree_ok x"
    using iso_walk_tree [OF assms(2,3), of names] by auto
  note f = iso_find_file [OF bspec [OF assms(2) x(2)] x(3), of name]
  have "bytes_at img (fe_lba e * 2048) (as_u32 (fe_size e)) = projr (open_content_provider fsys e)" if "e \<in> set (files_childs x)" for e
    using assms(4) all_files_of_dirs [OF x(2) that] unfolding contents_at_def by fastforce
  then show ?thesis
    using f x(1) Some assms(1)
    by (cases "find (\<lambda>e. fe_get_file_name e = Inr name) (files_childs x)")
      (auto simp: iso_read_def tree_read_def tree_file_def dest: find_member)
qed


section \<open>The descriptors and the boot catalog\<close>

lemma iso_root_found:
  assumes "iso_block img 16 = primary_volume d p s t 1 dt1 dt2" "de_lba d < 2 ^ 32"
  shows "iso_root img = Some (de_lba d, 2048)"
proof -
  let ?r = "dir_record d (dir_name d) 5 1 dt1"
  have "take 7 (primary_volume d p s t 1 dt1 dt2) = [1] @ ascii ''CD001'' @ [1]"
    by (simp add: primary_volume_def volume_header_def ascii_def)
  moreover have "bytes_at (primary_volume d p s t 1 dt1 dt2) 156 34 = ?r"
    by (simp add: primary_volume_def bytes_at_def dir_record_5_length)
  moreover have "read_record ?r = (dir_record_size (dir_name d) 5 mod 256, de_lba d, 1 * 2048, 2, dir_ident 5 (dir_name d))"
    using assms(2) by (intro dir_record_read(1)) simp_all
  ultimately show ?thesis using assms(1) by (simp add: iso_root_def Let_def record_extent_def)
qed

lemma el_torito_found:
  assumes "iso_block img 17 = boot_volume l" "l < 2 ^ 32" "bytes_at img (l * 2048) 64 = catalog_bytes False n k" "k < 2 ^ 32"
  shows "el_torito img = Some (k, n mod 2 ^ 16)"
proof -
  have "take 7 (boot_volume l) = [0] @ ascii ''CD001'' @ [1]" "bytes_at (boot_volume l) 7 23 = ascii ''EL TORITO SPECIFICATION''"
      "bytes_at (boot_volume l) 71 4 = le_bytes 4 l"
    by (simp_all add: boot_volume_def volume_header_def bytes_at_def ascii_def)
  moreover have "catalog_bytes False n k ! 0 = 1" "catalog_bytes False n k ! 30 = 0x55" "catalog_bytes False n k ! 31 = 0xAA"
      "catalog_bytes False n k ! 32 = 0x88"
    by (simp_all add: catalog_bytes_def nth_append)
  moreover have "bytes_at (catalog_bytes False n k) 38 2 = le_bytes 2 (as_u16 n)" "bytes_at (catalog_bytes False n k) 40 4 = le_bytes 4 k"
    by (simp_all add: catalog_bytes_def bytes_at_def)
  ultimately show ?thesis
    using assms catalog_bytes_sum [of False n k] by (simp add: el_torito_def Let_def le_val_le_bytes as_u16_def)
qed

end
