(* ===== verification/Iso_Roundtrip.thy ===== *)
theory Iso_Roundtrip
  imports Iso_Read
begin

text \<open>
  The image \<open>write_image\<close> (the second half of \<open>create_iso\<close>, \<open>disk_image_generator/src/iso/mod.rs\<close>) writes, read back with \<open>Iso_Read\<close>.

  The writer seeks back and forth between the extents of nested directories; \<open>filling\<close> describes a directory block that is being filled while the
  extents of its children go to blocks of their own. The result holds for trees of any depth whose directories fit one block each and whose names
  have at most 150 bytes, so that the one-byte record length is right.
\<close>

section \<open>Filling a block with records\<close>

definition filling :: "u8 list \<Rightarrow> nat \<Rightarrow> nat set \<Rightarrow> u8 list list \<Rightarrow> out_file \<Rightarrow> bool" where
  "filling xs l A rs g \<longleftrightarrow> fpos g = l * 2048 + length (concat rs) \<and> length (concat rs) \<le> 2048
     \<and> bytes_at (fbytes g) (l * 2048) (length (concat rs)) = concat rs \<and> keeps (insert l A) xs (fbytes g)"

lemma keeps_block: "l * 2048 \<le> p \<Longrightarrow> p + length bs \<le> (l + 1) * 2048 \<Longrightarrow> keeps {l} xs (overwrite xs p bs)"
  using keeps_overwrite [of l p bs 1 xs] by simp

lemma filling_keeps_put:
  assumes "filling xs l A rs g" "length (concat rs) + length r \<le> 2048"
  shows "keeps {l} (fbytes g) (fbytes (put r (tick g)))"
  using assms by (simp add: filling_def keeps_block)

lemma filling_put:
  assumes "filling xs l A rs g" "length (concat rs) + length r \<le> 2048"
  shows "filling xs l A (rs @ [r]) (put r (tick g))"
proof -
  have g: "fpos g = l * 2048 + length (concat rs)" "bytes_at (fbytes g) (l * 2048) (length (concat rs)) = concat rs"
      "keeps (insert l A) xs (fbytes g)"
    using assms(1) by (auto simp: filling_def)
  have ow: "fbytes g = overwrite (fbytes g) (l * 2048) (concat rs)"
  proof (cases "concat rs = []")
    case False
    let ?k = "l * 2048" and ?n = "length (concat rs)"
    have "?k + ?n \<le> length (fbytes g)"
    proof -
      have "length (bytes_at (fbytes g) ?k ?n) = ?n" using g(2) by simp
      moreover have "0 < ?n" using False by (simp only: length_greater_0_conv) simp
      ultimately show ?thesis unfolding bytes_at_def length_take length_drop by linarith
    qed
    moreover have "fbytes g = take ?k (fbytes g) @ bytes_at (fbytes g) ?k ?n @ drop (?k + ?n) (fbytes g)"
      using append_take_drop_id [of ?n "drop ?k (fbytes g)"] append_take_drop_id [of ?k "fbytes g"]
      by (simp add: bytes_at_def add.commute)
    ultimately show ?thesis using False g(2) by (simp add: overwrite_def)
  qed (simp add: overwrite_def)
  have "fbytes (put r (tick g)) = overwrite (fbytes g) (l * 2048) (concat rs @ r)"
    by (subst overwrite_append [symmetric]) (simp add: g(1) ow [symmetric])
  then have "bytes_at (fbytes (put r (tick g))) (l * 2048) (length (concat (rs @ [r]))) = concat (rs @ [r])"
    using bytes_at_overwrite_same [of "fbytes g" "l * 2048" "concat rs @ r"] by simp
  moreover have "keeps (insert l A \<union> {l}) xs (fbytes (put r (tick g)))"
    by (rule keeps_trans [OF g(3) filling_keeps_put [OF assms]])
  ultimately show ?thesis using g(1) assms(2) by (simp add: filling_def insert_absorb)
qed

lemma filling_other:
  assumes "filling xs l A rs g" "keeps B (fbytes g) (fbytes h)" "fpos h = fpos g" "l \<notin> B"
  shows "filling xs l (A \<union> B) rs h"
proof -
  have "bytes_at (fbytes h) (l * 2048) (length (concat rs)) = bytes_at (fbytes g) (l * 2048) (length (concat rs))"
    using assms by (intro keeps_bytes_at [OF assms(2), of _ _ l "l + 1"]) (auto simp: filling_def)
  moreover have "keeps (insert l A \<union> B) xs (fbytes h)" using keeps_trans [OF _ assms(2), of "insert l A" xs] assms(1) by (simp add: filling_def)
  ultimately show ?thesis using assms(1,3) by (simp add: filling_def)
qed

lemma extent_at_keeps:
  assumes "keeps B xs ys" "de_lba x \<notin> B" "extent_at xs x"
  shows "extent_at ys x"
proof -
  have "length (bytes_at xs (de_lba x * 2048) 2048) = 2048" using assms(3) by (auto simp: extent_at_def iso_block_def)
  then have "iso_block ys (de_lba x) = iso_block xs (de_lba x)"
    unfolding iso_block_def using assms(2) by (intro keeps_bytes_at [OF assms(1), of _ _ "de_lba x" "de_lba x + 1"]) auto
  then show ?thesis using assms(3) by (simp add: extent_at_def)
qed

section \<open>Writing the records\<close>

lemma filling_gap:
  assumes "filling xs l A rs g" "length (concat rs) + n \<le> 2048" "0 < n"
  shows "record_gap (fpos g) n = 0"
proof (rule record_gap_room)
  have "fpos g mod 2048 = length (concat rs)" using assms by (simp add: filling_def)
  then show "fpos g mod 2048 + n \<le> 2048" using assms(2) by simp
qed (rule assms(3))

lemma filling_file:
  assumes "byteorder_ok dp" "filling xs l A rs g" "l * 2048 + 8192 \<le> 2 ^ 31"
    and "name_short (fe_get_file_name e)" "fe_lba e < 2 ^ 32" "length (concat rs) + file_record_size (file_nm e) \<le> 2048"
  shows "\<exists>r. fe_write_entry dp e g = Inr (put r (tick g)) \<and> leaf_record e r \<and> length r = file_record_size (file_nm e)"
proof -
  let ?r = "file_record e (file_nm e) (now dp (ticks g))"
  have l: "length ?r = file_record_size (file_nm e)" unfolding file_record_size_def by (rule file_record_length)
  have p: "fpos g + 4096 \<le> 2 ^ 31" using assms(2,3) by (simp add: filling_def)
  have s: "0 < file_record_size (file_nm e)" by (simp add: file_record_size_def)
  have n: "length (file_nm e) \<le> 250" using name_shortD(2) [OF assms(4)] by simp
  note w = fe_write_entry_eq(2) [OF assms(1) _ _ n assms(5) p, unfolded l filling_gap [OF assms(2,6) s]]
  have "fe_write_entry dp e g = Inr (put ?r (tick g))"
    using w name_shortD(2) [OF assms(4)] by simp
  then show ?thesis using l by (auto simp: leaf_record_def)
qed

lemma filling_dir:
  assumes "byteorder_ok dp" "filling xs l A rs g" "l * 2048 + 8192 \<le> 2 ^ 31"
    and "extent_ok d" "ty \<in> {0, 1, 2, 3}" "ty = 3 \<longrightarrow> continuation_area d \<noteq> None"
    and "length (concat rs) + dir_record_size (dir_name d) ty \<le> 2048"
  shows "\<exists>dt. de_write_entry dp ty d g = Inr (put (dir_record d (dir_name d) ty 1 dt) (tick g))
    \<and> length (dir_record d (dir_name d) ty 1 dt) = dir_record_size (dir_name d) ty"
proof -
  let ?r = "dir_record d (dir_name d) ty 1 (now dp (ticks g))"
  have p: "fpos g + 4096 \<le> 2 ^ 31" using assms(2,3) by (simp add: filling_def)
  have s: "0 < dir_record_size (dir_name d) ty" by (simp add: dir_record_size_def)
  have d: "name_short (de_get_file_name d)" "de_lba d * 2048 + 8192 \<le> 2 ^ 31" "path_table_index d < 2 ^ 31"
    using assms(4) by (simp_all add: extent_ok_def)
  have n: "de_get_file_name d = Inr (dir_name d)" "convert_name (dir_name d) = Inr (short_name (dir_name d))" "length (dir_name d) \<le> 250"
    using name_shortD(1) [OF d(1)] by simp_all
  have "de_write_entry dp ty d g = Inr (put (replicate (record_gap (fpos g) (dir_record_size (dir_name d) ty)) 0 @ ?r) (tick g))"
    using d assms(5,6) by (intro de_write_entry_eq [OF assms(1) n _ p extent_ok_blocks [OF assms(4)]]) auto
  then have "de_write_entry dp ty d g = Inr (put ?r (tick g))" using filling_gap [OF assms(2,7) s] by simp
  moreover have "length ?r = dir_record_size (dir_name d) ty" using assms(6) by (intro dir_record_length) simp
  ultimately show ?thesis by blast
qed

lemma filling_files:
  assumes "byteorder_ok dp" "l * 2048 + 8192 \<le> 2 ^ 31"
    and "filling xs l A rs g" "\<forall>e \<in> set es. name_short (fe_get_file_name e) \<and> fe_lba e < 2 ^ 32"
    and "length (concat rs) + sum_list (map (\<lambda>e. file_record_size (file_nm e)) es) \<le> 2048"
  shows "\<exists>h rs'. fold_r (fe_write_entry dp) es g = Inr h \<and> filling xs l A (rs @ rs') h \<and> list_all2 leaf_record es rs'
    \<and> keeps {l} (fbytes g) (fbytes h)"
  using assms(3-)
proof (induction es arbitrary: rs g)
  case Nil
  then show ?case by (intro exI [of _ g] exI [of _ "[]"]) (auto intro: keeps_mono [OF keeps_refl])
next
  case (Cons e es)
  obtain r where r: "fe_write_entry dp e g = Inr (put r (tick g))" "leaf_record e r" "length r = file_record_size (file_nm e)"
    using filling_file [OF assms(1) Cons.prems(1) assms(2), of e] Cons.prems(2,3) by auto
  have fit: "length (concat rs) + length r \<le> 2048" using Cons.prems(3) r(3) by simp
  have sum: "length (concat (rs @ [r])) + sum_list (map (\<lambda>e. file_record_size (file_nm e)) es) \<le> 2048"
    using Cons.prems(3) r(3) by simp
  have ok: "\<forall>e \<in> set es. name_short (fe_get_file_name e) \<and> fe_lba e < 2 ^ 32" using Cons.prems(2) by simp
  obtain h rs' where h: "fold_r (fe_write_entry dp) es (put r (tick g)) = Inr h" "filling xs l A ((rs @ [r]) @ rs') h"
      "list_all2 leaf_record es rs'" "keeps {l} (fbytes (put r (tick g))) (fbytes h)"
    using Cons.IH [OF filling_put [OF Cons.prems(1) fit] ok sum] by blast
  have "keeps {l} (fbytes g) (fbytes h)"
    using keeps_trans [OF filling_keeps_put [OF Cons.prems(1) fit] h(4)] by simp
  then show ?case using r h by (intro exI [of _ h] exI [of _ "r # rs'"]) simp
qed


section \<open>Writing the extents\<close>

definition own_blocks :: "DirectoryEntry \<Rightarrow> nat list" where
  "own_blocks d = de_lba d # (if continuation_area d = None then [] else [de_lba d + 1])"

definition dir_blocks :: "DirectoryEntry \<Rightarrow> nat list" where
  "dir_blocks d = concat (map own_blocks (all_dirs d))"

lemma dir_blocks_childs: "dir_blocks d = own_blocks d @ concat (map dir_blocks (dir_childs d))"
  by (simp add: dir_blocks_def [abs_def] all_dirs_childs [of d] map_concat comp_def concat_map_concat)

lemma de_lba_blocks: "x \<in> set (all_dirs d) \<Longrightarrow> de_lba x \<in> set (dir_blocks d)"
  by (force simp: dir_blocks_def own_blocks_def)

text \<open>What writing the extents of a tree leaves behind.\<close>

definition extents_written :: "DirectoryEntry \<Rightarrow> out_file \<Rightarrow> out_file \<Rightarrow> bool" where
  "extents_written d f f' \<longleftrightarrow> fpos f' = fpos f \<and> keeps (set (dir_blocks d)) (fbytes f) (fbytes f')
     \<and> (\<forall>x \<in> set (all_dirs d). extent_at (fbytes f') x)"

lemma extent_ok_fits:
  assumes "extent_ok d"
  shows "191 + sum_list (map (\<lambda>x. dir_record_size (dir_name x) 0) (dir_childs d))
        + sum_list (map (\<lambda>e. file_record_size (file_nm e)) (files_childs d)) \<le> 2048"
  using assms by (simp add: extent_ok_def)

lemma filling_childs:
  assumes "byteorder_ok dp" "l * 2048 + 8192 \<le> 2 ^ 31"
    and "\<And>c f. c \<in> set ds \<Longrightarrow> \<exists>f'. write_extent dp c po f = Inr f' \<and> extents_written c f f'"
    and "filling xs l A rs g" "\<forall>c \<in> set ds. extent_ok c" "distinct (l # concat (map dir_blocks ds))"
    and "length (concat rs) + sum_list (map (\<lambda>c. dir_record_size (dir_name c) 0) ds) \<le> 2048"
  shows "\<exists>h rs'. fold_r (\<lambda>child g. bind_r (write_one dp child g) (write_extent dp child po)) ds g = Inr h
    \<and> filling xs l (A \<union> set (concat (map dir_blocks ds))) (rs @ rs') h \<and> list_all2 sub_record ds rs'
    \<and> keeps (insert l (set (concat (map dir_blocks ds)))) (fbytes g) (fbytes h)
    \<and> (\<forall>c \<in> set ds. \<forall>x \<in> set (all_dirs c). extent_at (fbytes h) x)"
  using assms(3-)
proof (induction ds arbitrary: A rs g)
  case Nil
  then show ?case by (intro exI [of _ g] exI [of _ "[]"]) (auto intro: keeps_mono [OF keeps_refl])
next
  case (Cons c ds)
  let ?B = "set (dir_blocks c)" and ?C = "set (concat (map dir_blocks ds))"
  obtain r where r: "write_one dp c g = Inr (put r (tick g))" "sub_record c r" "length r = dir_record_size (dir_name c) 0"
    using filling_dir [OF assms(1) Cons.prems(2) assms(2), of c 0] Cons.prems(3,5) by (auto simp: write_one_def sub_record_def)
  have fit: "length (concat rs) + length r \<le> 2048" using Cons.prems(5) r(3) by simp
  let ?g1 = "put r (tick g)"
  obtain g2 where g2: "write_extent dp c po ?g1 = Inr g2" "fpos g2 = fpos ?g1" "keeps ?B (fbytes ?g1) (fbytes g2)"
      "\<forall>x \<in> set (all_dirs c). extent_at (fbytes g2) x"
    using Cons.prems(1) [of c ?g1] by (auto simp: extents_written_def simp del: put_simps)
  have l: "l \<notin> ?B" "l \<notin> ?C" "?B \<inter> ?C = {}" using Cons.prems(4) by auto
  have fg2: "filling xs l (A \<union> ?B) (rs @ [r]) g2"
    by (rule filling_other [OF filling_put [OF Cons.prems(2) fit] g2(3,2) l(1)])
  have ih: "\<exists>h rs'. fold_r (\<lambda>child g. bind_r (write_one dp child g) (write_extent dp child po)) ds g2 = Inr h
    \<and> filling xs l ((A \<union> ?B) \<union> ?C) ((rs @ [r]) @ rs') h \<and> list_all2 sub_record ds rs'
    \<and> keeps (insert l ?C) (fbytes g2) (fbytes h) \<and> (\<forall>c \<in> set ds. \<forall>x \<in> set (all_dirs c). extent_at (fbytes h) x)"
    using Cons.prems r(3) by (intro Cons.IH [OF _ fg2]) auto
  then obtain h rs' where h: "fold_r (\<lambda>child g. bind_r (write_one dp child g) (write_extent dp child po)) ds g2 = Inr h"
      "filling xs l ((A \<union> ?B) \<union> ?C) ((rs @ [r]) @ rs') h" "list_all2 sub_record ds rs'"
      "keeps (insert l ?C) (fbytes g2) (fbytes h)" "\<forall>c \<in> set ds. \<forall>x \<in> set (all_dirs c). extent_at (fbytes h) x"
    by blast
  have "extent_at (fbytes h) x" if "x \<in> set (all_dirs c)" for x
  proof -
    have "de_lba x \<notin> insert l ?C" using de_lba_blocks [OF that] l by auto
    then show ?thesis using extent_at_keeps [OF h(4)] g2(4) that by blast
  qed
  moreover have "keeps (insert l (?B \<union> ?C)) (fbytes g) (fbytes h)"
    using keeps_trans [OF keeps_trans [OF filling_keeps_put [OF Cons.prems(2) fit] g2(3)] h(4)]
    by (rule keeps_mono) auto
  ultimately show ?case
    using r g2(1) h by (intro exI [of _ h] exI [of _ "r # rs'"]) (auto simp: Un_assoc)
qed


lemma empty_parent_ok: "l * 2048 + 8192 \<le> 2 ^ 31 \<Longrightarrow> extent_ok (empty_parent l)"
proof -
  assume "l * 2048 + 8192 \<le> 2 ^ 31"
  moreover have "convert_name (ascii ''dummy'') = Inr (short_name (ascii ''dummy''))"
    by (rule convert_name_ascii) (simp add: ascii_def)
  ultimately show ?thesis
    by (simp add: extent_ok_def empty_parent_def name_short_def de_get_file_name_def path_name_def file_name_def)
qed

lemma write_continuation_kept:
  assumes "extent_ok d" "\<forall>a. continuation_area d = Some a \<longrightarrow> length a \<le> 2048"
  shows "\<exists>ys. write_continuation_area d f = Inr (f\<lparr>fbytes := ys\<rparr>) \<and> keeps (set (tl (own_blocks d))) (fbytes f) ys"
proof (cases "continuation_area d")
  case None
  then show ?thesis by (intro exI [of _ "fbytes f"]) (simp add: write_continuation_area_def own_blocks_def keeps_refl)
next
  case (Some a)
  let ?p = "(de_lba d + 1) * 2048"
  have b: "de_lba d * 2048 + 8192 \<le> 2 ^ 31" using assms(1) by (simp add: extent_ok_def)
  have la: "length a \<le> 2048 * 1" using assms(2) Some by simp
  let ?f2 = "put a (f\<lparr>fpos := ?p\<rparr>)"
  have p: "pad_to_block ?f2 = Inr (put (replicate (room (fpos ?f2)) 0) ?f2)"
    using b la by (intro pad_to_block_eq) simp
  have r: "room (fpos ?f2) = room (length a)" using room_block [of "de_lba d + 1" "length a"] by simp
  have "write_continuation_area d f = Inr (f\<lparr>fbytes := overwrite (fbytes f) ?p (padded a)\<rparr>)"
    using b p [unfolded r] extent_ok_blocks [OF assms(1)] Some
    by (simp add: write_continuation_area_def Let_def chk_ok seek_start_def put_def padded_def overwrite_append)
  moreover have "keeps {de_lba d + 1} (fbytes f) (overwrite (fbytes f) ?p (padded a))"
    using padded_fits [OF la] by (intro keeps_block) simp_all
  ultimately show ?thesis using Some by (auto simp: own_blocks_def)
qed

lemma filling_padded:
  assumes "filling xs l A rs g" "concat rs \<noteq> []" "l * 2048 + 8192 \<le> 2 ^ 31"
  shows "\<exists>h. pad_to_block g = Inr h \<and> iso_block (fbytes h) l = padded (concat rs) \<and> length (padded (concat rs)) = 2048
    \<and> keeps {l} (fbytes g) (fbytes h)"
proof -
  let ?n = "length (concat rs)" and ?z = "replicate (room (length (concat rs))) (0 :: u8)"
  have g: "fpos g = l * 2048 + ?n" "?n \<le> 2048" using assms(1) by (simp_all add: filling_def)
  have n: "0 < ?n" using assms(2) by (simp only: length_greater_0_conv) simp
  have "round_up 2048 m = 2048" if "0 < m" "m \<le> 2048" for m :: nat using that by (simp add: round_up_def)
  from this [OF n g(2)] have "round_up 2048 ?n = 2048" .
  then have len: "length (padded (concat rs)) = 2048" by (simp only: padded_length)
  then have "?n + length ?z \<le> 2048" by (simp add: padded_def)
  note f = filling_put [OF assms(1) this] and k = filling_keeps_put [OF assms(1) this]
  have "pad_to_block g = Inr (put ?z g)" using g assms(3) room_block [of l ?n] by (subst pad_to_block_eq) simp_all
  moreover have "bytes_at (fbytes (put ?z g)) (l * 2048) 2048 = padded (concat rs)"
    using f len by (auto simp: filling_def padded_def)
  ultimately show ?thesis using len k by (intro exI [of _ "put ?z g"]) (simp add: iso_block_def)
qed

definition parent_ok :: "DirectoryEntry option \<Rightarrow> DirectoryEntry \<Rightarrow> bool" where
  "parent_ok po d \<longleftrightarrow> (case po of None \<Rightarrow> continuation_area d \<noteq> None | Some q \<Rightarrow> extent_ok q)"

lemma filling_start: "filling xs l {} [] (f\<lparr>fbytes := xs, fpos := l * 2048\<rparr>)"
  by (simp add: filling_def bytes_at_def) (rule keeps_mono [OF keeps_refl], simp)

lemma write_dots:
  assumes "byteorder_ok dp" "extent_ok d" "parent_ok po d"
  shows "\<exists>r1 r2 g. bind_r (write_as_current dp d (if po = None then 3 else 1) (f\<lparr>fpos := de_lba d * 2048\<rparr>))
      (write_as_parent dp (case po of Some q \<Rightarrow> q | None \<Rightarrow> empty_parent (de_lba d))) = Inr g
    \<and> dot_record {1, 3} r1 \<and> dot_record {2} r2 \<and> filling (fbytes f) (de_lba d) {} [r1, r2] g \<and> length (concat [r1, r2]) \<le> 191"
proof -
  let ?l = "de_lba d"
  define ty :: nat where "ty = (if po = None then 3 else 1)"
  let ?q = "case po of Some q \<Rightarrow> q | None \<Rightarrow> empty_parent (de_lba d)"
  have b: "?l * 2048 + 8192 \<le> 2 ^ 31" using assms(2) by (simp add: extent_ok_def)
  have q: "extent_ok ?q" using assms(3) empty_parent_ok [OF b] by (auto simp: parent_ok_def split: option.splits)
  have sz: "dir_record_size n 3 = 113" "dir_record_size n 1 = 78" "dir_record_size n 2 = 78" for n
    by (simp_all add: dir_record_size_def dir_ident_def pad_len_def)
  have s: "filling (fbytes f) ?l {} [] (f\<lparr>fpos := ?l * 2048\<rparr>)" using filling_start [of "fbytes f" ?l f] by simp
  have ca: "ty = 3 \<longrightarrow> continuation_area d \<noteq> None" "ty \<in> {0, 1, 2, 3}" "ty \<in> {1, 3}" "dir_record_size (dir_name d) ty \<le> 113"
    using assms(3) sz [of "dir_name d"] by (auto simp: ty_def parent_ok_def split: option.splits)
  obtain dt1 where r1: "de_write_entry dp ty d (f\<lparr>fpos := ?l * 2048\<rparr>) = Inr (put (dir_record d (dir_name d) ty 1 dt1) (tick (f\<lparr>fpos := ?l * 2048\<rparr>)))"
      "length (dir_record d (dir_name d) ty 1 dt1) = dir_record_size (dir_name d) ty"
    using filling_dir [OF assms(1) s b assms(2) ca(2,1)] ca(4) by auto
  let ?r1 = "dir_record d (dir_name d) ty 1 dt1" and ?g1 = "put (dir_record d (dir_name d) ty 1 dt1) (tick (f\<lparr>fpos := ?l * 2048\<rparr>))"
  have l1: "length ?r1 \<le> 113" unfolding r1(2) by (rule ca(4))
  have s1: "filling (fbytes f) ?l {} [?r1] ?g1" using filling_put [OF s, of ?r1] l1 by simp
  obtain dt2 where r2: "de_write_entry dp 2 ?q ?g1 = Inr (put (dir_record ?q (dir_name ?q) 2 1 dt2) (tick ?g1))"
      "length (dir_record ?q (dir_name ?q) 2 1 dt2) = dir_record_size (dir_name ?q) 2"
    using filling_dir [OF assms(1) s1 b q, of 2] l1 by (auto simp: sz)
  let ?r2 = "dir_record ?q (dir_name ?q) 2 1 dt2"
  have "filling (fbytes f) ?l {} [?r1, ?r2] (put ?r2 (tick ?g1))" using filling_put [OF s1, of ?r2] l1 r2(2) by (simp add: sz)
  moreover have "dot_record {1, 3} ?r1"
    unfolding dot_record_def using ca(1,3) b by (intro exI [of _ d] exI [of _ ty] exI [of _ dt1]) auto
  moreover have "dot_record {2} ?r2"
    unfolding dot_record_def using q by (intro exI [of _ ?q] exI [of _ 2] exI [of _ dt2]) (auto simp: extent_ok_def)
  moreover have "length (concat [?r1, ?r2]) \<le> 191" using l1 r2(2) by (simp add: sz)
  ultimately show ?thesis using r1(1) r2(1)
    by (intro exI [of _ ?r1] exI [of _ ?r2] exI [of _ "put ?r2 (tick ?g1)"]) (simp add: write_as_current_def write_as_parent_def ty_def)
qed


lemma sub_records_length:
  assumes "list_all2 sub_record cs rs"
  shows "length (concat rs) = sum_list (map (\<lambda>c. dir_record_size (dir_name c) 0) cs)"
proof -
  have "list_all2 (\<lambda>c r. length r = dir_record_size (dir_name c) 0) cs rs"
    using assms by (rule list.rel_mono_strong) (auto simp: sub_record_def dir_record_length)
  then have "map length rs = map (\<lambda>c. dir_record_size (dir_name c) 0) cs" by (induction rule: list_all2_induct) auto
  then show ?thesis by (simp add: length_concat)
qed

text \<open>\<open>write_extent\<close> up to the end of the directory's block, and the rest.\<close>

definition write_own_block :: "deps \<Rightarrow> DirectoryEntry \<Rightarrow> DirectoryEntry option \<Rightarrow> out_file \<Rightarrow> out_file res" where
  "write_own_block dp d po f =
     bind_r (bind_r (write_as_current dp d (if po = None then 3 else 1) (f\<lparr>fpos := de_lba d * 2048\<rparr>))
       (write_as_parent dp (case po of Some q \<Rightarrow> q | None \<Rightarrow> empty_parent (de_lba d)))) (\<lambda>f3.
     bind_r (fold_r (\<lambda>child g. bind_r (write_one dp child g) (write_extent dp child (Some d))) (dir_childs d) f3) (\<lambda>f4.
     bind_r (fold_r (fe_write_entry dp) (files_childs d) f4) pad_to_block))"

lemma write_extent_eq:
  assumes "de_lba d * 2048 < 2 ^ 32"
  shows "write_extent dp d po f = bind_r (write_own_block dp d po f) (\<lambda>f6. bind_r (write_continuation_area d f6) (seek_start (fpos f)))"
proof (cases d)
  case (DirectoryEntry i j p cs es ca l)
  then have d: "de_lba d = l" "dir_childs d = cs" "files_childs d = es" by simp_all
  show ?thesis using assms unfolding write_own_block_def bind_r_assoc d by (simp add: DirectoryEntry Let_def chk_ok seek_start_def)
qed

lemma own_block_written:
  assumes "byteorder_ok dp" "tree_ok d" "distinct (dir_blocks d)" "parent_ok po d"
    and "\<forall>c \<in> set (dir_childs d). \<forall>f. \<exists>f'. write_extent dp c (Some d) f = Inr f' \<and> extents_written c f f'"
  shows "\<exists>g. write_own_block dp d po f = Inr g \<and> extent_at (fbytes g) d
    \<and> keeps (insert (de_lba d) (set (concat (map dir_blocks (dir_childs d))))) (fbytes f) (fbytes g)
    \<and> (\<forall>c \<in> set (dir_childs d). \<forall>x \<in> set (all_dirs c). extent_at (fbytes g) x)"
proof -
  let ?l = "de_lba d" and ?C = "set (concat (map dir_blocks (dir_childs d)))"
  have e: "extent_ok d" "\<forall>c \<in> set (dir_childs d). extent_ok c" "\<forall>e \<in> set (files_childs d). name_short (fe_get_file_name e) \<and> fe_lba e < 2 ^ 32"
    using tree_okD(1,3) [OF assms(2)] tree_okD(1) [OF tree_okD(2) [OF assms(2)]] by auto
  have b: "?l * 2048 + 8192 \<le> 2 ^ 31" using e(1) by (simp add: extent_ok_def)
  note fits = extent_ok_fits [OF e(1)]
  have dl: "distinct (?l # concat (map dir_blocks (dir_childs d)))"
    using assms(3) unfolding dir_blocks_childs [of d] by (auto simp: own_blocks_def)
  obtain r1 r2 g3 where g3: "bind_r (write_as_current dp d (if po = None then 3 else 1) (f\<lparr>fpos := ?l * 2048\<rparr>))
      (write_as_parent dp (case po of Some q \<Rightarrow> q | None \<Rightarrow> empty_parent ?l)) = Inr g3"
      "dot_record {1, 3} r1" "dot_record {2} r2" "filling (fbytes f) ?l {} [r1, r2] g3" "length (concat [r1, r2]) \<le> 191"
    using write_dots [OF assms(1) e(1) assms(4), of f] by (elim exE conjE) (rule that)
  have "length (concat [r1, r2]) + sum_list (map (\<lambda>c. dir_record_size (dir_name c) 0) (dir_childs d)) \<le> 2048"
    using fits g3(5) by linarith
  from filling_childs [OF assms(1) b bspec [OF assms(5), THEN spec] g3(4) e(2) dl this]
  obtain g4 ds where g4: "fold_r (\<lambda>child g. bind_r (write_one dp child g) (write_extent dp child (Some d))) (dir_childs d) g3 = Inr g4"
      "filling (fbytes f) ?l ?C ([r1, r2] @ ds) g4" "list_all2 sub_record (dir_childs d) ds"
      "\<forall>c \<in> set (dir_childs d). \<forall>x \<in> set (all_dirs c). extent_at (fbytes g4) x"
    by auto
  have "length (concat ([r1, r2] @ ds)) + sum_list (map (\<lambda>e. file_record_size (file_nm e)) (files_childs d)) \<le> 2048"
    using fits g3(5) sub_records_length [OF g4(3)] by simp
  from filling_files [OF assms(1) b g4(2) e(3) this]
  obtain g5 fs where g5: "fold_r (fe_write_entry dp) (files_childs d) g4 = Inr g5"
      "filling (fbytes f) ?l ?C (([r1, r2] @ ds) @ fs) g5" "list_all2 leaf_record (files_childs d) fs" "keeps {?l} (fbytes g4) (fbytes g5)"
    by blast
  let ?rs = "([r1, r2] @ ds) @ fs"
  have "concat ?rs \<noteq> []" using dot_record_facts(1) [OF g3(2)] by (auto simp: record_ok_def)
  from filling_padded [OF g5(2) this b]
  obtain g6 where g6: "pad_to_block g5 = Inr g6" "iso_block (fbytes g6) ?l = padded (concat ?rs)" "length (padded (concat ?rs)) = 2048"
      "keeps {?l} (fbytes g5) (fbytes g6)" by blast
  have "extent_of d ?rs" using g3(2,3) g4(3) g5(3) by (auto simp: extent_of_def)
  then have own: "extent_at (fbytes g6) d" using g6(2,3) by (auto simp: extent_at_def)
  have "keeps (insert ?l ?C) (fbytes f) (fbytes g5)" using g5(2) by (simp add: filling_def)
  note k = keeps_trans [OF this g6(4)]
  have "extent_at (fbytes g6) x" if "c \<in> set (dir_childs d)" "x \<in> set (all_dirs c)" for c x
  proof -
    have "de_lba x \<notin> {?l}" using that dl de_lba_blocks by fastforce
    then show ?thesis using that g4(4) extent_at_keeps [OF keeps_trans [OF g5(4) g6(4)]] by simp
  qed
  then show ?thesis using own k g3(1) g4(1) g5(1) g6(1) by (intro exI [of _ g6]) (simp add: write_own_block_def)
qed

lemma write_extent_step:
  assumes "byteorder_ok dp" "tree_ok d" "distinct (dir_blocks d)" "parent_ok po d"
    and "\<forall>a. continuation_area d = Some a \<longrightarrow> length a \<le> 2048"
    and "\<And>c f. c \<in> set (dir_childs d) \<Longrightarrow> \<exists>f'. write_extent dp c (Some d) f = Inr f' \<and> extents_written c f f'"
  shows "\<exists>f'. write_extent dp d po f = Inr f' \<and> extents_written d f f'"
proof -
  let ?l = "de_lba d" and ?C = "set (concat (map dir_blocks (dir_childs d)))"
  have e: "extent_ok d" "?l * 2048 < 2 ^ 32" using tree_okD(1) [OF assms(2)] by (simp_all add: extent_ok_def)
  have dl: "set (tl (own_blocks d)) \<inter> insert ?l ?C = {}"
    using assms(3) unfolding dir_blocks_childs [of d] by (auto simp: own_blocks_def)
  obtain g where g: "write_own_block dp d po f = Inr g" "extent_at (fbytes g) d" "keeps (insert ?l ?C) (fbytes f) (fbytes g)"
      "\<forall>c \<in> set (dir_childs d). \<forall>x \<in> set (all_dirs c). extent_at (fbytes g) x"
    using own_block_written [OF assms(1-4), of f] assms(6) by blast
  obtain ys where ys: "write_continuation_area d g = Inr (g\<lparr>fbytes := ys\<rparr>)" "keeps (set (tl (own_blocks d))) (fbytes g) ys"
    using write_continuation_kept [OF e(1) assms(5), of g] by blast
  let ?f' = "g\<lparr>fbytes := ys, fpos := fpos f\<rparr>"
  have "write_extent dp d po f = Inr ?f'" using g(1) ys(1) by (simp add: write_extent_eq [OF e(2)] seek_start_def)
  moreover have "keeps (set (dir_blocks d)) (fbytes f) (fbytes ?f')"
    using keeps_trans [OF g(3) ys(2)] unfolding dir_blocks_childs [of d] by (auto simp: own_blocks_def elim!: keeps_mono)
  moreover have "extent_at (fbytes ?f') x" if "x \<in> set (all_dirs d)" for x
  proof -
    have "x = d \<or> (\<exists>c \<in> set (dir_childs d). x \<in> set (all_dirs c))" using that by (auto simp: all_dirs_childs [of d])
    then have "extent_at (fbytes g) x" "de_lba x \<in> insert ?l ?C" using g(2,4) de_lba_blocks [of x] by auto
    then show ?thesis using extent_at_keeps [OF ys(2), of x] dl by auto
  qed
  ultimately show ?thesis by (auto simp: extents_written_def)
qed

lemma write_extent_written:
  assumes "byteorder_ok dp"
  shows "tree_ok d \<Longrightarrow> distinct (dir_blocks d) \<Longrightarrow> parent_ok po d \<Longrightarrow> \<forall>x \<in> set (all_dirs d). \<forall>a. continuation_area x = Some a \<longrightarrow> length a \<le> 2048
    \<Longrightarrow> \<exists>f'. write_extent dp d po f = Inr f' \<and> extents_written d f f'"
proof (induction d arbitrary: po f)
  case (DirectoryEntry i j p cs es ca l)
  let ?d = "DirectoryEntry i j p cs es ca l"
  show ?case
  proof (rule write_extent_step [OF assms DirectoryEntry.prems(1-3)])
    show "\<forall>a. continuation_area ?d = Some a \<longrightarrow> length a \<le> 2048" using DirectoryEntry.prems(4) by simp
    fix c f assume c: "c \<in> set (dir_childs ?d)"
    have "distinct (dir_blocks c)" using DirectoryEntry.prems(2) c unfolding dir_blocks_childs [of ?d]
      by (auto simp: distinct_concat_iff)
    moreover have "parent_ok (Some ?d) c" using tree_okD(1) [OF DirectoryEntry.prems(1)] by (simp add: parent_ok_def)
    ultimately show "\<exists>f'. write_extent dp c (Some ?d) f = Inr f' \<and> extents_written c f f'"
      using DirectoryEntry.IH [of c] tree_okD(2) [OF DirectoryEntry.prems(1) c] DirectoryEntry.prems(4) c by simp
  qed
qed


section \<open>Blocks\<close>

lemma chain_blocks: "chain a rs b \<Longrightarrow> concat (map (\<lambda>r. [fst r..<fst r + snd r]) rs) = [a..<b]"
proof (induction rs arbitrary: a)
  case (Cons r rs)
  then have "fst r = a" "concat (map (\<lambda>r. [fst r..<fst r + snd r]) rs) = [a + snd r..<b]" "a + snd r \<le> b"
    using chain_bounds [of "a + snd r" rs b] by auto
  then show ?case by (simp add: upt_join)
qed simp

lemma dir_region_blocks: "extent_ok d \<Longrightarrow> [fst (dir_region d)..<fst (dir_region d) + snd (dir_region d)] = own_blocks d"
  using extent_ok_blocks [of d] by (simp add: dir_region_def own_blocks_def extent_blocks_def)

lemma dir_blocks_chain:
  assumes "chain a (map dir_region (all_dirs d)) b" "tree_ok d"
  shows "dir_blocks d = [a..<b]"
proof -
  have "dir_blocks d = concat (map (\<lambda>r. [fst r..<fst r + snd r]) (map dir_region (all_dirs d)))"
    using assms(2) dir_region_blocks unfolding dir_blocks_def tree_ok_def map_map comp_def by (metis (no_types, lifting) map_eq_conv)
  then show ?thesis using chain_blocks [OF assms(1)] by simp
qed

lemma write_content_grows: "write_content fsys e f = Inr f' \<Longrightarrow> length (fbytes f) \<le> length (fbytes f')"
  by (auto simp: write_content_def pad_to_block_def Let_def seek_start_def overwrite_length max_def split: if_splits)

lemma write_contents_grow: "fold_r (write_content fsys) es f = Inr f' \<Longrightarrow> length (fbytes f) \<le> length (fbytes f')"
proof (induction es arbitrary: f)
  case (Cons e es)
  then obtain g where "write_content fsys e f = Inr g" "fold_r (write_content fsys) es g = Inr f'" by auto
  then show ?case using Cons.IH write_content_grows le_trans by blast
qed simp

lemma write_files_kept:
  assumes "chain l (map file_region (all_files t)) m" "m * 2048 < 2 ^ 32" "\<forall>e \<in> set (all_files t). content_ok fsys e"
  shows "\<exists>f'. write_files fsys t f = Inr f' \<and> fpos f' = fpos f \<and> keeps {l..<m} (fbytes f) (fbytes f')
    \<and> (\<forall>e \<in> set (all_files t). \<exists>c. open_content_provider fsys e = Inr c \<and> bytes_at (fbytes f') (fe_lba e * 2048) (length c) = c)"
proof -
  obtain f' where f': "write_files fsys t f = Inr f'" "fpos f' = fpos f"
      "\<forall>e \<in> set (all_files t). \<exists>c. open_content_provider fsys e = Inr c \<and> bytes_at (fbytes f') (fe_lba e * 2048) (length c) = c"
      "\<forall>p n. p + n \<le> length (fbytes f) \<and> (p + n \<le> l * 2048 \<or> m * 2048 \<le> p) \<longrightarrow> bytes_at (fbytes f') p n = bytes_at (fbytes f) p n"
    using files_readable [OF assms, of f] by blast
  have "keeps {l..<m} (fbytes f) (fbytes f')"
  proof (cases "l < m")
    case True
    have "bytes_at (fbytes f') p n = bytes_at (fbytes f) p n"
      if "p + n \<le> length (fbytes f) \<and> (\<forall>k \<in> {l..<m}. p + n \<le> k * 2048 \<or> (k + 1) * 2048 \<le> p)" for p n
      using that f'(4) block_gap [of l m p n] True by (cases "n = 0") (auto simp: bytes_at_def)
    then show ?thesis using f'(1) write_contents_grow unfolding keeps_def write_files_order by blast
  next
    case False
    have "all_files t = []"
    proof (rule ccontr)
      assume "all_files t \<noteq> []"
      then obtain e where "e \<in> set (all_files t)" by (cases "all_files t") auto
      then have "l \<le> fst (file_region e)" "fst (file_region e) + snd (file_region e) \<le> m" using chain_bounds [OF assms(1)] by auto
      moreover have "0 < snd (file_region e)" by (simp add: file_region_def)
      ultimately show False using False by linarith
    qed
    then have "files_order t = []" using files_order_mset [of t] by simp
    then have "f' = f" using f'(1) by (simp add: write_files_order)
    then show ?thesis by (auto intro: keeps_mono [OF keeps_refl])
  qed
  with f' show ?thesis by blast
qed


section \<open>The descriptor area\<close>

definition laid_out :: "DirectoryEntry \<Rightarrow> nat \<Rightarrow> nat \<Rightarrow> bool" where
  "laid_out t p s \<longleftrightarrow> tree_ok t \<and> path_table_index t = 1
     \<and> (\<forall>x \<in> set (subdirs t). path_table_index x \<noteq> 1) \<and> continuation_area t \<noteq> None
     \<and> (\<forall>x \<in> set (all_dirs t). \<forall>a. continuation_area x = Some a \<longrightarrow> length a \<le> 2048)
     \<and> chain (p + 4) (map dir_region (all_dirs t) @ map file_region (all_files t)) s
     \<and> length (path_table LittleEndian t) \<le> 4096 \<and> s * 2048 + 8192 \<le> 2 ^ 31"

lemma laid_out_facts:
  assumes "laid_out t p s"
  shows "root_ok t 1" "\<forall>x \<in> set (all_dirs t). dir_ok x" "pt_total t + 4096 < 2 ^ 32" "length (path_table order t) \<le> 4096"
    "get_path_table_size t = Inr (length (path_table LittleEndian t))" "p + 4 \<le> s" "de_lba t = p + 4"
proof -
  have t: "tree_ok t" using assms by (simp add: laid_out_def)
  show ok: "\<forall>x \<in> set (all_dirs t). dir_ok x"
  proof
    fix x assume "x \<in> set (all_dirs t)"
    then have "extent_ok x" using t by (simp add: tree_ok_def)
    then show "dir_ok x" by (auto simp: extent_ok_def dir_ok_def intro: name_short_ok)
  qed
  have e: "extent_ok t" by (rule tree_okD(1) [OF t])
  then show "root_ok t 1" using ok all_dirs_self extent_ok_blocks [OF e]
    by (auto simp: root_ok_def) (auto simp: extent_ok_def)
  have pl: "10 + sum_list (map pt_total (dir_childs t)) \<le> 4096"
    using assms path_table_length [of LittleEndian t] by (simp add: laid_out_def)
  then show "length (path_table order t) \<le> 4096" using path_table_length [of order t] by simp
  have "pad_len 0 (length (short_name (dir_name t))) \<le> 13" using short_name_length [of "dir_name t"] by (simp add: pad_len_def)
  then show pt: "pt_total t + 4096 < 2 ^ 32" using pl by (cases t) simp
  show "get_path_table_size t = Inr (length (path_table LittleEndian t))"
    using get_path_table_size_eq [OF ok] assms pt path_table_length [of LittleEndian t] by (simp add: laid_out_def)
  have c: "chain (p + 4) (map dir_region (all_dirs t) @ map file_region (all_files t)) s" using assms by (simp add: laid_out_def)
  then show "p + 4 \<le> s" using chain_bounds by blast
  show "de_lba t = p + 4" using c by (simp add: all_dirs_childs [of t] dir_region_def)
qed

lemma descriptors_written:
  assumes "byteorder_ok dp" "clock_ok dp" "laid_out t p s" "fpos f = 32768"
    and "eltorito_boot (eltorito_opt opt) \<noteq> None \<longrightarrow> find_file boot_catalog_name t = Inr (Some a) \<and> fe_lba (file_at a t) < 2 ^ 32"
  shows "\<exists>g dt1 dt2. run [fold_r (\<lambda>v. write_volume dp v t p s) (generate_volume_descriptors opt), write_all (ascii ''MKI ''),
        write_all (drop 4 (replicate 2048 0))] f = Inr g
    \<and> iso_block (fbytes g) 16 = primary_volume t p s (length (path_table LittleEndian t)) 1 dt1 dt2 \<and> length (iso_block (fbytes g) 16) = 2048
    \<and> (eltorito_boot (eltorito_opt opt) \<noteq> None \<longrightarrow> iso_block (fbytes g) 17 = boot_volume (fe_lba (file_at a t)))"
proof -
  note l = laid_out_facts [OF assms(3)]
  let ?pv = "primary_volume t p s (length (path_table LittleEndian t)) 1 (now dp (ticks f)) (now dp (Suc (ticks f)))"
  let ?ev = "volume_header End @ replicate 2041 0 @ ascii ''MKI '' @ drop 4 (replicate 2048 0)"
  let ?bv = "if eltorito_boot (eltorito_opt opt) \<noteq> None then boot_volume (fe_lba (file_at a t)) else []"
  let ?g = "tick (tick f)"
  have lp: "length ?pv = 2048" using assms(2) by (intro primary_volume_length) (simp add: clock_ok_def)
  have pv: "write_volume dp Primary t p s f = Inr (put ?pv ?g)"
    using l(4) [of LittleEndian] l(6) assms(3,4)
    by (intro write_primary_volume_eq [OF assms(1) l(1,5)]) (simp_all add: laid_out_def)
  have ev: "write_volume dp End t p s h = Inr (put (volume_header End @ replicate 2041 0) h)" for h
    by (simp add: write_volume_header_eq [OF assms(1)])
  have bv: "write_volume dp Boot t p s h = Inr (put (boot_volume (fe_lba (file_at a t))) h)"
    if "eltorito_boot (eltorito_opt opt) \<noteq> None" for h
    using write_boot_volume_eq [OF assms(1)] assms(5) that by blast
  have w: "run [fold_r (\<lambda>v. write_volume dp v t p s) (generate_volume_descriptors opt), write_all (ascii ''MKI ''),
        write_all (drop 4 (replicate 2048 0))] f = Inr (put (?pv @ ?bv @ ?ev) ?g)"
    unfolding generate_volume_descriptors_def
    by (cases "eltorito_boot (eltorito_opt opt) = None")
      (simp_all add: fold_r_append pv ev bv del: write_volume.simps put_simps(3) drop_replicate)
  have at: "bytes_at (fbytes (put (?pv @ ?bv @ ?ev) ?g)) (32768 + k) 2048 = bytes_at (?pv @ ?bv @ ?ev) k 2048"
    if "k + 2048 \<le> length (?pv @ ?bv @ ?ev)" for k
    using bytes_at_put_part [OF that, of ?g] assms(4) by simp
  have b16: "iso_block (fbytes (put (?pv @ ?bv @ ?ev) ?g)) 16 = ?pv"
    using at [of 0] lp by (simp add: iso_block_def bytes_at_def)
  have "iso_block (fbytes (put (?pv @ ?bv @ ?ev) ?g)) 17 = boot_volume (fe_lba (file_at a t))" if "eltorito_boot (eltorito_opt opt) \<noteq> None"
  proof -
    have "length ?bv = 2048" using that by (simp add: boot_volume_def)
    then show ?thesis using at [of 2048] lp that by (simp add: iso_block_def bytes_at_def)
  qed
  then show ?thesis using w b16 lp by metis
qed


section \<open>The image\<close>

lemma run_replicate: "run (replicate n (write_all z)) g = Inr (put (concat (replicate n z)) g)"
  by (induction n arbitrary: g) simp_all

lemma keeps_append: "keeps {} xs (overwrite xs (length xs) bs)"
  by (simp add: keeps_def overwrite_length bytes_at_overwrite_other)

lemma path_table_kept:
  assumes "byteorder_ok dp" "laid_out t p s" "pos * 2048 + 4096 < 2 ^ 31"
  shows "\<exists>f'. write_path_table dp order t pos f = Inr f' \<and> fpos f' = fpos f \<and> keeps {pos..<pos + 2} (fbytes f) (fbytes f')
    \<and> bytes_at (fbytes f') (pos * 2048) (length (path_table order t)) = path_table order t"
proof -
  note l = laid_out_facts [OF assms(2)]
  let ?t = "path_table order t"
  have i: "path_table_index t = 1" "\<forall>x \<in> set (subdirs t). path_table_index x \<noteq> 1" using assms(2) by (simp_all add: laid_out_def)
  have pos: "pos * 2048 < 2 ^ 32" using assms(3) by simp
  obtain f' where f': "write_path_table dp order t pos f = Inr f'" "fpos f' = fpos f"
      "fbytes f' = overwrite (fbytes f) (pos * 2048) (padded ?t)"
    using path_table_written [OF assms(1) l(2) i l(3) pos, of order f] by (auto simp: padded_def room_block)
  have "length (padded ?t) \<le> 2048 * 2" using l(4) [of order] by (intro padded_fits) simp
  then have "keeps {pos..<pos + 2} (fbytes f) (fbytes f')" unfolding f'(3) by (intro keeps_overwrite) simp_all
  moreover have "bytes_at (fbytes f') (pos * 2048) (length ?t) = ?t" unfolding f'(3) padded_def by (rule bytes_at_overwrite_prefix)
  ultimately show ?thesis using f'(1,2) by blast
qed

definition files_sized :: "fs \<Rightarrow> DirectoryEntry \<Rightarrow> bool" where
  "files_sized fsys t \<longleftrightarrow> (\<forall>e \<in> set (all_files t). \<exists>c. open_content_provider fsys e = Inr c \<and> fe_size e = length c \<and> length c < 2 ^ 32)"

lemma files_sized_ok:
  assumes "files_sized fsys t"
  shows "\<forall>e \<in> set (all_files t). content_ok fsys e"
proof
  fix e assume "e \<in> set (all_files t)"
  then obtain c where c: "open_content_provider fsys e = Inr c" "fe_size e = length c" "length c < 2 ^ 32"
    using assms by (auto simp: files_sized_def)
  have "length c < (length c div 2048 + 1) * 2048" using dividend_less_div_times [of 2048 "length c"] by simp
  moreover have "(length c + 2048) div 2048 = length c div 2048 + 1" by (simp add: div_add_self2)
  ultimately show "content_ok fsys e" using c by (simp add: content_ok_def file_region_def as_u32_def)
qed

text \<open>The part of \<open>write_image\<close> after the descriptors.\<close>

lemma write_body:
  assumes "byteorder_ok dp" "laid_out t p s" "files_sized fsys t"
  shows "\<exists>f'. run [write_path_table dp LittleEndian t p,
          (\<lambda>f. bind_r (chk 32 (p + 2)) (\<lambda>l. write_path_table dp BigEndian t l f)),
          write_extent dp t None, write_files fsys t] f = Inr f'
    \<and> keeps {p..<s} (fbytes f) (fbytes f') \<and> (\<forall>x \<in> set (all_dirs t). extent_at (fbytes f') x) \<and> contents_at fsys (fbytes f') t
    \<and> bytes_at (fbytes f') (p * 2048) (length (path_table LittleEndian t)) = path_table LittleEndian t
    \<and> bytes_at (fbytes f') ((p + 2) * 2048) (length (path_table BigEndian t)) = path_table BigEndian t"
proof -
  note l = laid_out_facts [OF assms(2)]
  have t: "tree_ok t" "parent_ok None t" "\<forall>x \<in> set (all_dirs t). \<forall>a. continuation_area x = Some a \<longrightarrow> length a \<le> 2048"
      "s * 2048 + 8192 \<le> 2 ^ 31"
    using assms(2) by (simp_all add: laid_out_def parent_ok_def)
  obtain m where m: "chain (p + 4) (map dir_region (all_dirs t)) m" "chain m (map file_region (all_files t)) s"
    using assms(2) by (auto simp: laid_out_def chain_append)
  have mb: "p + 4 \<le> m" "m \<le> s" using chain_bounds [OF m(1)] chain_bounds [OF m(2)] by auto
  have b: "dir_blocks t = [p + 4..<m]" by (rule dir_blocks_chain [OF m(1) t(1)])
  let ?le = "path_table LittleEndian t" and ?be = "path_table BigEndian t"
  obtain f1 where f1: "write_path_table dp LittleEndian t p f = Inr f1" "keeps {p..<p + 2} (fbytes f) (fbytes f1)"
      "bytes_at (fbytes f1) (p * 2048) (length ?le) = ?le"
    using path_table_kept [OF assms(1,2), of p LittleEndian f] l(6) t(4) by auto
  have p4: "p + 2 + 2 = p + 4" by simp
  have pb: "(p + 2) * 2048 + 4096 < 2 ^ 31" using l(6) t(4) by simp
  obtain f2 where f2: "write_path_table dp BigEndian t (p + 2) f1 = Inr f2" "keeps {p + 2..<p + 4} (fbytes f1) (fbytes f2)"
      "bytes_at (fbytes f2) ((p + 2) * 2048) (length ?be) = ?be"
    using path_table_kept [OF assms(1,2) pb, of BigEndian f1, unfolded p4] by (elim exE conjE) (rule that)
  obtain f3 where f3: "write_extent dp t None f2 = Inr f3" "keeps {p + 4..<m} (fbytes f2) (fbytes f3)"
      "\<forall>x \<in> set (all_dirs t). extent_at (fbytes f3) x"
    using write_extent_written [OF assms(1) t(1) _ t(2,3), of f2] b by (auto simp: extents_written_def)
  obtain f4 where f4: "write_files fsys t f3 = Inr f4" "keeps {m..<s} (fbytes f3) (fbytes f4)"
      "\<forall>e \<in> set (all_files t). \<exists>c. open_content_provider fsys e = Inr c \<and> bytes_at (fbytes f4) (fe_lba e * 2048) (length c) = c"
    using write_files_kept [OF m(2) _ files_sized_ok [OF assms(3)], of f3] t(4) by auto
  have k24: "keeps {p + 4..<s} (fbytes f2) (fbytes f4)" using keeps_trans [OF f3(2) f4(2)] mb by (simp add: ivl_disj_un)
  have k14: "keeps {p + 2..<s} (fbytes f1) (fbytes f4)" using keeps_trans [OF f2(2) k24] l(6) by (simp add: ivl_disj_un)
  have "keeps {p..<s} (fbytes f) (fbytes f4)" using keeps_trans [OF f1(2) k14] l(6) by (simp add: ivl_disj_un)
  moreover have "extent_at (fbytes f4) x" if "x \<in> set (all_dirs t)" for x
    using de_lba_blocks [OF that] b f3(3) that by (intro extent_at_keeps [OF f4(2)]) auto
  moreover have "contents_at fsys (fbytes f4) t"
    using f4(3) assms(3) unfolding contents_at_def files_sized_def by (fastforce simp: as_u32_def)
  moreover have "bytes_at (fbytes f4) (p * 2048) (length ?le) = bytes_at (fbytes f1) (p * 2048) (length ?le)"
    using l(4) [of LittleEndian] f1(3) by (intro keeps_bytes_at [OF k14, of _ _ p "p + 2"]) auto
  moreover have "bytes_at (fbytes f4) ((p + 2) * 2048) (length ?be) = bytes_at (fbytes f2) ((p + 2) * 2048) (length ?be)"
    using l(4) [of BigEndian] f2(3) by (intro keeps_bytes_at [OF k24, of _ _ "p + 2" "p + 4"]) auto
  moreover have "run [write_path_table dp LittleEndian t p, (\<lambda>f. bind_r (chk 32 (p + 2)) (\<lambda>l. write_path_table dp BigEndian t l f)),
          write_extent dp t None, write_files fsys t] f = Inr f4"
    using f1(1) f2(1) f3(1) f4(1) l(6) t(4) by (simp add: chk_ok)
  ultimately show ?thesis using f1(3) f2(3) by metis
qed


definition image_holds :: "fs \<Rightarrow> DirectoryEntry \<Rightarrow> nat \<Rightarrow> u8 list \<Rightarrow> bool" where
  "image_holds fsys t p img \<longleftrightarrow> iso_root img = Some (de_lba t, 2048) \<and> (\<forall>x \<in> set (all_dirs t). extent_at img x) \<and> contents_at fsys img t
     \<and> bytes_at img (p * 2048) (length (path_table LittleEndian t)) = path_table LittleEndian t
     \<and> bytes_at img ((p + 2) * 2048) (length (path_table BigEndian t)) = path_table BigEndian t"

lemma keeps_all:
  assumes "keeps {} xs ys" "length (bytes_at xs q n) = n"
  shows "bytes_at ys q n = bytes_at xs q n"
  using assms(2) dividend_less_div_times [of 2048 "q + n"] by (intro keeps_bytes_at [OF assms(1), of _ _ 0 "(q + n) div 2048 + 1"]) auto

lemma iso_block_kept:
  assumes "keeps {p..<s} xs ys" "length (iso_block xs k) = 2048" "k < p"
  shows "iso_block ys k = iso_block xs k"
  unfolding iso_block_def
  using assms(2,3) by (intro keeps_bytes_at [OF assms(1), of _ _ k "k + 1"]) (auto simp: iso_block_def)

lemma contents_at_keeps:
  assumes "keeps {} xs ys" "contents_at fsys xs t"
  shows "contents_at fsys ys t"
  unfolding contents_at_def
proof
  fix e assume "e \<in> set (all_files t)"
  then obtain c where "open_content_provider fsys e = Inr c" "as_u32 (fe_size e) = length c" "bytes_at xs (fe_lba e * 2048) (length c) = c"
    using assms(2) by (auto simp: contents_at_def)
  then show "\<exists>c. open_content_provider fsys e = Inr c \<and> as_u32 (fe_size e) = length c \<and> bytes_at ys (fe_lba e * 2048) (length c) = c"
    using keeps_all [OF assms(1), of "fe_lba e * 2048" "length c"] by (intro exI [of _ c]) simp
qed

text \<open>The 128 blocks of zeros behind the last file.\<close>

lemma write_tail:
  "\<exists>g. bind_r (seek_end f) (\<lambda>g. let old = fpos g in run (replicate 128 (write_all (replicate 2048 0)) @ [seek_start old]) g) = Inr g
    \<and> keeps {} (fbytes f) (fbytes g)"
proof -
  let ?n = "length (fbytes f)" and ?z = "concat (replicate 128 (replicate 2048 0)) :: u8 list"
  show ?thesis
    unfolding run_append run_replicate
    by (intro exI [of _ "f\<lparr>fbytes := overwrite (fbytes f) ?n ?z, fpos := ?n\<rparr>"])
      (simp add: seek_end_def seek_start_def put_def Let_def keeps_append)
qed

lemma write_image_holds:
  assumes "byteorder_ok dp" "clock_ok dp" "laid_out t p s" "17 < p" "files_sized fsys t"
    and "embedded_boot opt = None" "grub2_mbr opt = None"
    and "eltorito_boot (eltorito_opt opt) \<noteq> None \<longrightarrow> find_file boot_catalog_name t = Inr (Some a) \<and> fe_lba (file_at a t) < 2 ^ 32"
  shows "\<exists>f. write_image dp fsys opt t p s file_create = Inr f \<and> image_holds fsys t p (fbytes f)
    \<and> (eltorito_boot (eltorito_opt opt) \<noteq> None \<longrightarrow> iso_block (fbytes f) 17 = boot_volume (fe_lba (file_at a t)))"
proof -
  note l = laid_out_facts [OF assms(3)]
  have "0 < s" "s * 2048 < 2 ^ 32" using l(6) assms(3,4) by (simp_all add: laid_out_def)
  then obtain f1 where f1: "write_system_area dp fsys opt t s file_create = Inr f1"
    using system_area_returns [OF assms(1,6,7)] by blast
  have p1: "fpos f1 = 32768" using write_system_area_pos [OF f1] by (simp add: file_create_def)
  obtain f2 dt1 dt2 where f2: "run [fold_r (\<lambda>v. write_volume dp v t p s) (generate_volume_descriptors opt), write_all (ascii ''MKI ''),
        write_all (drop 4 (replicate 2048 0))] f1 = Inr f2"
      "iso_block (fbytes f2) 16 = primary_volume t p s (length (path_table LittleEndian t)) 1 dt1 dt2" "length (iso_block (fbytes f2) 16) = 2048"
      "eltorito_boot (eltorito_opt opt) \<noteq> None \<longrightarrow> iso_block (fbytes f2) 17 = boot_volume (fe_lba (file_at a t))"
    using descriptors_written [OF assms(1,2,3) p1 assms(8)] by (elim exE conjE) (rule that)
  let ?body = "[write_path_table dp LittleEndian t p, (\<lambda>f. bind_r (chk 32 (p + 2)) (\<lambda>l. write_path_table dp BigEndian t l f)),
          write_extent dp t None, write_files fsys t]"
  obtain f3 where f3: "run ?body f2 = Inr f3" "keeps {p..<s} (fbytes f2) (fbytes f3)" "\<forall>x \<in> set (all_dirs t). extent_at (fbytes f3) x"
      "contents_at fsys (fbytes f3) t" "bytes_at (fbytes f3) (p * 2048) (length (path_table LittleEndian t)) = path_table LittleEndian t"
      "bytes_at (fbytes f3) ((p + 2) * 2048) (length (path_table BigEndian t)) = path_table BigEndian t"
    using write_body [OF assms(1,3,5), of f2] by (elim exE conjE) (rule that)
  let ?tail = "\<lambda>f. bind_r (seek_end f) (\<lambda>g. let old = fpos g in run (replicate 128 (write_all (replicate 2048 0)) @ [seek_start old]) g)"
  obtain f where tail: "?tail f3 = Inr f" and k: "keeps {} (fbytes f3) (fbytes f)" using write_tail [of f3] by (elim exE conjE) (rule that)
  have "write_image dp fsys opt t p s file_create = run (write_system_area dp fsys opt t s #
      [fold_r (\<lambda>v. write_volume dp v t p s) (generate_volume_descriptors opt), write_all (ascii ''MKI ''),
        write_all (drop 4 (replicate 2048 0))] @ ?body @ [?tail]) file_create"
    by (simp only: write_image_def append.simps)
  also have "\<dots> = Inr f"
    using f1 tail by (simp only: run_simps(2) [of "write_system_area dp fsys opt t s"] bind_r_simps run_trans [OF f2(1)] run_trans [OF f3(1)])
      simp
  finally have w: "write_image dp fsys opt t p s file_create = Inr f" .
  have k2: "keeps {p..<s} (fbytes f2) (fbytes f)" using keeps_trans [OF f3(2) k] by simp
  have "iso_block (fbytes f) 16 = iso_block (fbytes f2) 16" using f2(3) assms(4) by (intro iso_block_kept [OF k2]) simp_all
  then have root: "iso_root (fbytes f) = Some (de_lba t, 2048)"
    using f2(2) l(7) tree_okD(4) [of t] assms(3) by (intro iso_root_found) (simp_all add: laid_out_def)
  have boot: "iso_block (fbytes f) 17 = boot_volume (fe_lba (file_at a t))" if "eltorito_boot (eltorito_opt opt) \<noteq> None"
  proof -
    have "iso_block (fbytes f) 17 = iso_block (fbytes f2) 17"
      using f2(4) that assms(4) by (intro iso_block_kept [OF k2]) (simp_all add: boot_volume_def)
    then show ?thesis using f2(4) that by simp
  qed
  have "contents_at fsys (fbytes f) t" by (rule contents_at_keeps [OF k f3(4)])
  moreover have "\<forall>x \<in> set (all_dirs t). extent_at (fbytes f) x" using f3(3) extent_at_keeps [OF k] by blast
  ultimately have "image_holds fsys t p (fbytes f)"
    unfolding image_holds_def using root keeps_all [OF k, of "p * 2048" "length (path_table LittleEndian t)"] f3(5,6)
      keeps_all [OF k, of "(p + 2) * 2048" "length (path_table BigEndian t)"] by simp
  then show ?thesis using w boot by blast
qed


section \<open>Properties\<close>

text \<open>
  C7: writing the image of a laid-out tree succeeds, and a reader that knows nothing but the format (it starts at the primary descriptor, walks the
  directory records of each extent and compares Rock Ridge names) gets for every path exactly what the tree has there: the content of the file, or
  nothing. Both path tables are at their blocks.
\<close>
theorem image_reads_back_tree:
  assumes "byteorder_ok dp" "clock_ok dp" "laid_out t p s" "17 < p" "files_sized fsys t"
    and "embedded_boot opt = None" "grub2_mbr opt = None"
    and "eltorito_boot (eltorito_opt opt) \<noteq> None \<longrightarrow> find_file boot_catalog_name t = Inr (Some a) \<and> fe_lba (file_at a t) < 2 ^ 32"
  shows "\<exists>f. write_image dp fsys opt t p s file_create = Inr f
    \<and> (\<forall>names name. iso_read (fbytes f) names name = tree_read fsys t names name)
    \<and> bytes_at (fbytes f) (p * 2048) (length (path_table LittleEndian t)) = path_table LittleEndian t
    \<and> bytes_at (fbytes f) ((p + 2) * 2048) (length (path_table BigEndian t)) = path_table BigEndian t"
proof -
  obtain f where f: "write_image dp fsys opt t p s file_create = Inr f" "image_holds fsys t p (fbytes f)"
    using write_image_holds [OF assms] by (elim exE conjE) (rule that)
  then have "iso_read (fbytes f) names name = tree_read fsys t names name" for names name
    using assms(3) by (intro iso_read_tree) (simp_all add: image_holds_def laid_out_def)
  then show ?thesis using f by (intro exI [of _ f]) (simp add: image_holds_def)
qed

lemma two_dirs_laid_out: "laid_out (two_dirs 1 2 1 24 26 27 28) 20 29" "files_sized no_files (two_dirs 1 2 1 24 26 27 28)"
proof -
  let ?t = "two_dirs 1 2 1 24 26 27 28"
  have d: "dir_record_size [c] 0 = 84" "file_record_size [c] = 86" if "c \<noteq> dot" for c
    using that by (simp_all add: dir_record_size_def file_record_size_def dir_ident_def short_name_def pad_len_def)
  have n: "file_nm (buffer_file c ct g) = [c]" "fe_get_file_name (buffer_file c ct g) = Inr [c]" "fe_lba (buffer_file c ct g) = g" for c ct g
    by (simp_all add: buffer_file_def fe_get_file_name_def file_nm_def)
  have m: "dir_name (DirectoryEntry j k [Normal (Unicode [c])] ds fs ca m) = [c]"
      "de_get_file_name (DirectoryEntry j k [Normal (Unicode [c])] ds fs ca m) = Inr [c]" for j k c ds fs ca m
    by (simp_all add: dir_name_def de_get_file_name_def path_name_def file_name_def)
  have x: "\<forall>x \<in> set (all_dirs ?t). extent_ok x"
    by (simp add: two_dirs_dirs) (simp add: two_dirs_def extent_ok_def name_short_def n m d ascii1 dot_def)
  have r: "chain 24 (map dir_region (all_dirs ?t) @ map file_region (all_files ?t)) 29"
    by (simp add: two_dirs_dirs dir_region_def extent_blocks_def two_dirs_extents file_region_def)
      (simp add: two_dirs_def buffer_file_def as_u32_def)
  have "length (path_table LittleEndian ?t) \<le> 4096"
    unfolding path_table_length using short_name_length [of "[0x62]"] by (simp add: two_dirs_def m pad_len_def)
  then show "laid_out ?t 20 29" using x r by (simp add: laid_out_def tree_ok_def two_dirs_dirs) (simp add: two_dirs_def)
  show "files_sized no_files ?t"
    by (simp add: files_sized_def two_dirs_dirs open_content_provider_def buffer_file_def)
qed

theorem image_reads_back_tree_witness:
  "\<exists>f. write_image sample_deps no_files (sample_opt None) (two_dirs 1 2 1 24 26 27 28) 20 29 file_create = Inr f
     \<and> iso_read (fbytes f) [] [0x64] = Some [1, 2, 3] \<and> iso_read (fbytes f) [[0x62]] [0x63] = Some [7] \<and> iso_read (fbytes f) [[0x62]] [0x64] = None"
proof -
  let ?t = "two_dirs 1 2 1 24 26 27 28"
  have "17 < (20 :: nat)" "embedded_boot (sample_opt None) = None" "grub2_mbr (sample_opt None) = None"
      "eltorito_boot (eltorito_opt (sample_opt None)) \<noteq> None \<longrightarrow> find_file boot_catalog_name ?t = Inr (Some ([], 0)) \<and> fe_lba (file_at ([], 0) ?t) < 2 ^ 32"
    by (simp_all add: sample_opt_def)
  note w = image_reads_back_tree [OF sample_deps_ok two_dirs_laid_out(1) this(1) two_dirs_laid_out(2) this(2-4)]
  have "tree_read no_files ?t [] [0x64] = Some [1, 2, 3]" "tree_read no_files ?t [[0x62]] [0x63] = Some [7]" "tree_read no_files ?t [[0x62]] [0x64] = None"
    by (simp_all add: tree_read_def tree_file_def two_dirs_def buffer_file_def fe_get_file_name_def open_content_provider_def
        de_get_file_name_def path_name_def file_name_def)
  with w show ?thesis by (elim exE conjE) metis
qed

end
