(* ===== verification/Iso_Create.thy ===== *)
theory Iso_Create
  imports Iso_Roundtrip
begin

text \<open>
  \<open>create_iso\<close> (\<open>disk_image_generator/src/iso/mod.rs\<close>) from the files of the host to the finished image, without a boot image.

  \<open>host_read\<close> looks a path up among the input files and in the directories of the host. \<open>mirrors\<close>: the tree \<open>set_path_files\<close> builds has the same files
  under the same paths, because names in one directory differ (so nothing is merged) and sorting does not change what a name finds. The passes
  that number and place keep names and files (\<open>tree_shape\<close>), give every extent and file its own blocks (\<open>layout_result\<close>), and the image is read back
  with \<open>Iso_Read\<close>.
\<close>

section \<open>The continuation area\<close>

lemma er_area:
  assumes "byteorder_ok dp"
  shows "\<exists>er. to_vec (er_ops dp) = Inr er \<and> length er \<le> 2048"
  using assms by (simp add: to_vec_def er_ops_def del: put_simps(3))

section \<open>The tree of the input files\<close>

definition plain :: "DirectoryEntry \<Rightarrow> bool" where
  "plain d \<longleftrightarrow> (\<forall>x \<in> set (all_dirs d). continuation_area x = None)"

lemma plain_childs: "plain d \<longleftrightarrow> continuation_area d = None \<and> (\<forall>c \<in> set (dir_childs d). plain c)"
  by (auto simp: plain_def all_dirs_childs [of d])

lemma merge_into_plain:
  "merge_into d dirs = Inr dirs' \<Longrightarrow> plain d \<Longrightarrow> \<forall>x \<in> set dirs. plain x \<Longrightarrow> \<forall>x \<in> set dirs'. plain x"
proof (induction d arbitrary: dirs dirs')
  case (DirectoryEntry pidx par p ds fs ca l)
  let ?d = "DirectoryEntry pidx par p ds fs ca l"
  have fold: "\<forall>x \<in> set ys. plain x" if "fold_r merge_into xs zs = Inr ys" "set xs \<subseteq> set ds" "\<forall>x \<in> set zs. plain x" for xs ys zs
    using that
  proof (induction xs arbitrary: zs)
    case (Cons x xs)
    then obtain w where w: "merge_into x zs = Inr w" "fold_r merge_into xs w = Inr ys" by auto
    have "plain x" "x \<in> set ds" using Cons.prems(2) DirectoryEntry.prems(2) by (simp_all add: plain_childs [of ?d])
    then have "\<forall>x \<in> set w. plain x" using DirectoryEntry.IH [of x zs w] w(1) Cons.prems(3) by blast
    moreover have "set xs \<subseteq> set ds" using Cons.prems(2) by simp
    ultimately show ?case using Cons.IH [OF w(2)] by blast
  qed simp
  show ?case
  proof (cases "dirs = []")
    case False
    with DirectoryEntry.prems(1) obtain name r where n: "find_last_dir name dirs = Inr r"
      and m: "(case r of None \<Rightarrow> Inr (dirs @ [?d])
          | Some i \<Rightarrow> let present = append_files fs (dirs ! i) in
              bind_r (fold_r merge_into ds (dir_childs present)) (\<lambda>cs. Inr (dirs[i := set_dir_childs cs present]))) = Inr dirs'"
      by auto
    show ?thesis
    proof (cases r)
      case None
      with m DirectoryEntry.prems show ?thesis by auto
    next
      case (Some i)
      with m obtain cs where cs: "fold_r merge_into ds (dir_childs (dirs ! i)) = Inr cs"
          "dirs' = dirs[i := set_dir_childs cs (append_files fs (dirs ! i))]"
        by (auto simp: Let_def append_files_def)
      have "i < length dirs" using find_last_dir_Some n Some by blast
      then have di: "plain (dirs ! i)" using DirectoryEntry.prems(3) by simp
      then have "\<forall>x \<in> set cs. plain x" using fold [OF cs(1)] by (simp add: plain_childs [of "dirs ! i"])
      then have "plain (set_dir_childs cs (append_files fs (dirs ! i)))"
        using di by (subst plain_childs) (simp add: plain_childs [of "dirs ! i"] append_files_def)
      then show ?thesis unfolding cs(2) using DirectoryEntry.prems(3) set_update_subset_insert by fastforce
    qed
  qed (use DirectoryEntry.prems in auto)
qed

lemma collect_plain:
  assumes "\<And>p d. read_sub p = Inr d \<Longrightarrow> plain d"
    and "fold_r (collect_entry metadata read_sub) ps s = Inr s'" "\<forall>x \<in> set (fst s). plain x"
  shows "\<forall>x \<in> set (fst s'). plain x"
  using assms(2,3)
proof (induction ps arbitrary: s)
  case (Cons p ps)
  then obtain s1 where s1: "collect_entry metadata read_sub p s = Inr s1" "fold_r (collect_entry metadata read_sub) ps s1 = Inr s'" by auto
  have "\<forall>x \<in> set (fst s1). plain x"
    using s1(1) Cons.prems(2) assms(1) merge_into_plain
    by (auto simp: collect_entry_def add_and_merge_childs_directories_def split: option.splits if_splits)
  then show ?case using Cons.IH s1(2) by blast
qed simp

lemma extend_plain: "plain d \<Longrightarrow> \<forall>x \<in> set ds. plain x \<Longrightarrow> plain (extend_entry p ds fs d)"
  by (subst plain_childs) (auto simp: extend_entry_def plain_childs [of d])

lemma new_directory_plain: "plain new_directory"
  by (simp add: plain_def new_directory_def)

lemma set_path_plain: "set_path fsys depth paths self = Inr d \<Longrightarrow> plain self \<Longrightarrow> plain d"
proof (induction depth arbitrary: paths self d)
  case (Suc depth)
  from Suc.prems(1) obtain dirs ds fs p0 where
      c: "fold_r (collect_entry (fs_entry_metadata fsys) (\<lambda>p. set_path fsys depth [p] new_directory)) (sort_key path_key (concat dirs)) ([], []) = Inr (ds, fs)"
    and d: "d = extend_entry p0 ds fs self" by auto
  have "\<forall>x \<in> set (fst (ds, fs)). plain x" by (rule collect_plain [OF _ c]) (use Suc.IH new_directory_plain in auto)
  then show ?case using Suc.prems(2) extend_plain by (simp add: d)
qed simp

lemma set_path_files_plain:
  assumes "set_path_files fsys depth paths self = Inr d" "plain self"
  shows "plain d"
proof -
  from assms(1) obtain ds fs p0 where
      c: "fold_r (collect_entry (fs_metadata fsys) (\<lambda>p. set_path fsys depth [p] new_directory)) paths ([], []) = Inr (ds, fs)"
    and d: "d = extend_entry p0 ds fs self" by (auto simp: set_path_files_def)
  have "\<forall>x \<in> set (fst (ds, fs)). plain x" by (rule collect_plain [OF _ c]) (use set_path_plain new_directory_plain in auto)
  then show ?thesis using assms(2) extend_plain by (simp add: d)
qed

section \<open>From the layout to the image\<close>

lemma reserve_keeps:
  "reserve_file_space d l = Inr (d', l') \<Longrightarrow>
     map (\<lambda>x. (path_table_index x, continuation_area x)) (d' # subdirs d') = map (\<lambda>x. (path_table_index x, continuation_area x)) (d # subdirs d)"
proof (induction d arbitrary: l d' l')
  case (DirectoryEntry pidx par p ds fs ca lba)
  let ?g = "\<lambda>x. (path_table_index x, continuation_area x)"
  from DirectoryEntry.prems obtain fs' l1 ds' where c: "map_state reserve_file_space ds l1 = Inr (ds', l')"
    and d': "d' = DirectoryEntry pidx par p ds' fs' ca lba" by auto
  have "map (\<lambda>d. map ?g (d # subdirs d)) ys = map (\<lambda>d. map ?g (d # subdirs d)) xs"
    if "map_state reserve_file_space xs k = Inr (ys, k')" "set xs \<subseteq> set ds" for xs ys k k'
    using that
  proof (induction xs arbitrary: ys k)
    case (Cons x xs)
    then obtain y k1 ys1 where "reserve_file_space x k = Inr (y, k1)" "map_state reserve_file_space xs k1 = Inr (ys1, k')" "ys = y # ys1" by auto
    then show ?case using Cons.IH [of k1 ys1] Cons.prems(2) DirectoryEntry.IH [of x k y k1] by simp
  qed simp
  from this [OF c] have e: "map (\<lambda>d. ?g d # map ?g (subdirs d)) ds' = map (\<lambda>d. ?g d # map ?g (subdirs d)) ds" by simp
  have "map (hd \<circ> (\<lambda>d. ?g d # map ?g (subdirs d))) ds' = map (hd \<circ> (\<lambda>d. ?g d # map ?g (subdirs d))) ds"
      "map (tl \<circ> (\<lambda>d. ?g d # map ?g (subdirs d))) ds' = map (tl \<circ> (\<lambda>d. ?g d # map ?g (subdirs d))) ds"
    using e by (metis map_map)+
  then have "map ?g ds' = map ?g ds" "map (\<lambda>d. map ?g (subdirs d)) ds' = map (\<lambda>d. map ?g (subdirs d)) ds" by (simp_all add: comp_def)
  then show ?case by (simp add: d' map_concat comp_def)
qed


lemma reserve_fields:
  assumes "reserve_file_space d l = Inr (d', l')"
  shows "path_table_index d' = path_table_index d" "continuation_area d' = continuation_area d"
    "map path_table_index (subdirs d') = map path_table_index (subdirs d)" "map continuation_area (subdirs d') = map continuation_area (subdirs d)"
  using arg_cong [OF reserve_keeps [OF assms], of "map fst"] arg_cong [OF reserve_keeps [OF assms], of "map snd"]
  by (simp_all add: comp_def)


section \<open>The host's files\<close>

definition host_entry :: "(path_buf \<Rightarrow> fs_meta option) \<Rightarrow> (fs_meta \<Rightarrow> bool) \<Rightarrow> str \<Rightarrow> path_buf list \<Rightarrow> path_buf option" where
  "host_entry metadata kind name ps =
     find (\<lambda>p. path_name p = Inr name \<and> (case metadata p of Some m \<Rightarrow> kind m | None \<Rightarrow> False)) ps"

primrec host_file :: "fs \<Rightarrow> str list \<Rightarrow> str \<Rightarrow> (path_buf \<Rightarrow> fs_meta option) \<Rightarrow> path_buf list \<Rightarrow> path_buf option" where
  "host_file fsys [] name metadata ps = host_entry metadata (\<lambda>m. \<not> is_dir m \<and> is_file m) name ps"
| "host_file fsys (n # names) name metadata ps =
     Option.bind (host_entry metadata is_dir n ps) (\<lambda>p.
     Option.bind (fs_read_dir fsys p) (host_file fsys names name (fs_entry_metadata fsys)))"

definition host_read :: "fs \<Rightarrow> path_buf list \<Rightarrow> str list \<Rightarrow> str \<Rightarrow> u8 list option" where
  "host_read fsys ps names name = Option.bind (host_file fsys names name (fs_metadata fsys) ps) (fs_open fsys)"

definition names_distinct :: "path_buf list \<Rightarrow> bool" where
  "names_distinct ps \<longleftrightarrow> distinct (map path_name ps) \<and> (\<forall>p \<in> set ps. \<not> isl (path_name p))"

text \<open>What the program relies on: the names in a directory differ and are Unicode, and a file has the length its metadata says.\<close>

definition host_ok :: "fs \<Rightarrow> bool" where
  "host_ok fsys \<longleftrightarrow> (\<forall>q ps. fs_read_dir fsys q = Some ps \<longrightarrow> names_distinct ps)
     \<and> (\<forall>p m. fs_metadata fsys p = Some m \<or> fs_entry_metadata fsys p = Some m \<longrightarrow> is_file m \<longrightarrow>
          (\<exists>c. fs_open fsys p = Some c \<and> length c = meta_len m \<and> length c < 2 ^ 32))"

subsection \<open>Collecting the entries of a directory\<close>

lemma find_last_dir_fresh:
  "\<forall>c \<in> set dirs. \<exists>m. de_get_file_name c = Inr m \<and> m \<noteq> n \<Longrightarrow> find_last_dir n dirs = Inr None"
  by (induction dirs) auto

lemma merge_into_fresh:
  assumes "merge_into d dirs = Inr dirs'" "\<forall>c \<in> set dirs. \<not> isl (de_get_file_name c) \<and> de_get_file_name c \<noteq> de_get_file_name d"
  shows "dirs' = dirs @ [d]"
proof (cases d)
  case (DirectoryEntry i j p ds fs ca l)
  show ?thesis
  proof (cases "dirs = []")
    case False
    then obtain name r where n: "path_name p = Inr name" "find_last_dir name dirs = Inr r"
        "(case r of None \<Rightarrow> Inr (dirs @ [d])
          | Some i \<Rightarrow> let present = append_files fs (dirs ! i) in
              bind_r (fold_r merge_into ds (dir_childs present)) (\<lambda>cs. Inr (dirs[i := set_dir_childs cs present]))) = Inr dirs'"
      using assms(1) DirectoryEntry by auto
    have "de_get_file_name d = Inr name" using n(1) DirectoryEntry by (simp add: de_get_file_name_def)
    then have "\<forall>c \<in> set dirs. \<exists>m. de_get_file_name c = Inr m \<and> m \<noteq> name" using assms(2) by (metis isl_def sum.collapse(2) sum.disc(1))
    then have "r = None" using find_last_dir_fresh n(2) by simp
    then show ?thesis using n(3) by simp
  qed (use assms(1) DirectoryEntry in auto)
qed

definition is_kind :: "(path_buf \<Rightarrow> fs_meta option) \<Rightarrow> (fs_meta \<Rightarrow> bool) \<Rightarrow> path_buf \<Rightarrow> bool" where
  "is_kind metadata kind p \<longleftrightarrow> (case metadata p of Some m \<Rightarrow> kind m | None \<Rightarrow> False)"

lemma collect_entries:
  assumes "\<And>p d. read_sub p = Inr d \<Longrightarrow> path d = p"
    and "fold_r (collect_entry metadata read_sub) ps (ds, fs) = Inr (ds', fs')" "names_distinct ps"
    and "\<forall>c \<in> set ds. \<not> isl (de_get_file_name c) \<and> (\<forall>p \<in> set ps. de_get_file_name c \<noteq> path_name p)"
  shows "\<exists>ds1 fs1. ds' = ds @ ds1 \<and> fs' = fs @ fs1 \<and> list_all2 (\<lambda>p d. read_sub p = Inr d) (filter (is_kind metadata is_dir) ps) ds1
    \<and> list_all2 (\<lambda>p e. file_type e = Regular p) (filter (is_kind metadata (\<lambda>m. \<not> is_dir m \<and> is_file m)) ps) fs1"
  using assms(2-4)
proof (induction ps arbitrary: ds fs)
  case (Cons p ps)
  let ?k = "is_kind metadata is_dir" and ?f = "is_kind metadata (\<lambda>m. \<not> is_dir m \<and> is_file m)"
  obtain s1 where s1: "collect_entry metadata read_sub p (ds, fs) = Inr s1" "fold_r (collect_entry metadata read_sub) ps s1 = Inr (ds', fs')"
    using Cons.prems(1) by auto
  then obtain m where m: "metadata p = Some m" by (auto simp: collect_entry_def split: option.splits)
  have kp: "is_kind metadata kind p \<longleftrightarrow> kind m" for kind using m by (simp add: is_kind_def)
  have nd: "names_distinct ps" "\<not> isl (path_name p)" "path_name p \<notin> path_name ` set ps" using Cons.prems(2) by (auto simp: names_distinct_def)
  consider (dir) "is_dir m" | (reg) "\<not> is_dir m" "is_file m" | (other) "\<not> is_dir m" "\<not> is_file m" by blast
  then show ?case
  proof cases
    case dir
    then obtain d w where d: "read_sub p = Inr d" "merge_into d ds = Inr w" "fold_r (collect_entry metadata read_sub) ps (w, fs) = Inr (ds', fs')"
      using s1 m by (auto simp: collect_entry_def [of metadata read_sub p] add_and_merge_childs_directories_def)
    have dn: "de_get_file_name d = path_name p" using assms(1) [OF d(1)] by (simp add: de_get_file_name_def)
    then have w: "w = ds @ [d]" using merge_into_fresh [OF d(2)] Cons.prems(3) by auto
    have "\<forall>c \<in> set w. \<not> isl (de_get_file_name c) \<and> (\<forall>p \<in> set ps. de_get_file_name c \<noteq> path_name p)"
      using Cons.prems(3) nd dn by (auto simp: w)
    from Cons.IH [OF d(3) nd(1) this] obtain ds1 fs1 where "ds' = w @ ds1" "fs' = fs @ fs1" "list_all2 (\<lambda>p d. read_sub p = Inr d) (filter ?k ps) ds1"
        "list_all2 (\<lambda>p e. file_type e = Regular p) (filter ?f ps) fs1" by blast
    then show ?thesis using d(1) m dir w by (intro exI [of _ "d # ds1"] exI [of _ fs1]) (simp add: kp)
  next
    case reg
    then obtain e where e: "regular_entry p m = Inr e" "fold_r (collect_entry metadata read_sub) ps (ds, fs @ [e]) = Inr (ds', fs')"
      using s1 m by (auto simp: collect_entry_def [of metadata read_sub p])
    have "file_type e = Regular p" using e(1) by (auto simp: regular_entry_def)
    moreover from Cons.IH [OF e(2) nd(1)] Cons.prems(3) obtain ds1 fs1 where "ds' = ds @ ds1" "fs' = (fs @ [e]) @ fs1"
        "list_all2 (\<lambda>p d. read_sub p = Inr d) (filter ?k ps) ds1" "list_all2 (\<lambda>p e. file_type e = Regular p) (filter ?f ps) fs1" by auto
    ultimately show ?thesis using m reg by (intro exI [of _ ds1] exI [of _ "e # fs1"]) (simp add: kp)
  next
    case other
    then have "fold_r (collect_entry metadata read_sub) ps (ds, fs) = Inr (ds', fs')" using s1 m by (auto simp: collect_entry_def [of metadata read_sub p])
    from Cons.IH [OF this nd(1)] Cons.prems(3) m other show ?thesis by (auto simp: kp)
  qed
qed simp


subsection \<open>The tree mirrors the host\<close>

lemma find_unique:
  assumes "mset xs = mset ys" "distinct (map f xs)"
  shows "find (\<lambda>x. f x = a \<and> Q x) xs = find (\<lambda>x. f x = a \<and> Q x) ys"
proof (cases "find (\<lambda>x. f x = a \<and> Q x) xs")
  case None
  then have "\<forall>x \<in> set ys. \<not> (f x = a \<and> Q x)" using mset_eq_setD [OF assms(1)] by (auto simp: find_None_iff)
  then show ?thesis using None by (simp add: find_None)
next
  case (Some x)
  then have x: "x \<in> set ys" "f x = a" "Q x" using mset_eq_setD [OF assms(1)] by (auto simp: find_Some_iff)
  then obtain y where y: "find (\<lambda>x. f x = a \<and> Q x) ys = Some y" by (metis (mono_tags, lifting) find_None_iff option.exhaust)
  then have "y \<in> set ys" "f y = a" by (auto simp: find_Some_iff)
  moreover have "inj_on f (set ys)" using assms(2) mset_eq_setD [OF assms(1)] by (simp add: distinct_map)
  ultimately have "x = y" using x by (simp add: inj_on_def)
  then show ?thesis using Some y by simp
qed

lemma find_filter: "find P (filter Q xs) = find (\<lambda>x. P x \<and> Q x) xs"
  by (induction xs) auto

lemma set_path_path: "set_path fsys depth [p] self = Inr d \<Longrightarrow> path d = p"
  by (cases depth) (auto simp: index_r_def extend_entry_def)

lemma names_distinct_perm: "mset ps = mset qs \<Longrightarrow> names_distinct ps \<Longrightarrow> names_distinct qs"
  by (simp add: names_distinct_def) (metis mset_eq_imp_distinct_iff mset_eq_setD mset_map)

definition mirrors :: "fs \<Rightarrow> (path_buf \<Rightarrow> fs_meta option) \<Rightarrow> path_buf list \<Rightarrow> DirectoryEntry \<Rightarrow> bool" where
  "mirrors fsys metadata ps d \<longleftrightarrow> (\<forall>names name.
     map_option file_type (tree_file names name d) = map_option Regular (host_file fsys names name metadata ps))"

lemma collected_mirrors:
  assumes "fold_r (collect_entry metadata (\<lambda>p. set_path fsys depth [p] new_directory)) qs ([], []) = Inr (ds, fs)"
    and "mset qs = mset ps" "names_distinct ps" "dir_childs d = ds" "files_childs d = fs"
    and "\<And>p c. set_path fsys depth [p] new_directory = Inr c \<Longrightarrow>
      \<exists>cs. fs_read_dir fsys p = Some cs \<and> mirrors fsys (fs_entry_metadata fsys) cs c"
  shows "mirrors fsys metadata ps d"
  unfolding mirrors_def
proof (intro allI)
  fix names name
  let ?k = "is_kind metadata is_dir" and ?f = "is_kind metadata (\<lambda>m. \<not> is_dir m \<and> is_file m)"
  have nd: "names_distinct qs" using names_distinct_perm assms(2,3) by metis
  have c: "list_all2 (\<lambda>p d. set_path fsys depth [p] new_directory = Inr d) (filter ?k qs) ds"
      "list_all2 (\<lambda>p e. file_type e = Regular p) (filter ?f qs) fs"
    using collect_entries [OF _ assms(1) nd] set_path_path by auto
  have h: "host_entry metadata kind n ps = find (\<lambda>p. path_name p = Inr n) (filter (is_kind metadata kind) qs)" for kind n
    unfolding host_entry_def find_filter is_kind_def
    using assms(3) by (intro find_unique [OF assms(2) [symmetric]]) (simp add: names_distinct_def)
  show "map_option file_type (tree_file names name d) = map_option Regular (host_file fsys names name metadata ps)"
  proof (cases names)
    case Nil
    have "list_all2 (\<lambda>p e. (fe_get_file_name e = Inr name) = (path_name p = Inr name) \<and> file_type e = Regular p) (filter ?f qs) fs"
      using c(2) by (rule list.rel_mono_strong) (simp add: fe_get_file_name_def)
    from find_list_all2 [OF this] show ?thesis using Nil h assms(5) by (simp add: tree_file_def)
  next
    case (Cons n ns)
    let ?F = "\<lambda>c. map_option file_type (tree_file ns name c)"
    let ?G = "\<lambda>p. map_option Regular (Option.bind (fs_read_dir fsys p) (host_file fsys ns name (fs_entry_metadata fsys)))"
    have "list_all2 (\<lambda>p c. (de_get_file_name c = Inr n) = (path_name p = Inr n) \<and> ?F c = ?G p) (filter ?k qs) ds"
      using c(1)
    proof (rule list.rel_mono_strong)
      fix p c assume "set_path fsys depth [p] new_directory = Inr c"
      then show "(de_get_file_name c = Inr n) = (path_name p = Inr n) \<and> ?F c = ?G p"
        using assms(6) [of p c] set_path_path [of fsys depth p new_directory c] by (auto simp: de_get_file_name_def mirrors_def)
    qed
    from find_list_all2 [OF this] have "map_option ?F (find (\<lambda>c. de_get_file_name c = Inr n) ds) = map_option ?G (host_entry metadata is_dir n ps)"
      by (simp add: h)
    then show ?thesis using Cons assms(4)
      by (cases "find (\<lambda>c. de_get_file_name c = Inr n) ds"; cases "host_entry metadata is_dir n ps") (auto simp: tree_file_def)
  qed
qed

lemma set_path_mirrors:
  assumes "host_ok fsys"
  shows "set_path fsys depth [p] new_directory = Inr d \<Longrightarrow> \<exists>ps. fs_read_dir fsys p = Some ps \<and> mirrors fsys (fs_entry_metadata fsys) ps d"
proof (induction depth arbitrary: p d)
  case (Suc depth)
  from Suc.prems obtain ps ds fs where ps: "fs_read_dir fsys p = Some ps"
    and c: "fold_r (collect_entry (fs_entry_metadata fsys) (\<lambda>p. set_path fsys depth [p] new_directory)) (sort_key path_key ps) ([], []) = Inr (ds, fs)"
    and d: "d = extend_entry p ds fs new_directory"
    by (auto simp: unwrap_def index_r_def split: option.splits)
  have "mirrors fsys (fs_entry_metadata fsys) ps d"
    using assms ps Suc.IH by (intro collected_mirrors [OF c]) (auto simp: d extend_entry_def new_directory_def host_ok_def)
  then show ?case using ps by blast
qed simp

lemma set_path_files_mirrors:
  assumes "host_ok fsys" "set_path_files fsys depth ps new_directory = Inr d" "names_distinct ps"
  shows "mirrors fsys (fs_metadata fsys) ps d"
proof -
  from assms(2) obtain ds fs p0 where
      c: "fold_r (collect_entry (fs_metadata fsys) (\<lambda>p. set_path fsys depth [p] new_directory)) ps ([], []) = Inr (ds, fs)"
    and d: "d = extend_entry p0 ds fs new_directory" by (auto simp: set_path_files_def)
  show ?thesis
    using assms(3) set_path_mirrors [OF assms(1)] by (intro collected_mirrors [OF c]) (auto simp: d extend_entry_def new_directory_def)
qed


subsection \<open>Sizes\<close>

definition sized :: "fs \<Rightarrow> FileEntry \<Rightarrow> bool" where
  "sized fsys e \<longleftrightarrow> (\<exists>p c. file_type e = Regular p \<and> fs_open fsys p = Some c \<and> fe_size e = length c \<and> length c < 2 ^ 32)"

definition all_sized :: "fs \<Rightarrow> DirectoryEntry list \<Rightarrow> bool" where
  "all_sized fsys ds \<longleftrightarrow> (\<forall>d \<in> set ds. \<forall>e \<in> set (all_files d). sized fsys e)"

lemma merge_into_sized:
  assumes "merge_into d dirs = Inr dirs'" "all_sized fsys [d]" "all_sized fsys dirs"
  shows "all_sized fsys dirs'"
proof -
  have "set_mset (files_of dirs') = set_mset (files_of dirs) \<union> set (all_files d)"
    using merge_into_files [OF assms(1)] by simp
  moreover have "all_sized fsys ds \<longleftrightarrow> (\<forall>e \<in> set_mset (files_of ds). sized fsys e)" for ds by (auto simp: all_sized_def files_of_def)
  ultimately show ?thesis using assms(2,3) by (auto simp: all_sized_def)
qed

lemma collect_sized:
  assumes "\<And>p m. metadata p = Some m \<Longrightarrow> is_file m \<Longrightarrow> \<exists>c. fs_open fsys p = Some c \<and> length c = meta_len m \<and> length c < 2 ^ 32"
    and "\<And>p d. read_sub p = Inr d \<Longrightarrow> all_sized fsys [d]"
    and "fold_r (collect_entry metadata read_sub) ps s = Inr s'" "all_sized fsys (fst s)" "\<forall>e \<in> set (snd s). sized fsys e"
  shows "all_sized fsys (fst s') \<and> (\<forall>e \<in> set (snd s'). sized fsys e)"
  using assms(3-5)
proof (induction ps arbitrary: s)
  case (Cons p ps)
  then obtain s1 where s1: "collect_entry metadata read_sub p s = Inr s1" "fold_r (collect_entry metadata read_sub) ps s1 = Inr s'" by auto
  from s1(1) obtain m where m: "metadata p = Some m" by (auto simp: collect_entry_def split: option.splits)
  have e: "sized fsys e" if "regular_entry p m = Inr e" "is_file m" for e
    using that assms(1) [OF m] by (auto simp: regular_entry_def sized_def)
  have "all_sized fsys (fst s1) \<and> (\<forall>e \<in> set (snd s1). sized fsys e)"
    using s1(1) m Cons.prems(2,3) e assms(2) merge_into_sized
    by (auto simp: collect_entry_def add_and_merge_childs_directories_def split: if_splits)
  then show ?case using Cons.IH [OF s1(2)] by blast
qed simp

lemma extend_sized: "all_sized fsys ds \<Longrightarrow> \<forall>e \<in> set fs. sized fsys e \<Longrightarrow> all_sized fsys [extend_entry p ds fs new_directory]"
  by (auto simp: all_sized_def extend_entry_def new_directory_def)

lemma all_sized_nil [simp]: "all_sized fsys []"
  by (simp add: all_sized_def)

lemma set_path_sized:
  assumes "host_ok fsys"
  shows "set_path fsys depth ps new_directory = Inr d \<Longrightarrow> all_sized fsys [d]"
proof (induction depth arbitrary: ps d)
  case (Suc depth)
  from Suc.prems obtain dirs ds fs p0 where
      c: "fold_r (collect_entry (fs_entry_metadata fsys) (\<lambda>p. set_path fsys depth [p] new_directory)) (sort_key path_key (concat dirs)) ([], []) = Inr (ds, fs)"
    and d: "d = extend_entry p0 ds fs new_directory" by auto
  have "all_sized fsys (fst (ds, fs)) \<and> (\<forall>e \<in> set (snd (ds, fs)). sized fsys e)"
    by (rule collect_sized [OF _ _ c]) (use Suc.IH assms in \<open>auto simp: host_ok_def\<close>)
  then show ?case using extend_sized by (simp add: d)
qed simp

lemma set_path_files_sized:
  assumes "host_ok fsys" "set_path_files fsys depth ps new_directory = Inr d"
  shows "all_sized fsys [d]"
proof -
  from assms(2) obtain ds fs p0 where
      c: "fold_r (collect_entry (fs_metadata fsys) (\<lambda>p. set_path fsys depth [p] new_directory)) ps ([], []) = Inr (ds, fs)"
    and d: "d = extend_entry p0 ds fs new_directory" by (auto simp: set_path_files_def)
  have "all_sized fsys (fst (ds, fs)) \<and> (\<forall>e \<in> set (snd (ds, fs)). sized fsys e)"
    by (rule collect_sized [OF _ _ c]) (use set_path_sized [OF assms(1)] assms(1) in \<open>auto simp: host_ok_def\<close>)
  then show ?thesis using extend_sized by (simp add: d)
qed

subsection \<open>The passes keep the names\<close>

datatype shape = Shape path_buf "shape list" "FileType list"

fun tree_shape :: "DirectoryEntry \<Rightarrow> shape" where
  "tree_shape (DirectoryEntry pidx par p ds fs ca l) = Shape p (map tree_shape ds) (map file_type fs)"

lemma tree_shape_eq: "tree_shape d = Shape (path d) (map tree_shape (dir_childs d)) (map file_type (files_childs d))"
  by (cases d) simp

lemma map_eq_list_all2: "map f xs = map g ys \<longleftrightarrow> list_all2 (\<lambda>x y. f x = g y) xs ys"
  by (auto simp: list_eq_iff_nth_eq list_all2_conv_all_nth)

lemma shape_tree_file:
  "tree_shape d = tree_shape d' \<Longrightarrow> map_option file_type (tree_file names name d) = map_option file_type (tree_file names name d')"
proof (induction names arbitrary: d d')
  case Nil
  then have "list_all2 (\<lambda>e e'. file_type e = file_type e') (files_childs d) (files_childs d')"
    unfolding tree_shape_eq [of d] tree_shape_eq [of d'] by (simp add: map_eq_list_all2)
  then have "list_all2 (\<lambda>e e'. (fe_get_file_name e' = Inr name) = (fe_get_file_name e = Inr name) \<and> file_type e' = file_type e) (files_childs d) (files_childs d')"
    by (rule list.rel_mono_strong) (simp add: fe_get_file_name_def)
  from find_list_all2 [OF this] show ?case by (simp add: tree_file_def)
next
  case (Cons n ns)
  let ?F = "\<lambda>c. map_option file_type (tree_file ns name c)"
  have "list_all2 (\<lambda>c c'. tree_shape c = tree_shape c') (dir_childs d) (dir_childs d')"
    using Cons.prems unfolding tree_shape_eq [of d] tree_shape_eq [of d'] by (simp add: map_eq_list_all2)
  then have "list_all2 (\<lambda>c c'. (de_get_file_name c' = Inr n) = (de_get_file_name c = Inr n) \<and> ?F c' = ?F c) (dir_childs d) (dir_childs d')"
  proof (rule list.rel_mono_strong)
    fix c c' assume s: "tree_shape c = tree_shape c'"
    then have "path c = path c'" unfolding tree_shape_eq [of c] tree_shape_eq [of c'] by simp
    then show "(de_get_file_name c' = Inr n) = (de_get_file_name c = Inr n) \<and> ?F c' = ?F c" using Cons.IH [OF s] by (simp add: de_get_file_name_def)
  qed
  from find_list_all2 [OF this] show ?case
    by (cases "find (\<lambda>c. de_get_file_name c = Inr n) (dir_childs d)"; cases "find (\<lambda>c. de_get_file_name c = Inr n) (dir_childs d')")
      (auto simp: tree_file_def)
qed

lemma shape_set [simp]:
  "tree_shape (set_ids i j d) = tree_shape d" "tree_shape (set_lba l d) = tree_shape d" "tree_shape (set_continuation_area ca d) = tree_shape d"
  by (cases d; simp add: set_ids_def set_lba_def set_continuation_area_def)+

lemma number_childs_shape: "map_state (number_child k) ds i = Inr (ds', i') \<Longrightarrow> map tree_shape ds' = map tree_shape ds"
  by (induction ds arbitrary: i ds') (auto simp: number_child_Inr)

lemma assign_shape: "assign_directory_identifiers t (i, l) = Inr (t', i', l') \<Longrightarrow> tree_shape t' = tree_shape t"
proof (induction t arbitrary: i l t' i' l' rule: measure_induct_rule [of tree_size])
  case (less t)
  from less.prems obtain l1 t1 i1 n ds i2 ds' where
      t1: "t1 = (if i = 0 then set_ids 1 0 t else set_lba l1 t)"
    and nc: "map_state (number_child (path_table_index t1)) (dir_childs t) i1 = Inr (ds, i2)"
    and rc: "map_state assign_directory_identifiers ds (i2, l1 + n) = Inr (ds', i', l')"
    and t': "t' = set_dir_childs ds' t1"
    by (rule assignE)
  have sm: "tree_size x < tree_size t" if "x \<in> set ds" for x
  proof -
    have "tree_size x \<le> sum_list (map tree_size ds)" using that by (intro member_le_sum_list) auto
    then show ?thesis using number_childs_sizes [OF nc] by (simp add: tree_size_childs [of t])
  qed
  have "map tree_shape ys = map tree_shape xs" if "map_state assign_directory_identifiers xs (a, b) = Inr (ys, a', b')" "set xs \<subseteq> set ds" for xs ys a b a' b'
    using that
  proof (induction xs arbitrary: ys a b)
    case (Cons x xs)
    from Cons.prems(1) obtain y a1 b1 ys1 where y: "assign_directory_identifiers x (a, b) = Inr (y, a1, b1)"
        "map_state assign_directory_identifiers xs (a1, b1) = Inr (ys1, a', b')" "ys = y # ys1" by auto
    have "tree_shape y = tree_shape x" using less.IH [OF sm y(1)] Cons.prems(2) by simp
    then show ?case using Cons.IH [OF y(2)] Cons.prems(2) y(3) by simp
  qed simp
  from this [OF rc] have "map tree_shape ds' = map tree_shape (dir_childs t)" using number_childs_shape [OF nc] by simp
  then show ?case unfolding tree_shape_eq [of t'] tree_shape_eq [of t] by (simp add: t' t1)
qed

lemma reserve_shape: "reserve_file_space d l = Inr (d', l') \<Longrightarrow> tree_shape d' = tree_shape d"
proof (induction d arbitrary: l d' l')
  case (DirectoryEntry pidx par p ds fs ca lba)
  from DirectoryEntry.prems obtain fs' l1 ds' where
      f: "map_state reserve_file fs l = Inr (fs', l1)" and c: "map_state reserve_file_space ds l1 = Inr (ds', l')"
    and d': "d' = DirectoryEntry pidx par p ds' fs' ca lba" by auto
  have "map tree_shape ys = map tree_shape xs" if "map_state reserve_file_space xs k = Inr (ys, k')" "set xs \<subseteq> set ds" for xs ys k k'
    using that
  proof (induction xs arbitrary: ys k)
    case (Cons x xs)
    then obtain y k1 ys1 where "reserve_file_space x k = Inr (y, k1)" "map_state reserve_file_space xs k1 = Inr (ys1, k')" "ys = y # ys1" by auto
    then show ?case using Cons.IH [of k1 ys1] Cons.prems(2) DirectoryEntry.IH [of x k y k1] by simp
  qed simp
  from this [OF c] same_but_lba(2) [OF conjunct2 [OF reserve_files_chain [OF f]]] show ?case by (simp add: d')
qed


subsection \<open>From the host to the image\<close>

text \<open>What the passes of \<open>layout_tree\<close> make of the tree of the input files.\<close>

lemma passes_result:
  assumes "plain t0" "assign_directory_identifiers (set_continuation_area (Some er) t0) (0, l) = Inr (t1, k, l1)"
    and "reserve_file_space (set_lba l (set_ids (path_table_index t1) 1 t1)) l1 = Inr (t, s)"
  shows "path_table_index t = 1" "continuation_area t = Some er" "\<forall>x \<in> set (subdirs t). path_table_index x \<noteq> 1 \<and> continuation_area x = None"
    "chain l (map dir_region (all_dirs t) @ map file_region (all_files t)) s" "tree_shape t = tree_shape t0"
    "map (\<lambda>e. (file_type e, fe_size e)) (all_files t) = map (\<lambda>e. (file_type e, fe_size e)) (all_files t0)"
proof -
  note t1 = assms(2) and t = assms(3)
  let ?r = "set_continuation_area (Some er) t0" and ?u = "set_lba l (set_ids (path_table_index t1) 1 t1)"
  have sub: "subdirs ?r = subdirs t0" "all_files ?r = all_files t0" by (cases t0; simp add: set_continuation_area_def)+
  have c: "continuation_area ?r \<noteq> None" "\<forall>x \<in> set (subdirs ?r). continuation_area x = None"
    using assms(1) unfolding sub by (simp_all add: set_continuation_area_def plain_def all_dirs_subdirs)
  note a = assign_root_placed [OF c t1] and num = assign_numbered [OF t1]
  have u: "path_table_index ?u = 1" "subdirs ?u = subdirs t1" "continuation_area ?u = Some er" "all_files ?u = all_files t1"
  proof -
    show "path_table_index ?u = 1" using num by simp
    show "subdirs ?u = subdirs t1" "all_files ?u = all_files t1" by (cases t1; simp add: set_ids_def set_lba_def)+
    show "continuation_area ?u = Some er" using a by (simp add: set_continuation_area_def)
  qed
  have ch: "map dir_region (all_dirs ?u) = map dir_region (all_dirs (set_lba l t1))"
  proof -
    have "get_extent_size_in_lb ?u = get_extent_size_in_lb (set_lba l t1)" by (rule get_extent_size_cong) simp_all
    then have "dir_region ?u = dir_region (set_lba l t1)" by (simp add: dir_region_def extent_blocks_def)
    then show ?thesis unfolding all_dirs_childs [of ?u] all_dirs_childs [of "set_lba l t1"] by simp
  qed
  note q = reserve_file_space_ok [OF t, unfolded reserved_def] and tk = reserve_fields [OF t, unfolded u]
  show "path_table_index t = 1" "continuation_area t = Some er" by (rule tk(1), rule tk(2))
  show "\<forall>x \<in> set (subdirs t). path_table_index x \<noteq> 1 \<and> continuation_area x = None"
  proof
    fix x assume x: "x \<in> set (subdirs t)"
    have "map path_table_index (subdirs t) = [Suc 1..<Suc k]" using num by (simp add: tk(3) numbered_def del: upt_Suc)
    moreover have "path_table_index x \<in> set (map path_table_index (subdirs t))" using x by simp
    ultimately have "path_table_index x \<noteq> 1" by (simp only: set_upt) simp
    moreover have "continuation_area x \<in> set (map continuation_area (subdirs t))" using x by simp
    then have "continuation_area x = None" using a by (auto simp: tk(4))
    ultimately show "path_table_index x \<noteq> 1 \<and> continuation_area x = None" by blast
  qed
  show "chain l (map dir_region (all_dirs t) @ map file_region (all_files t)) s" using a q ch by (auto simp: chain_append)
  have z: "map (\<lambda>e. (file_type e, fe_size e)) xs = zip (map file_type xs) (map fe_size xs)" for xs by (induction xs) simp_all
  have "map file_type (all_files t) = map file_type (all_files t0)" "map fe_size (all_files t) = map fe_size (all_files t0)"
    using q a u(4) sub(2) by simp_all
  then show "map (\<lambda>e. (file_type e, fe_size e)) (all_files t) = map (\<lambda>e. (file_type e, fe_size e)) (all_files t0)"
    by (simp only: z)
  show "tree_shape t = tree_shape t0" using reserve_shape [OF t] assign_shape [OF t1] by simp
qed

lemma tree_dir_member: "tree_dir names d = Some x \<Longrightarrow> x \<in> set (all_dirs d)"
proof (induction names arbitrary: d)
  case (Cons n names)
  then obtain c where "c \<in> set (dir_childs d)" "tree_dir names c = Some x" by (auto simp: bind_eq_Some_conv dest: find_member)
  then show ?case using Cons.IH by (auto simp: all_dirs_childs [of d])
qed (simp add: all_dirs_self)


lemma layout_result:
  assumes "layout_tree dp fsys depth opt = Inr (t, p, s)" "byteorder_ok dp"
    and "eltorito_boot (eltorito_opt opt) = None" "boot_info_table (eltorito_opt opt) = False" "grub2_boot_info (eltorito_opt opt) = False"
  shows "p = 19"
    and "tree_ok t \<Longrightarrow> length (path_table LittleEndian t) \<le> 4096 \<Longrightarrow> s * 2048 + 8192 \<le> 2 ^ 31 \<Longrightarrow> laid_out t p s"
    and "\<exists>t0. set_path_files fsys depth (input_files opt) new_directory = Inr t0 \<and> tree_shape t = tree_shape t0
      \<and> map (\<lambda>e. (file_type e, fe_size e)) (all_files t) = map (\<lambda>e. (file_type e, fe_size e)) (all_files t0)"
proof -
  obtain er where er: "to_vec (er_ops dp) = Inr er" "length er \<le> 2048" using er_area [OF assms(2)] by blast
  have g: "generate_volume_descriptors opt = [Primary, End]" using assms(3) by (simp add: generate_volume_descriptors_def)
  from assms(1) er(1) obtain t0 t1 k l1 where
      t0: "set_path_files fsys depth (input_files opt) new_directory = Inr t0"
    and t1: "assign_directory_identifiers (set_continuation_area (Some er) t0) (0, 23) = Inr (t1, k, l1)"
    and t: "reserve_file_space (set_lba 23 (set_ids (path_table_index t1) 1 t1)) l1 = Inr (t, s)" and p: "p = 19"
    using assms(3-5) by (auto simp: layout_tree_def g Let_def)
  note r = passes_result [OF set_path_files_plain [OF t0 new_directory_plain] t1 t]
  show "p = 19" by (rule p)
  show "tree_ok t \<Longrightarrow> length (path_table LittleEndian t) \<le> 4096 \<Longrightarrow> s * 2048 + 8192 \<le> 2 ^ 31 \<Longrightarrow> laid_out t p s"
    using r(1-4) er(2) unfolding laid_out_def p by (auto simp: all_dirs_subdirs)
  show "\<exists>t0. set_path_files fsys depth (input_files opt) new_directory = Inr t0 \<and> tree_shape t = tree_shape t0
      \<and> map (\<lambda>e. (file_type e, fe_size e)) (all_files t) = map (\<lambda>e. (file_type e, fe_size e)) (all_files t0)"
    using t0 r(5,6) by blast
qed

lemma shape_mirrors:
  assumes "host_ok fsys" "names_distinct ps" "set_path_files fsys depth ps new_directory = Inr t0" "tree_shape t = tree_shape t0"
    and "map (\<lambda>e. (file_type e, fe_size e)) (all_files t) = map (\<lambda>e. (file_type e, fe_size e)) (all_files t0)"
  shows "mirrors fsys (fs_metadata fsys) ps t" "\<forall>e \<in> set (all_files t). sized fsys e"
proof -
  have "mirrors fsys (fs_metadata fsys) ps t0" by (rule set_path_files_mirrors [OF assms(1,3,2)])
  then show "mirrors fsys (fs_metadata fsys) ps t" unfolding mirrors_def using shape_tree_file [OF assms(4)] by simp
  have "\<forall>e \<in> set (all_files t0). sized fsys e" using set_path_files_sized [OF assms(1,3)] by (simp add: all_sized_def)
  moreover have "\<exists>e' \<in> set (all_files t0). file_type e' = file_type e \<and> fe_size e' = fe_size e" if "e \<in> set (all_files t)" for e
  proof -
    have "(file_type e, fe_size e) \<in> set (map (\<lambda>e. (file_type e, fe_size e)) (all_files t0))" using that by (simp flip: assms(5))
    then show ?thesis by auto
  qed
  ultimately show "\<forall>e \<in> set (all_files t). sized fsys e" unfolding sized_def by metis
qed

lemma tree_file_member: "tree_file names name t = Some e \<Longrightarrow> e \<in> set (all_files t)"
  using tree_dir_member all_files_of_dirs by (fastforce simp: tree_file_def bind_eq_Some_conv dest: find_member)

lemma mirrored_read:
  assumes "mirrors fsys (fs_metadata fsys) ps t" "\<forall>e \<in> set (all_files t). sized fsys e"
  shows "tree_read fsys t names name = host_read fsys ps names name"
proof (cases "tree_file names name t")
  case None
  then have "host_file fsys names name (fs_metadata fsys) ps = None" using assms(1) by (metis map_option_is_None mirrors_def option.simps(8))
  then show ?thesis using None by (simp add: tree_read_def host_read_def)
next
  case (Some e)
  then have "map_option Regular (host_file fsys names name (fs_metadata fsys) ps) = Some (file_type e)" using assms(1) by (metis mirrors_def option.simps(9))
  then obtain p where p: "host_file fsys names name (fs_metadata fsys) ps = Some p" "file_type e = Regular p" by auto
  have "e \<in> set (all_files t)" by (rule tree_file_member [OF Some])
  then obtain c where "fs_open fsys p = Some c" using assms(2) p(2) by (auto simp: sized_def)
  then show ?thesis using Some p by (simp add: tree_read_def host_read_def open_content_provider_def)
qed

section \<open>Properties\<close>

text \<open>
  C6: \<open>create_iso\<close> copies files and directories. Given any input files and directories of the host (names unique in each directory, lengths as the
  metadata says), once they have been read and laid out, the image is written, and an independent reader of ISO 9660 with Rock Ridge finds
  under every path exactly the file the host has there, with its content, and nothing else. The layout is the one the program computes; about the
  tree only sizes are assumed.
\<close>
theorem create_iso_copies_host:
  assumes "byteorder_ok dp" "clock_ok dp" "fs_create fsys (out_path opt)" "embedded_boot opt = None" "grub2_mbr opt = None"
    and "eltorito_boot (eltorito_opt opt) = None" "boot_info_table (eltorito_opt opt) = False" "grub2_boot_info (eltorito_opt opt) = False"
    and "host_ok fsys" "names_distinct (input_files opt)"
    and "layout_tree dp fsys depth opt = Inr (t, p, s)" "tree_ok t" "length (path_table LittleEndian t) \<le> 4096" "s * 2048 + 8192 \<le> 2 ^ 31"
  shows "\<exists>f. create_iso dp fsys depth opt = Inr f
    \<and> (\<forall>names name. iso_read (fbytes f) names name = host_read fsys (input_files opt) names name)"
proof -
  note l = layout_result(1,2) [OF assms(11,1,6-8)]
  obtain t0 where t0: "set_path_files fsys depth (input_files opt) new_directory = Inr t0" "tree_shape t = tree_shape t0"
      "map (\<lambda>e. (file_type e, fe_size e)) (all_files t) = map (\<lambda>e. (file_type e, fe_size e)) (all_files t0)"
    using layout_result(3) [OF assms(11,1,6-8)] by blast
  note m = shape_mirrors [OF assms(9,10) t0]
  have p: "17 < p" using l(1) by simp
  have z: "files_sized fsys t" using m(2) by (auto simp: files_sized_def sized_def open_content_provider_def)
  have "eltorito_boot (eltorito_opt opt) \<noteq> None \<longrightarrow> find_file boot_catalog_name t = Inr (Some ([], 0)) \<and> fe_lba (file_at ([], 0) t) < 2 ^ 32"
    using assms(6) by simp
  from write_image_holds [OF assms(1,2) l(2) [OF assms(12-14)] p z assms(4,5) this]
  obtain f where f: "write_image dp fsys opt t p s file_create = Inr f" "image_holds fsys t p (fbytes f)"
    by (elim exE conjE) (rule that)
  then have "iso_read (fbytes f) names name = tree_read fsys t names name" for names name
    using assms(12) by (intro iso_read_tree) (simp_all add: image_holds_def)
  then have "iso_read (fbytes f) names name = host_read fsys (input_files opt) names name" for names name
    using mirrored_read [OF m] by simp
  then show ?thesis using f(1) assms(3,11) by (simp add: create_iso_def)
qed

section \<open>Witnesses\<close>

text \<open>A host with a file \<open>d\<close> and a directory \<open>b\<close> that holds a file \<open>c\<close>.\<close>

definition one_char :: "u8 \<Rightarrow> path_buf" where "one_char x = [Normal (Unicode [x])]"

definition sample_host :: fs where
  "sample_host =
     (let dir = \<lparr>is_dir = True, is_file = False, meta_len = 0\<rparr>;
          reg = (\<lambda>n. \<lparr>is_dir = False, is_file = True, meta_len = n\<rparr>);
          p_c = one_char 0x62 @ one_char 0x63;
          meta = [one_char 0x64 \<mapsto> reg 3, one_char 0x62 \<mapsto> dir, p_c \<mapsto> reg 1]
      in \<lparr>fs_metadata = meta, fs_entry_metadata = meta, fs_read_dir = [one_char 0x62 \<mapsto> [p_c]],
          fs_open = [one_char 0x64 \<mapsto> [1, 2, 3], p_c \<mapsto> [7]], fs_create = (\<lambda>_. True)\<rparr>)"

definition reg_file :: "path_buf \<Rightarrow> nat \<Rightarrow> nat \<Rightarrow> FileEntry" where
  "reg_file p n l = \<lparr>file_type = Regular p, fe_size = n, fe_lba = l, aligned_size = 2048\<rparr>"

definition host_tree :: "nat \<Rightarrow> nat \<Rightarrow> nat \<Rightarrow> nat \<Rightarrow> u8 list option \<Rightarrow> nat \<Rightarrow> nat \<Rightarrow> nat \<Rightarrow> nat \<Rightarrow> DirectoryEntry" where
  "host_tree i r j k ca l m f g = DirectoryEntry i r (one_char 0x64)
     [DirectoryEntry j k (one_char 0x62) [] [reg_file (one_char 0x62 @ one_char 0x63) 1 g] None m] [reg_file (one_char 0x64) 3 f] ca l"

lemma one_char_names:
  "path_name (one_char x) = Inr [x]" "path_name (one_char y @ one_char x) = Inr [x]" "one_char x = one_char y \<longleftrightarrow> x = y"
  "one_char x \<noteq> []" "one_char x @ one_char y \<noteq> one_char z" "one_char z \<noteq> one_char x @ one_char y"
  by (simp_all add: one_char_def path_name_def file_name_def)

lemma sample_host_ok: "host_ok sample_host"
  by (auto simp: host_ok_def sample_host_def Let_def names_distinct_def one_char_names split: if_splits)

lemma sample_host_tree:
  "set_path_files sample_host 1 [one_char 0x64, one_char 0x62] new_directory = Inr (host_tree 0 0 0 0 None 0 0 0 0)"
  by (simp add: set_path_files_def collect_entry_def sample_host_def Let_def one_char_names regular_entry_def align_up_i32_def chk_i32_def
      add_and_merge_childs_directories_def new_directory_def extend_entry_def index_r_def host_tree_def reg_file_def i32_as_usize_def)

lemma host_tree_ok:
  assumes "i < 1000" "j < 1000" "l < 1000" "m < 1000" "f < 1000" "g < 1000"
  shows "tree_ok (host_tree i r j k ca l m f g)"
proof -
  have d: "dir_record_size [c] 0 = 84" "file_record_size [c] = 86" if "c \<noteq> dot" for c
    using that by (simp_all add: dir_record_size_def file_record_size_def dir_ident_def short_name_def pad_len_def)
  show ?thesis
    using assms d [of "0x62"] d [of "0x63"] d [of "0x64"]
    by (simp add: tree_ok_def host_tree_def extent_ok_def name_short_def de_get_file_name_def fe_get_file_name_def reg_file_def file_nm_def
        dir_name_def one_char_names ascii1 dot_def)
qed

lemma host_tree_layout:
  assumes "eltorito_boot (eltorito_opt opt) = None" "boot_info_table (eltorito_opt opt) = False" "grub2_boot_info (eltorito_opt opt) = False"
    and "input_files opt = [one_char 0x64, one_char 0x62]"
  shows "\<exists>er. layout_tree sample_deps sample_host 1 opt = Inr (host_tree 1 1 2 1 (Some er) 23 25 26 27, 19, 28)"
proof -
  obtain er where er: "to_vec (er_ops sample_deps) = Inr er" using er_area [OF sample_deps_ok(1)] by blast
  have ex: "get_extent_size_in_lb (host_tree i r j k ca l m f g) = Inr 1"
      "get_extent_size_in_lb (DirectoryEntry j k (one_char 0x62) [] [reg_file (one_char 0x62 @ one_char 0x63) n g] None m) = Inr 1" for i r j k ca l m f g n
  proof -
    have "get_extent_size_in_lb (host_tree i r j k ca l m f g) = get_extent_size_in_lb (host_tree 0 0 0 0 None 0 0 0 0)"
      by (rule get_extent_size_cong) (simp_all add: host_tree_def reg_file_def fe_get_file_name_def)
    then show "get_extent_size_in_lb (host_tree i r j k ca l m f g) = Inr 1" using extent_ok_blocks host_tree_ok [of 0 0 0 0 0 0 0 0 None] tree_okD(1) by simp
    have "get_extent_size_in_lb (DirectoryEntry j k (one_char 0x62) [] [reg_file (one_char 0x62 @ one_char 0x63) n g] None m)
        = get_extent_size_in_lb (DirectoryEntry 0 0 (one_char 0x62) [] [reg_file (one_char 0x62 @ one_char 0x63) 1 0] None 0)"
      by (rule get_extent_size_cong) (simp_all add: reg_file_def fe_get_file_name_def)
    moreover have "extent_ok (DirectoryEntry 0 0 (one_char 0x62) [] [reg_file (one_char 0x62 @ one_char 0x63) 1 0] None 0)"
      using host_tree_ok [of 0 0 0 0 0 0 0 0 None] by (simp add: tree_ok_def host_tree_def)
    ultimately show "get_extent_size_in_lb (DirectoryEntry j k (one_char 0x62) [] [reg_file (one_char 0x62 @ one_char 0x63) n g] None m) = Inr 1"
      using extent_ok_blocks by simp
  qed
  have as: "assign_directory_identifiers (host_tree 0 0 0 0 (Some er) 0 0 0 0) (0, 23) = Inr (host_tree 1 0 2 1 (Some er) 0 25 0 0, 2, 26)"
  proof -
    have 1: "set_ids (Suc 0) 0 (host_tree 0 0 0 0 (Some er) 0 0 0 0) = host_tree 1 0 0 0 (Some er) 0 0 0 0" by (simp add: host_tree_def set_ids_def)
    have 2: "continuation_area (host_tree i r j k ca l m f g) = ca" for i r j k ca l m f g by (simp add: host_tree_def)
    show ?thesis
      by (simp add: assign_directory_identifiers.simps [of "host_tree 0 0 0 0 (Some er) 0 0 0 0"] 1 2 ex chk_def)
        (simp add: host_tree_def number_child_def chk_def assign_directory_identifiers.simps set_ids_def set_lba_def set_dir_childs_def ex)
  qed
  have rs: "reserve_file_space (host_tree 1 1 2 1 (Some er) 23 25 0 0) 26 = Inr (host_tree 1 1 2 1 (Some er) 23 25 26 27, 28)"
    by (simp add: host_tree_def reserve_file_def chk_def Let_def reg_file_def as_u32_def)
  show ?thesis
    using sample_host_tree er as rs assms
    by (simp add: layout_tree_def generate_volume_descriptors_def)
      (simp add: host_tree_def set_continuation_area_def set_ids_def set_lba_def)
qed

theorem create_iso_copies_host_witness:
  "\<exists>f. create_iso sample_deps sample_host 1 ((sample_opt None)\<lparr>input_files := [one_char 0x64, one_char 0x62]\<rparr>) = Inr f
     \<and> iso_read (fbytes f) [] [0x64] = Some [1, 2, 3] \<and> iso_read (fbytes f) [[0x62]] [0x63] = Some [7] \<and> iso_read (fbytes f) [[0x62]] [0x64] = None"
proof -
  let ?o = "(sample_opt None)\<lparr>input_files := [one_char 0x64, one_char 0x62]\<rparr>"
  have o: "fs_create sample_host (out_path ?o)" "embedded_boot ?o = None" "grub2_mbr ?o = None" "eltorito_boot (eltorito_opt ?o) = None"
      "boot_info_table (eltorito_opt ?o) = False" "grub2_boot_info (eltorito_opt ?o) = False" "input_files ?o = [one_char 0x64, one_char 0x62]"
    by (simp_all add: sample_opt_def sample_host_def Let_def)
  obtain er where lay: "layout_tree sample_deps sample_host 1 ?o = Inr (host_tree 1 1 2 1 (Some er) 23 25 26 27, 19, 28)"
    using host_tree_layout [OF o(4-7)] by blast
  have nd: "names_distinct (input_files ?o)" by (simp add: o(7) names_distinct_def one_char_names)
  have "length (path_table LittleEndian (host_tree 1 1 2 1 (Some er) 23 25 26 27)) \<le> 4096"
    unfolding path_table_length using short_name_length [of "[0x62]"]
    by (simp add: host_tree_def dir_name_def de_get_file_name_def one_char_names pad_len_def)
  from create_iso_copies_host [OF sample_deps_ok o(1-6) sample_host_ok nd lay host_tree_ok this]
  have "\<exists>f. create_iso sample_deps sample_host 1 ?o = Inr f
    \<and> (\<forall>names name. iso_read (fbytes f) names name = host_read sample_host (input_files ?o) names name)" by simp
  moreover have "host_read sample_host (input_files ?o) [] [0x64] = Some [1, 2, 3]" "host_read sample_host (input_files ?o) [[0x62]] [0x63] = Some [7]"
      "host_read sample_host (input_files ?o) [[0x62]] [0x64] = None"
    unfolding o(7) by (simp_all add: host_read_def host_entry_def sample_host_def Let_def one_char_names)
  ultimately show ?thesis by metis
qed

end
