(* ===== verification/Disk_Image.thy ===== *)
theory Disk_Image
  imports Iso_Create Boot_Image
begin

text \<open>
  \<open>disk_image_generator/src/main.rs\<close>: a FAT volume with the loader as \<open>efi/boot/bootx64.efi\<close> in \<open>misc/boot/kernel.img\<close>, and the bootable ISO image
  around it.

  The crate \<open>fatfs\<close> is a parameter (\<open>fat\<close>): formatting, directories and files of a volume \<open>'v\<close>, and the bytes a volume has as a file. The paths of
  the loader on the build machine are an argument.
\<close>

section \<open>The FAT volume\<close>

record ('v, 'd, 'f) fat =
  fat_format_volume :: "nat \<Rightarrow> nat \<Rightarrow> 'v \<Rightarrow> 'v option"
  fat_mount :: "'v \<Rightarrow> bool"
  fat_root_dir :: "'v \<Rightarrow> 'd"
  fat_create_dir :: "'d \<Rightarrow> str \<Rightarrow> 'v \<Rightarrow> ('d \<times> 'v) option"
  fat_create_file :: "'d \<Rightarrow> str \<Rightarrow> 'v \<Rightarrow> ('f \<times> 'v) option"
  fat_write_all :: "'f \<Rightarrow> u8 list \<Rightarrow> 'v \<Rightarrow> 'v option"
  fat_bytes :: "'v \<Rightarrow> u8 list"

definition img_file_path :: path_buf where
  "img_file_path = path_from_str (ascii ''misc/boot/kernel.img'')"

definition iso_file_path :: path_buf where
  "iso_file_path = path_from_str (ascii ''misc/kernel.iso'')"

definition OUT_FILES :: "path_buf list" where
  "OUT_FILES = [path_from_str (ascii ''efi/boot/bootx64.efi'')]"

definition bytes_per_sector :: nat where "bytes_per_sector = 512"

text \<open>The size of the volume: 5000 sectors and those of every input file.\<close>

definition add_sectors :: "fs \<Rightarrow> path_buf \<Rightarrow> nat \<Rightarrow> nat res" where
  "add_sectors fsys file total_sectors =
     bind_r (expect ''Unable to open file for reading!'' (fs_open fsys file)) (\<lambda>_.
     bind_r (unwrap (fs_metadata fsys file)) (\<lambda>meta.
     bind_r (chk 64 (meta_len meta div bytes_per_sector + 1)) (\<lambda>n.
       chk 32 (total_sectors + as_u32 n))))"

definition volume_sectors :: "fs \<Rightarrow> path_buf list \<Rightarrow> nat res" where
  "volume_sectors fsys in_files = fold_r (add_sectors fsys) in_files 5000"

text \<open>The directories down to the last component; components are compared by value.\<close>

definition make_dir :: "('v, 'd, 'f) fat \<Rightarrow> component \<Rightarrow> 'd \<times> 'v \<Rightarrow> ('d \<times> 'v) res" where
  "make_dir fat part s =
     (case part of
        Normal (Unicode n) \<Rightarrow> expect ''Unable to create file!'' (fat_create_dir fat (fst s) n (snd s))
      | Normal _ \<Rightarrow> Inl (Panic UnwrapNone)
      | _ \<Rightarrow> Inr s)"

definition copy_to_volume :: "('v, 'd, 'f) fat \<Rightarrow> fs \<Rightarrow> path_buf \<times> path_buf \<Rightarrow> 'v \<Rightarrow> 'v res" where
  "copy_to_volume fat fsys file v =
     (case file of (from, to) \<Rightarrow>
      bind_r (expect ''Unable to open file for reading!'' (fs_open fsys from)) (\<lambda>file_buffer.
      if to = [] then Inl (Panic UnwrapNone)
      else
        bind_r (fold_r (make_dir fat) (takeWhile (\<lambda>part. part \<noteq> last to) to) (fat_root_dir fat v, v)) (\<lambda>(current, v).
        bind_r (path_name to) (\<lambda>name.
        bind_r (unwrap (fat_create_file fat current name v)) (\<lambda>(fl, v).
          case fat_write_all fat fl file_buffer v of None \<Rightarrow> Inl (IoError ''write'') | Some v \<Rightarrow> Inr v)))))"

section \<open>main\<close>

definition main_opts :: "Opt res" where
  "main_opts =
     bind_r (path_name img_file_path) (\<lambda>boot.
       Inr \<lparr>out_path = iso_file_path,
            eltorito_opt = \<lparr>eltorito_boot = Some boot, no_emu_boot = True, no_boot = False, boot_info_table = False, grub2_boot_info = False\<rparr>,
            embedded_boot = None, grub2_mbr = None, boot_load_size = 4548, protective_msdos_label = False, input_files = [img_file_path]\<rparr>)"

definition with_volume :: "('v, 'd, 'f) fat \<Rightarrow> 'v \<Rightarrow> fs \<Rightarrow> fs" where
  "with_volume fat v fsys =
     (let meta = Some \<lparr>is_dir = False, is_file = True, meta_len = length (fat_bytes fat v)\<rparr> in
      fsys\<lparr>fs_open := (fs_open fsys)(img_file_path := Some (fat_bytes fat v)),
           fs_metadata := (fs_metadata fsys)(img_file_path := meta), fs_entry_metadata := (fs_entry_metadata fsys)(img_file_path := meta)\<rparr>)"

definition disk_image_main ::
    "('v, 'd, 'f) fat \<Rightarrow> deps \<Rightarrow> nat \<Rightarrow> fs \<Rightarrow> path_buf list \<Rightarrow> 'v \<Rightarrow> out_file res" where
  "disk_image_main fat dp depth fsys in_files img_file =
     (if \<not> fs_create fsys img_file_path then Inl (IoError ''create'')
      else
        bind_r (volume_sectors fsys in_files) (\<lambda>total_sectors.
        case fat_format_volume fat total_sectors bytes_per_sector img_file of
          None \<Rightarrow> Inl (IoError ''format'')
        | Some v \<Rightarrow>
            if \<not> fat_mount fat v then Inl (Panic UnwrapNone)
            else
              bind_r (fold_r (copy_to_volume fat fsys) (zip in_files OUT_FILES) v) (\<lambda>v.
              bind_r main_opts (\<lambda>opts. create_iso dp (with_volume fat v fsys) depth opts))))"

section \<open>The image\<close>

lemma split_on_word: "c \<notin> set w \<Longrightarrow> split_on c w = [w]"
  by (induction w) auto

lemma split_on_first: "c \<notin> set w \<Longrightarrow> split_on c (w @ c # xs) = w # split_on c xs"
  by (induction w) auto

lemma img_parts:
  "ascii ''misc/boot/kernel.img'' = ascii ''misc'' @ slash # ascii ''boot'' @ slash # ascii ''kernel.img''"
  "slash \<notin> set (ascii ''misc'')" "slash \<notin> set (ascii ''boot'')" "slash \<notin> set (ascii ''kernel.img'')"
  by (simp_all add: ascii_def slash_def)

lemma main_paths:
  "img_file_path = [Normal (Unicode (ascii ''misc'')), Normal (Unicode (ascii ''boot'')), Normal (Unicode (ascii ''kernel.img''))]"
  "path_name img_file_path = Inr (ascii ''kernel.img'')"
proof -
  have "split_on slash (ascii ''misc/boot/kernel.img'') = [ascii ''misc'', ascii ''boot'', ascii ''kernel.img'']"
    unfolding img_parts(1) using img_parts(2-4) by (simp add: split_on_word split_on_first)
  moreover have "component_of (ascii ''misc'') = [Normal (Unicode (ascii ''misc''))]" "component_of (ascii ''boot'') = [Normal (Unicode (ascii ''boot''))]"
      "component_of (ascii ''kernel.img'') = [Normal (Unicode (ascii ''kernel.img''))]"
    by (simp_all add: component_of_def ascii_def)
  moreover have "hd (ascii ''misc/boot/kernel.img'') \<noteq> slash" "ascii ''misc'' \<noteq> [dot]" by (simp_all add: ascii_def slash_def)
  ultimately show p: "img_file_path = [Normal (Unicode (ascii ''misc'')), Normal (Unicode (ascii ''boot'')), Normal (Unicode (ascii ''kernel.img''))]"
    by (simp add: img_file_path_def path_from_str_def)
  show "path_name img_file_path = Inr (ascii ''kernel.img'')" unfolding p by (simp add: path_name_def file_name_def)
qed

lemma main_names:
  "\<exists>r. convert_name (ascii ''kernel.img'') = Inr r" "\<exists>r. convert_name boot_catalog_name = Inr r"
proof -
  have d: "ascii ''kernel.img'' = ascii ''kernel'' @ dot # ascii ''img''" "boot_catalog_name = ascii ''boot'' @ dot # ascii ''catalog''"
      "dot \<notin> set (ascii ''kernel'')" "dot \<notin> set (ascii ''img'')" "dot \<notin> set (ascii ''boot'')" "dot \<notin> set (ascii ''catalog'')"
    by (simp_all add: ascii_def dot_def boot_catalog_name_def)
  have s: "split_on dot (ascii ''kernel.img'') = [ascii ''kernel'', ascii ''img'']" "split_on dot boot_catalog_name = [ascii ''boot'', ascii ''catalog'']"
    unfolding d(1,2) using d(3-6) by (simp_all add: split_on_word split_on_first)
  show "\<exists>r. convert_name (ascii ''kernel.img'') = Inr r" "\<exists>r. convert_name boot_catalog_name = Inr r"
    unfolding convert_name_def s by (simp_all add: ascii_def str_slice_def is_char_boundary_def)
qed

lemma volume_sectors_bound: "volume_sectors fsys in_files = Inr ts \<Longrightarrow> 5000 \<le> ts"
proof -
  have "n \<le> ts" if "fold_r (add_sectors fsys) fs n = Inr ts" for fs n
    using that by (induction fs arbitrary: n) (fastforce simp: add_sectors_def chk_def split: if_splits)+
  then show "volume_sectors fsys in_files = Inr ts \<Longrightarrow> 5000 \<le> ts" by (simp add: volume_sectors_def)
qed

subsection \<open>The layout of the image\<close>

definition main_catalog :: FileEntry where
  "main_catalog = \<lparr>file_type = Buffer boot_catalog_name (catalog_bytes False 4548 27), fe_size = 64, fe_lba = 26, aligned_size = 2048\<rparr>"

definition main_volume :: "nat \<Rightarrow> FileEntry" where
  "main_volume n = \<lparr>file_type = Regular img_file_path, fe_size = n, fe_lba = 27, aligned_size = i32_as_usize (int (round_up 2048 n))\<rparr>"

definition main_tree :: "u8 list \<Rightarrow> nat \<Rightarrow> DirectoryEntry" where
  "main_tree er n = DirectoryEntry 1 1 img_file_path [] [main_catalog, main_volume n] (Some er) 24"

lemma main_options:
  assumes "main_opts = Inr opts"
  shows "eltorito_boot (eltorito_opt opts) = Some (ascii ''kernel.img'')" "boot_load_size opts = 4548" "no_boot (eltorito_opt opts) = False"
      "boot_info_table (eltorito_opt opts) = False" "grub2_boot_info (eltorito_opt opts) = False" "input_files opts = [img_file_path]"
      "embedded_boot opts = None" "grub2_mbr opts = None" "out_path opts = iso_file_path"
  using assms by (auto simp: main_opts_def main_paths(2))

lemma main_record_sizes:
  "file_record_size (ascii ''kernel.img'') \<le> 107" "file_record_size boot_catalog_name \<le> 109"
  "name_short (Inr (ascii ''kernel.img''))" "name_short (Inr boot_catalog_name)"
proof -
  have "length (ascii ''kernel.img'') = 10" "length boot_catalog_name = 12" by (simp_all add: ascii_def boot_catalog_name_def)
  moreover have "pad_len p (length (short_name w)) \<le> 13" for p w using short_name_length [of w] by (simp add: pad_len_def)
  ultimately show "file_record_size (ascii ''kernel.img'') \<le> 107" "file_record_size boot_catalog_name \<le> 109"
      "name_short (Inr (ascii ''kernel.img''))" "name_short (Inr boot_catalog_name)"
    using main_names by (auto simp: file_record_size_def name_short_def)
qed

lemma main_find:
  assumes "map fe_get_file_name es = [Inr boot_catalog_name, Inr (ascii ''kernel.img'')]"
  shows "find_file (ascii ''kernel.img'') (DirectoryEntry i j p [] es ca l) = Inr (Some ([], 1))"
    "find_file boot_catalog_name (DirectoryEntry i j p [] es ca l) = Inr (Some ([], 0))"
proof -
  obtain c v where es: "es = [c, v]" "fe_get_file_name c = Inr boot_catalog_name" "fe_get_file_name v = Inr (ascii ''kernel.img'')"
    using assms by (auto simp: map_eq_Cons_conv)
  have "boot_catalog_name \<noteq> ascii ''kernel.img''" "slash \<notin> set boot_catalog_name" by (simp_all add: boot_catalog_name_def ascii_def slash_def)
  then show "find_file (ascii ''kernel.img'') (DirectoryEntry i j p [] es ca l) = Inr (Some ([], 1))"
    "find_file boot_catalog_name (DirectoryEntry i j p [] es ca l) = Inr (Some ([], 0))"
    using img_parts(4) es by (simp_all add: find_file_def split_on_word)
qed

lemma main_layout:
  assumes "byteorder_ok dp" "fs_metadata fsys img_file_path = Some \<lparr>is_dir = False, is_file = True, meta_len = n\<rparr>" "n < 2 ^ 31 - 2048"
    and "main_opts = Inr opts" "to_vec (er_ops dp) = Inr er"
  shows "layout_tree dp fsys depth opts = Inr (main_tree er n, 20, 28 + n div 2048)"
proof -
  note o = main_options [OF assms(4)]
  let ?cat = "new_buffered boot_catalog_name" and ?img = "(main_volume n)\<lparr>fe_lba := 0\<rparr>"
  have "as_i32 n = int n" using assms(3) by (intro as_i32_small) simp
  then have re: "regular_entry img_file_path \<lparr>is_dir = False, is_file = True, meta_len = n\<rparr> = Inr ?img"
    using align_up_i32_block [of n] assms(3) by (simp add: regular_entry_def main_volume_def)
  have sp: "set_path_files fsys depth [img_file_path] (create_boot_catalog new_directory)
      = Inr (DirectoryEntry 0 0 img_file_path [] [?cat, ?img] None 0)"
    using re assms(2)
    by (simp add: set_path_files_def collect_entry_def index_r_def extend_entry_def create_boot_catalog_def add_file_def set_files_childs_def new_directory_def)
  have nm: "fe_get_file_name ?cat = Inr boot_catalog_name" "fe_get_file_name ?img = Inr (ascii ''kernel.img'')"
    by (simp_all add: fe_get_file_name_def new_buffered_def main_volume_def main_paths(2))
  have ex: "get_extent_size_in_lb (DirectoryEntry i j img_file_path [] [?cat, ?img] ca l) = Inr 1" for i j ca l
    using nm main_paths(2) main_record_sizes by (intro extent_one_block) (auto simp: de_get_file_name_def intro: name_short_ok)
  have as: "assign_directory_identifiers (DirectoryEntry 0 0 img_file_path [] [?cat, ?img] (Some er) 0) (0, 24)
      = Inr (DirectoryEntry 1 0 img_file_path [] [?cat, ?img] (Some er) 0, 1, 26)"
    by (subst assign_directory_identifiers.simps) (simp add: set_ids_def set_dir_childs_def chk_def ex)
  let ?t = "DirectoryEntry 1 1 img_file_path [] [?cat\<lparr>fe_lba := 26\<rparr>, main_volume n] (Some er) 24"
  have d: "(n + 2048) div 2048 = Suc (n div 2048)" "n div 2048 < 2 ^ 31"
    using div_le_dividend [of n 2048] assms(3) by (simp_all add: div_add_self2)
  have rs: "reserve_file_space (DirectoryEntry 1 1 img_file_path [] [?cat, ?img] (Some er) 24) 26 = Inr (?t, 28 + n div 2048)"
    using assms(3) d by (simp add: reserve_file_def new_buffered_def main_volume_def chk_def LOGIC_SIZE_def Let_def)
  have ff: "find_file (ascii ''kernel.img'') ?t = Inr (Some ([], 1))" "find_file boot_catalog_name ?t = Inr (Some ([], 0))"
    using nm by (intro main_find, simp add: fe_get_file_name_def)+
  let ?bs = "catalog_bytes False 4548 27"
  have b: "to_vec (boot_catalog_ops dp False 4548 27) = Inr ?bs" using assms(1) by (intro boot_catalog_bytes) simp_all
  have "length ?bs = 64" by (simp add: catalog_bytes_def)
  then have "fe_update (?cat\<lparr>fe_lba := 26, file_type := Buffer boot_catalog_name ?bs\<rparr>) = Inr main_catalog"
    by (simp add: fe_update_def align_up_i32_def chk_i32_def Let_def main_catalog_def new_buffered_def)
  then have fc: "fill_boot_catalog dp opts ?t = Inr (main_tree er n)"
    using o ff b
    by (simp add: fill_boot_catalog_def get_file_unwrap_def file_at_def Let_def new_buffered_def set_files_childs_def main_tree_def main_volume_def)
  show ?thesis
    using sp assms(5) as rs fc o
    by (simp add: layout_tree_def generate_volume_descriptors_def set_continuation_area_def set_ids_def set_lba_def)
qed

lemma main_tree_laid_out:
  assumes "n + 65536 \<le> 2 ^ 31" "length er \<le> 2048"
  shows "laid_out (main_tree er n) 20 (28 + n div 2048)"
proof -
  have nm: "fe_get_file_name main_catalog = Inr boot_catalog_name" "fe_get_file_name (main_volume n) = Inr (ascii ''kernel.img'')"
    by (simp_all add: fe_get_file_name_def main_catalog_def main_volume_def main_paths(2))
  have lb: "fe_lba main_catalog = 26" "fe_lba (main_volume n) = 27" "fe_size main_catalog = 64" "fe_size (main_volume n) = n"
    by (simp_all add: main_catalog_def main_volume_def)
  have e: "extent_ok (main_tree er n)"
    using main_record_sizes nm lb by (simp add: extent_ok_def main_tree_def de_get_file_name_def main_paths(2) file_nm_def)
  have d: "(n + 2048) div 2048 = Suc (n div 2048)" by (simp add: div_add_self2)
  have "chain 24 (map dir_region (all_dirs (main_tree er n)) @ map file_region (all_files (main_tree er n))) (28 + n div 2048)"
    using extent_ok_blocks [OF e] assms(1) d lb
    by (simp add: main_tree_def dir_region_def extent_blocks_def file_region_def as_u32_def)
  moreover have "(28 + n div 2048) * 2048 + 8192 \<le> 2 ^ 31"
  proof -
    have "n div 2048 * 2048 \<le> n" by simp
    then show ?thesis using assms(1) by simp
  qed
  ultimately show ?thesis using e assms(2) unfolding laid_out_def path_table_length
    by (simp add: tree_ok_def main_tree_def)
qed

subsection \<open>Booting from the image\<close>

text \<open>
  C8: the program succeeds once the FAT volume is made, and the image boots it. A firmware that follows the El Torito boot record to the catalog
  finds a valid default entry for block 27, where the bytes of the volume are; a reader of the file system finds the same bytes as \<open>kernel.img\<close> in
  the root directory. The number of 512-byte sectors the catalog announces is always 4548, fewer than the volume was formatted with.
\<close>
theorem disk_image_boots:
  assumes "byteorder_ok dp" "clock_ok dp" "fs_create fsys img_file_path" "fs_create fsys iso_file_path"
    and "volume_sectors fsys in_files = Inr total_sectors" "fat_format_volume fat total_sectors bytes_per_sector img = Some v0" "fat_mount fat v0"
    and "fold_r (copy_to_volume fat fsys) (zip in_files OUT_FILES) v0 = Inr v" "length (fat_bytes fat v) + 65536 \<le> 2 ^ 31"
  shows "\<exists>f. disk_image_main fat dp depth fsys in_files img = Inr f \<and> el_torito (fbytes f) = Some (27, 4548)
    \<and> bytes_at (fbytes f) (27 * 2048) (length (fat_bytes fat v)) = fat_bytes fat v
    \<and> iso_read (fbytes f) [] (ascii ''kernel.img'') = Some (fat_bytes fat v) \<and> 4548 < total_sectors"
proof -
  let ?n = "length (fat_bytes fat v)" and ?fs = "with_volume fat v fsys"
  obtain opts where opts: "main_opts = Inr opts" by (simp add: main_opts_def main_paths(2))
  note o = main_options [OF opts]
  obtain er where er: "to_vec (er_ops dp) = Inr er" "length er \<le> 2048" using er_area [OF assms(1)] by blast
  let ?t = "main_tree er ?n"
  have fs: "fs_metadata ?fs img_file_path = Some \<lparr>is_dir = False, is_file = True, meta_len = ?n\<rparr>" "fs_open ?fs img_file_path = Some (fat_bytes fat v)"
      "fs_create ?fs iso_file_path"
    using assms(4) by (simp_all add: with_volume_def Let_def)
  have lay: "layout_tree dp ?fs depth opts = Inr (?t, 20, 28 + ?n div 2048)"
    using assms(9) by (intro main_layout [OF assms(1) fs(1) _ opts er(1)]) simp
  note lo = main_tree_laid_out [OF assms(9) er(2)]
  have nm: "fe_get_file_name main_catalog = Inr boot_catalog_name" "fe_get_file_name (main_volume ?n) = Inr (ascii ''kernel.img'')"
    by (simp_all add: fe_get_file_name_def main_catalog_def main_volume_def main_paths(2))
  have oc: "open_content_provider ?fs main_catalog = Inr (catalog_bytes False 4548 27)" "open_content_provider ?fs (main_volume ?n) = Inr (fat_bytes fat v)"
    using fs(2) by (simp_all add: open_content_provider_def main_catalog_def main_volume_def)
  have fl: "all_files ?t = [main_catalog, main_volume ?n]" by (simp add: main_tree_def)
  have cl: "length (catalog_bytes False 4548 27) = 64" by (simp add: catalog_bytes_def)
  have sz: "files_sized ?fs ?t"
    using oc cl assms(9) by (simp add: files_sized_def fl) (simp add: main_catalog_def main_volume_def)
  have cat: "find_file boot_catalog_name ?t = Inr (Some ([], 0))" "fe_lba (file_at ([], 0) ?t) = 26"
    using nm unfolding main_tree_def by (intro main_find, simp) (simp add: file_at_def main_catalog_def)
  obtain f where f: "write_image dp ?fs opts ?t 20 (28 + ?n div 2048) file_create = Inr f" "image_holds ?fs ?t 20 (fbytes f)"
      "iso_block (fbytes f) 17 = boot_volume 26"
    using write_image_holds [OF assms(1,2) lo _ sz o(7,8), of "([], 0)"] cat o(1) by auto
  have at: "bytes_at (fbytes f) (26 * 2048) 64 = catalog_bytes False 4548 27" "bytes_at (fbytes f) (27 * 2048) ?n = fat_bytes fat v"
    using f(2) oc cl unfolding image_holds_def contents_at_def fl by (auto simp: main_catalog_def main_volume_def)
  have "el_torito (fbytes f) = Some (27, 4548)" using el_torito_found [OF f(3) _ at(1)] by simp
  moreover have "iso_read (fbytes f) [] (ascii ''kernel.img'') = tree_read ?fs ?t [] (ascii ''kernel.img'')"
    using f(2) lo by (intro iso_read_tree) (simp_all add: image_holds_def laid_out_def)
  moreover have "tree_read ?fs ?t [] (ascii ''kernel.img'') = Some (fat_bytes fat v)"
  proof -
    have "boot_catalog_name \<noteq> ascii ''kernel.img''" by (simp add: boot_catalog_name_def ascii_def)
    then show ?thesis using nm oc by (simp add: tree_read_def tree_file_def main_tree_def)
  qed
  moreover have "create_iso dp ?fs depth opts = Inr f" using lay f(1) fs(3) o(9) by (simp add: create_iso_def)
  then have "disk_image_main fat dp depth fsys in_files img = Inr f"
    using assms(3,5-8) unfolding disk_image_main_def opts by simp
  ultimately show ?thesis using at(2) volume_sectors_bound [OF assms(5)] by auto
qed

text \<open>The loader's place on the volume and the directories made for it.\<close>

lemma out_files_eq:
  "OUT_FILES = [[Normal (Unicode (ascii ''efi'')), Normal (Unicode (ascii ''boot'')), Normal (Unicode (ascii ''bootx64.efi''))]]"
proof -
  have p: "ascii ''efi/boot/bootx64.efi'' = ascii ''efi'' @ slash # ascii ''boot'' @ slash # ascii ''bootx64.efi''"
    "slash \<notin> set (ascii ''efi'')" "slash \<notin> set (ascii ''boot'')" "slash \<notin> set (ascii ''bootx64.efi'')"
    by (simp_all add: ascii_def slash_def)
  have "split_on slash (ascii ''efi/boot/bootx64.efi'') = [ascii ''efi'', ascii ''boot'', ascii ''bootx64.efi'']"
    unfolding p(1) using p(2-4) by (simp add: split_on_word split_on_first)
  moreover have "component_of (ascii ''efi'') = [Normal (Unicode (ascii ''efi''))]" "component_of (ascii ''boot'') = [Normal (Unicode (ascii ''boot''))]"
      "component_of (ascii ''bootx64.efi'') = [Normal (Unicode (ascii ''bootx64.efi''))]"
    by (simp_all add: component_of_def ascii_def)
  moreover have "hd (ascii ''efi/boot/bootx64.efi'') \<noteq> slash" "ascii ''efi'' \<noteq> [dot]" by (simp_all add: ascii_def slash_def)
  ultimately show ?thesis by (simp add: OUT_FILES_def path_from_str_def)
qed

lemma loader_directories:
  "map (\<lambda>to. takeWhile (\<lambda>part. part \<noteq> last to) to) OUT_FILES = [[Normal (Unicode (ascii ''efi'')), Normal (Unicode (ascii ''boot''))]]"
proof -
  have "ascii ''efi'' \<noteq> ascii ''bootx64.efi''" "ascii ''boot'' \<noteq> ascii ''bootx64.efi''" by (simp_all add: ascii_def)
  then show ?thesis by (simp add: out_files_eq)
qed

text \<open>For the witness: a volume that is the concatenation of the files written to it.\<close>

definition flat_fat :: "(u8 list, unit, unit) fat" where
  "flat_fat =
     \<lparr>fat_format_volume = (\<lambda>_ _ _. Some []), fat_mount = (\<lambda>_. True), fat_root_dir = (\<lambda>_. ()), fat_create_dir = (\<lambda>d _ v. Some (d, v)),
      fat_create_file = (\<lambda>_ _ v. Some ((), v)), fat_write_all = (\<lambda>_ bs v. Some (v @ bs)), fat_bytes = (\<lambda>v. v)\<rparr>"

theorem disk_image_boots_witness:
  "\<exists>f. disk_image_main flat_fat sample_deps 0 one_content [[Normal (Unicode [0x6b])]] [] = Inr f \<and> el_torito (fbytes f) = Some (27, 4548)
     \<and> iso_read (fbytes f) [] (ascii ''kernel.img'') = Some [1, 2, 3]"
proof -
  let ?in = "[[Normal (Unicode [0x6b])]]"
  have c: "fs_create one_content img_file_path" "fs_create one_content iso_file_path" by (simp_all add: one_content_def)
  have v: "volume_sectors one_content ?in = Inr 5001"
    by (simp add: volume_sectors_def add_sectors_def one_content_def bytes_per_sector_def chk_def as_u32_def)
  have f: "fat_format_volume flat_fat 5001 bytes_per_sector [] = Some []" "fat_mount flat_fat []" by (simp_all add: flat_fat_def)
  have "ascii ''efi'' \<noteq> ascii ''bootx64.efi''" "ascii ''boot'' \<noteq> ascii ''bootx64.efi''" by (simp_all add: ascii_def)
  then have w: "fold_r (copy_to_volume flat_fat one_content) (zip ?in OUT_FILES) [] = Inr [1, 2, 3]"
    by (simp add: out_files_eq copy_to_volume_def one_content_def flat_fat_def make_dir_def path_name_def file_name_def)
  have l: "length (fat_bytes flat_fat [1, 2, 3]) + 65536 \<le> 2 ^ 31" by (simp add: flat_fat_def)
  from disk_image_boots [OF sample_deps_ok c v f w l, of 0] show ?thesis by (auto simp: flat_fat_def)
qed

end
