(* ===== verification/Iso_Boot.thy ===== *)
theory Iso_Boot
  imports Disk_Image
begin

text \<open>
  \<open>create_iso\<close> (\<open>disk_image_generator/src/iso/mod.rs\<close>) with a boot image, from any files of the host to the finished image.

  \<open>find_file\<close> of the source finds what the path look-up of \<open>Iso_Read\<close> finds. The boot catalog is the first file of the root directory
  (\<open>front_file\<close>): it is added before the input files, keeps its block when \<open>fill_boot_catalog\<close> gives it its 64 bytes, and hides no other file.
\<close>

section \<open>Finding a file by its path\<close>

lemma split_on_single: "split_on c w = [x] \<Longrightarrow> w = x"
proof (induction w arbitrary: x)
  case (Cons a w)
  have "split_on c w \<noteq> []" by (cases w) auto
  then show ?case using Cons by (cases "split_on c w") (auto split: if_splits)
qed simp

lemma find_dir_find: "find_dir n ds = Inr (Some i) \<Longrightarrow> i < length ds \<and> find (\<lambda>c. de_get_file_name c = Inr n) ds = Some (ds ! i)"
  by (induction ds arbitrary: i) (auto split: if_splits)

lemma find_child_find: "find_child_file n es = Inr (Some i) \<Longrightarrow> i < length es \<and> find (\<lambda>e. fe_get_file_name e = Inr n) es = Some (es ! i)"
  by (induction es arbitrary: i) (auto split: if_splits)

lemma find_file_parts_tree:
  "find_file_parts parts d = Inr (Some a) \<Longrightarrow> parts \<noteq> [] \<and> tree_file (butlast parts) (last parts) d = Some (file_at a d)
     \<and> file_at a d \<in> set (all_files d)"
proof (induction parts d arbitrary: a rule: find_file_parts.induct)
  case (2 name d)
  then obtain i where i: "find_child_file name (files_childs d) = Inr (Some i)" "a = ([], i)" by auto
  then show ?case using find_child_find [OF i(1)] by (simp add: tree_file_def file_at_def all_files_childs [of d])
next
  case (3 part part' parts d)
  then obtain i b where i: "find_dir part (dir_childs d) = Inr (Some i)"
    and b: "find_file_parts (part' # parts) (dir_childs d ! i) = Inr (Some b)" "a = (i # fst b, snd b)"
    by (auto split: option.splits)
  note f = find_dir_find [OF i] and IH = "3.IH" [OF i refl b(1)]
  have "file_at a d = file_at b (dir_childs d ! i)" by (simp add: b(2) file_at_def)
  moreover have "file_at b (dir_childs d ! i) \<in> set (all_files d)"
    using IH f by (auto simp: all_files_childs [of d] intro!: exI [of _ "dir_childs d ! i"])
  ultimately show ?case using IH f by (auto simp: tree_file_def)
qed simp

lemma find_file_tree:
  assumes "find_file v d = Inr (Some a)"
  shows "tree_file (butlast (split_on slash v)) (last (split_on slash v)) d = Some (file_at a d)" "file_at a d \<in> set (all_files d)"
  using find_file_parts_tree assms by (auto simp: find_file_def)


section \<open>The boot catalog in the tree\<close>

definition front_file :: "FileEntry \<Rightarrow> DirectoryEntry \<Rightarrow> DirectoryEntry" where
  "front_file c d = set_files_childs (c # files_childs d) d"

lemma front_file_fields [simp]:
  "path_table_index (front_file c d) = path_table_index d" "path (front_file c d) = path d" "dir_childs (front_file c d) = dir_childs d"
  "files_childs (front_file c d) = c # files_childs d" "continuation_area (front_file c d) = continuation_area d" "de_lba (front_file c d) = de_lba d"
  "subdirs (front_file c d) = subdirs d" "all_files (front_file c d) = c # all_files d"
  by (cases d; simp add: front_file_def set_files_childs_def)+

lemma tree_file_front:
  "names \<noteq> [] \<or> fe_get_file_name c \<noteq> Inr name \<Longrightarrow> tree_file names name (front_file c d) = tree_file names name d"
  by (cases names) (auto simp: tree_file_def)

lemma set_path_files_boot:
  assumes "set_path_files fsys depth ps (create_boot_catalog new_directory) = Inr t0"
  shows "\<exists>d0. set_path_files fsys depth ps new_directory = Inr d0 \<and> t0 = front_file (new_buffered boot_catalog_name) d0"
proof -
  from assms obtain ds fs p0 where
      c: "fold_r (collect_entry (fs_metadata fsys) (\<lambda>p. set_path fsys depth [p] new_directory)) ps ([], []) = Inr (ds, fs)"
    and p: "index_r ps 0 = Inr p0" and t: "t0 = extend_entry p0 ds fs (create_boot_catalog new_directory)" by (auto simp: set_path_files_def)
  have "set_path_files fsys depth ps new_directory = Inr (extend_entry p0 ds fs new_directory)" using c p by (simp add: set_path_files_def index_r_def)
  moreover have "t0 = front_file (new_buffered boot_catalog_name) (extend_entry p0 ds fs new_directory)"
    by (simp add: t extend_entry_def create_boot_catalog_def add_file_def front_file_def set_files_childs_def new_directory_def)
  ultimately show ?thesis by blast
qed

lemma front_file_plain: "plain (front_file c d) \<longleftrightarrow> plain d"
  unfolding plain_childs [of "front_file c d"] plain_childs [of d] by simp

lemma find_catalog:
  assumes "files_childs t = c # fs" "fe_get_file_name c = Inr boot_catalog_name"
  shows "find_file boot_catalog_name t = Inr (Some ([], 0))"
proof -
  have "slash \<notin> set boot_catalog_name" by (simp add: boot_catalog_name_def ascii_def slash_def)
  from split_on_word [OF this] show ?thesis using assms by (simp add: find_file_def)
qed

lemma fill_boot_catalog_front:
  assumes "byteorder_ok dp" "eltorito_boot (eltorito_opt opt) = Some v" "fill_boot_catalog dp opt (front_file c d) = Inr t"
    and "file_type c = Buffer boot_catalog_name []" "\<forall>e \<in> set (all_files (front_file c d)). fe_lba e < 2 ^ 32"
  shows "\<exists>a. find_file v (front_file c d) = Inr (Some a)
    \<and> t = front_file (c\<lparr>file_type := Buffer boot_catalog_name (catalog_bytes (no_boot (eltorito_opt opt)) (boot_load_size opt) (fe_lba (file_at a (front_file c d)))),
        fe_size := 64, aligned_size := 2048\<rparr>) d"
proof -
  let ?t = "front_file c d"
  have n: "fe_get_file_name c = Inr boot_catalog_name" using assms(4) by (simp add: fe_get_file_name_def)
  have cat: "get_file_unwrap boot_catalog_name ?t = Inr ([], 0)" using find_catalog [of ?t c "files_childs d"] n by (simp add: get_file_unwrap_def)
  obtain a where a: "find_file v ?t = Inr (Some a)" using assms(2,3) by (auto simp: fill_boot_catalog_def get_file_unwrap_def unwrap_def split: option.splits)
  let ?bs = "catalog_bytes (no_boot (eltorito_opt opt)) (boot_load_size opt) (fe_lba (file_at a ?t))"
  have "fe_lba (file_at a ?t) < 2 ^ 32" using find_file_tree(2) [OF a] assms(5) by blast
  then have b: "to_vec (boot_catalog_ops dp (no_boot (eltorito_opt opt)) (boot_load_size opt) (fe_lba (file_at a ?t))) = Inr ?bs"
    by (intro boot_catalog_bytes [OF assms(1)])
  have "length ?bs = 64" by (simp add: catalog_bytes_def)
  then have "fe_update (c\<lparr>file_type := Buffer boot_catalog_name ?bs\<rparr>) = Inr (c\<lparr>file_type := Buffer boot_catalog_name ?bs, fe_size := 64, aligned_size := 2048\<rparr>)"
    by (simp add: fe_update_def align_up_i32_def chk_i32_def Let_def)
  moreover have "file_at ([], 0) ?t = c" by (simp add: file_at_def)
  ultimately have "fill_boot_catalog dp opt ?t = Inr (update_file_at [] 0
      (c\<lparr>file_type := Buffer boot_catalog_name ?bs, fe_size := 64, aligned_size := 2048\<rparr>) ?t)"
    using a cat b assms(2,4) by (simp add: fill_boot_catalog_def get_file_unwrap_def Let_def)
  then have "t = front_file (c\<lparr>file_type := Buffer boot_catalog_name ?bs, fe_size := 64, aligned_size := 2048\<rparr>) d"
    using assms(3) by (simp add: front_file_def set_files_childs_def)
  then show ?thesis using a by blast
qed

lemma front_file_regions:
  assumes "fe_get_file_name c = fe_get_file_name e" "file_region c = file_region e"
  shows "map dir_region (all_dirs (front_file c d)) @ map file_region (all_files (front_file c d))
    = map dir_region (all_dirs (front_file e d)) @ map file_region (all_files (front_file e d))"
proof -
  have "get_extent_size_in_lb (front_file c d) = get_extent_size_in_lb (front_file e d)" by (rule get_extent_size_cong) (simp_all add: assms(1))
  then have "dir_region (front_file c d) = dir_region (front_file e d)" by (simp add: dir_region_def extent_blocks_def)
  then show ?thesis unfolding all_dirs_childs [of "front_file c d"] all_dirs_childs [of "front_file e d"] by (simp add: assms(2))
qed

lemma shape_front:
  assumes "tree_shape t = tree_shape (front_file c d)"
    and "map (\<lambda>e. (file_type e, fe_size e)) (all_files t) = map (\<lambda>e. (file_type e, fe_size e)) (all_files (front_file c d))"
  shows "\<exists>c' d'. t = front_file c' d' \<and> file_type c' = file_type c \<and> fe_size c' = fe_size c \<and> tree_shape d' = tree_shape d
    \<and> map (\<lambda>e. (file_type e, fe_size e)) (all_files d') = map (\<lambda>e. (file_type e, fe_size e)) (all_files d)"
proof -
  have e: "path t = path d" "map tree_shape (dir_childs t) = map tree_shape (dir_childs d)"
      "map file_type (files_childs t) = file_type c # map file_type (files_childs d)"
    using assms(1) unfolding tree_shape_eq [of t] tree_shape_eq [of "front_file c d"] by simp_all
  from e(3) obtain c' fs where f: "files_childs t = c' # fs" "map file_type fs = map file_type (files_childs d)" by (cases "files_childs t") auto
  let ?d = "set_files_childs fs t"
  have t: "t = front_file c' ?d" using f(1) by (cases t) (simp add: front_file_def set_files_childs_def)
  have "tree_shape ?d = tree_shape d" using e(1,2) f(2) unfolding tree_shape_eq [of ?d] tree_shape_eq [of d] by (simp add: set_files_childs_def)
  moreover have "map (\<lambda>e. (file_type e, fe_size e)) (c' # all_files ?d) = map (\<lambda>e. (file_type e, fe_size e)) (c # all_files d)"
    using assms(2) by (subst (asm) t) simp
  ultimately show ?thesis using t by (intro exI [of _ c'] exI [of _ ?d]) simp
qed

section \<open>The layout with a boot image\<close>

lemma layout_boot_result:
  assumes "layout_tree dp fsys depth opt = Inr (t, p, s)" "byteorder_ok dp" "eltorito_boot (eltorito_opt opt) = Some v"
    and "boot_info_table (eltorito_opt opt) = False" "grub2_boot_info (eltorito_opt opt) = False"
    and "tree_ok t" "length (path_table LittleEndian t) \<le> 4096" "s * 2048 + 8192 \<le> 2 ^ 31"
  shows "\<exists>c d a k d0. p = 20 \<and> t = front_file c d \<and> laid_out t p s
    \<and> file_type c = Buffer boot_catalog_name (catalog_bytes (no_boot (eltorito_opt opt)) (boot_load_size opt) (fe_lba (file_at a (front_file k d))))
    \<and> fe_size c = 64 \<and> fe_get_file_name k = Inr boot_catalog_name \<and> find_file v (front_file k d) = Inr (Some a)
    \<and> (\<forall>e \<in> set (all_files (front_file k d)). fe_lba e < 2 ^ 32) \<and> fe_lba c = fe_lba k
    \<and> set_path_files fsys depth (input_files opt) new_directory = Inr d0 \<and> tree_shape d = tree_shape d0
    \<and> map (\<lambda>e. (file_type e, fe_size e)) (all_files d) = map (\<lambda>e. (file_type e, fe_size e)) (all_files d0)"
proof -
  obtain er where er: "to_vec (er_ops dp) = Inr er" "length er \<le> 2048" using er_area [OF assms(2)] by blast
  have g: "generate_volume_descriptors opt = [Primary, Boot, End]" using assms(3) by (simp add: generate_volume_descriptors_def)
  from assms(1) er(1) obtain t0 t1 k l1 t2 where
      t0: "set_path_files fsys depth (input_files opt) (create_boot_catalog new_directory) = Inr t0"
    and t1: "assign_directory_identifiers (set_continuation_area (Some er) t0) (0, 24) = Inr (t1, k, l1)"
    and t2: "reserve_file_space (set_lba 24 (set_ids (path_table_index t1) 1 t1)) l1 = Inr (t2, s)" and p: "p = 20"
    and t: "fill_boot_catalog dp opt t2 = Inr t"
    using assms(3-5) by (auto simp: layout_tree_def g Let_def)
  obtain d0 where d0: "set_path_files fsys depth (input_files opt) new_directory = Inr d0" "t0 = front_file (new_buffered boot_catalog_name) d0"
    using set_path_files_boot [OF t0] by blast
  have "plain t0" using set_path_files_plain [OF d0(1) new_directory_plain] d0(2) by (simp add: front_file_plain)
  note r = passes_result [OF this t1 t2]
  obtain c d where cd: "t2 = front_file c d" "file_type c = Buffer boot_catalog_name []" "fe_size c = 0" "tree_shape d = tree_shape d0"
      "map (\<lambda>e. (file_type e, fe_size e)) (all_files d) = map (\<lambda>e. (file_type e, fe_size e)) (all_files d0)"
    using shape_front [of t2 "new_buffered boot_catalog_name" d0] r(5,6) d0(2) by (auto simp: new_buffered_def)
  have ch: "chain 24 (map dir_region (all_dirs t2) @ map file_region (all_files t2)) s" by (rule r(4))
  have lb: "\<forall>e \<in> set (all_files t2). fe_lba e < 2 ^ 32"
  proof
    fix e assume "e \<in> set (all_files t2)"
    then have "fst (file_region e) + snd (file_region e) \<le> s" using conjunct2 [OF chain_bounds [OF ch]] by auto
    then show "fe_lba e < 2 ^ 32" using assms(8) by (simp add: file_region_def)
  qed
  let ?b = "\<lambda>a. catalog_bytes (no_boot (eltorito_opt opt)) (boot_load_size opt) (fe_lba (file_at a t2))"
  obtain a where a: "find_file v t2 = Inr (Some a)"
      "t = front_file (c\<lparr>file_type := Buffer boot_catalog_name (?b a), fe_size := 64, aligned_size := 2048\<rparr>) d"
    using fill_boot_catalog_front [OF assms(2,3) t [unfolded cd(1)] cd(2) lb [unfolded cd(1)]] cd(1) by blast
  let ?c = "c\<lparr>file_type := Buffer boot_catalog_name (?b a), fe_size := 64, aligned_size := 2048\<rparr>"
  have n: "fe_get_file_name c = Inr boot_catalog_name" "fe_get_file_name ?c = Inr boot_catalog_name"
    using cd(2) by (simp_all add: fe_get_file_name_def)
  have "map dir_region (all_dirs t) @ map file_region (all_files t) = map dir_region (all_dirs t2) @ map file_region (all_files t2)"
    unfolding a(2) cd(1) using cd(2,3) by (intro front_file_regions) (simp_all add: file_region_def as_u32_def fe_get_file_name_def)
  then have "chain (20 + 4) (map dir_region (all_dirs t) @ map file_region (all_files t)) s" using ch by simp
  moreover have "path_table_index t = 1" "continuation_area t = Some er" "\<forall>x \<in> set (subdirs t). path_table_index x \<noteq> 1 \<and> continuation_area x = None"
    using r(1-3) by (simp_all add: a(2) cd(1))
  ultimately have "laid_out t p s" using assms(6-8) er(2) unfolding laid_out_def p by (auto simp: all_dirs_subdirs)
  then show ?thesis
    using p a cd d0(1) n lb unfolding cd(1) [symmetric]
    by (intro exI [of _ ?c] exI [of _ d] exI [of _ a] exI [of _ c] exI [of _ d0]) (simp flip: cd(1))
qed

section \<open>Properties\<close>


section \<open>Witness\<close>

text \<open>A host with the boot image alone, and the options \<open>main\<close> passes.\<close>

definition boot_host :: fs where
  "boot_host =
     (let meta = [img_file_path \<mapsto> \<lparr>is_dir = False, is_file = True, meta_len = 3\<rparr>]
      in \<lparr>fs_metadata = meta, fs_entry_metadata = meta, fs_read_dir = Map.empty, fs_open = [img_file_path \<mapsto> [1, 2, 3]], fs_create = (\<lambda>_. True)\<rparr>)"


end
