(* ===== verification/Spec2Isabelle.thy ===== *)
theory Spec2Isabelle
  imports Frame_Handover Syscall Exceptions Pci_Bus Repr Firmware Iso_Boot
begin

text \<open>
  A verification of the kernel RustKernel: the programs that build the disk image, the UEFI loader, the library both
  share with the kernel, and the kernel. Paths below are under \<open>src/\<close>.

  \<^bold>\<open>The program.\<close> \<open>boot_image_generator\<close> packs the kernel and the drivers into one file. \<open>kernel_loader\<close> links that file, is started by the
  firmware, leaves the boot services, sets up page tables and a heap, loads the kernel from the packed file and jumps to it.
  \<open>disk_image_generator\<close> puts the loader into a FAT volume and the volume into a bootable ISO 9660 image. \<open>kernel\<close> takes heap, frame allocator
  and memory map over, programs the interrupt controllers, looks for PCI devices, maps the packed file and builds a process from
  the driver in it. \<open>kernel_api/common\<close> holds what loader and kernel share, \<open>kernel_api/macros\<close> the procedural macros.

  \<^bold>\<open>How it is modelled.\<close> A function of the code is a HOL function; state is passed explicitly. \<open>Prelude\<close> has the result type \<open>res\<close>: a value, or an
  error, that is a panic with its reason, undefined behaviour, or an I/O error; every panic, overflow check and early return of the code
  is a branch. Sizes and addresses are natural numbers with the checked or wrapping operation written out (\<open>chk\<close>, \<open>wrapping_add\<close>); registers and
  bit fields are words. Loops over lists are folds (\<open>fold_r\<close>), iterators are stepped with a bound that is proved sufficient (\<open>drain\<close>,
  \<open>for_iter\<close>: a bound of one more than the number of elements announced), and polling a device is a partial function whose value \<open>None\<close> is a loop that never
  ends. Crates and devices that are not in the repository are parameters, with what is assumed of them in a predicate and an instance for
  which it holds: the page tables of \<open>x86_64\<close> (\<open>mapper_ok\<close>, \<open>paging_ok\<close>), its descriptor table (\<open>gdt_ok\<close>), the hole list of
  \<open>linked_list_allocator\<close> (\<open>holes_ok\<close>), \<open>bit_field\<close>, \<open>byteorder\<close>, \<open>chrono\<close>, \<open>fatfs\<close>, the file system, the firmware, the ACPI tables and the serial port.

  \<^bold>\<open>The theories\<close>, with what they model and what is shown.

  \<^item> \<open>Util\<close> (\<open>common/util.rs\<close>, \<open>memory_regions.rs\<close>, alignment): \<open>memmove\<close> copies for every overlap and every alignment.
  \<^item> \<open>Efi\<close> (\<open>common/efi.rs\<close>: memory map, system table, configuration tables); \<open>Repr\<close> (the layout of the structures shared with the firmware,
    against the offsets of the UEFI specification); \<open>Guid\<close> (\<open>create_guid!\<close>, \<open>wchar!\<close>, printing: round trip, and where \<open>wchar!\<close> is wrong);
    \<open>Firmware\<close> (the calls through the firmware tables).
  \<^item> \<open>Mem\<close> (\<open>common/mem.rs\<close>): frames handed out are distinct and usable, also across a change of the memory map; mapping helpers map what they say.
  \<^item> \<open>Heap\<close> (\<open>common/linked_list_allocator.rs\<close>, \<open>allocator.rs\<close>): the accounting invariant of the heap, kept when the
    kernel takes it over from the loader; placing it.
  \<^item> \<open>Boot_Image\<close> (\<open>boot_image_generator\<close>): what is packed is read back. \<open>Packed\<close>: structures read from bytes. \<open>Elf\<close> (\<open>common/elf.rs\<close>): round trip, typing.
  \<^item> \<open>Process\<close> (\<open>common/process.rs\<close>): the address space built from an ELF file; segments are loaded byte for byte.
  \<^item> \<open>Gdt\<close> (\<open>common/gdt.rs\<close>), \<open>Interrupts\<close> (\<open>kernel/interrupts.rs\<close> and the stubs of \<open>macros\<close>): an interrupt is transparent, the dispatch table
    refines a log of registrations. \<open>Exceptions\<close>: what every exception and a panic does. \<open>Bit_Field\<close>, \<open>Apic\<close>: the interrupt controllers. \<open>Serial\<close>: printing ends and delivers.
  \<^item> \<open>Scheduler\<close> (\<open>kernel/process_manager.rs\<close>, entering user mode): every interleaving of starting processes and timer interrupts. \<open>Syscall\<close> (\<open>kernel/syscall.rs\<close>): arguments and segments of a system call.
  \<^item> \<open>Devices\<close>, \<open>Pci\<close>, \<open>Pci_Bus\<close> (\<open>kernel/drivers\<close>): enumeration against a reference definition, base address registers.
  \<^item> \<open>Writer\<close>, \<open>Iso_Utils\<close>, \<open>Iso_Entry\<close>, \<open>Iso_Tree\<close>, \<open>Iso_Layout\<close>, \<open>Iso_Image\<close> (\<open>disk_image_generator/iso\<close>): records, tree, layout, descriptors and the image:
    records read back, blocks are disjoint, directories are numbered as in the path table. \<open>Iso_Read\<close> is a reader of ISO 9660 with Rock Ridge names and El Torito
    boot records that shares nothing with the writer. \<open>Iso_Roundtrip\<close>: the image written for a tree reads back as the tree. \<open>Iso_Create\<close>: \<open>create_iso\<close> copies
    the files of the host, path by path. \<open>Iso_Boot\<close>: so it does with a boot image, and the boot record leads to the bytes of that image.
    \<open>Disk_Image\<close> (\<open>disk_image_generator/main.rs\<close>): the whole program, from the FAT volume to the image that boots it.
  \<^item> \<open>Loader\<close>, \<open>Handover\<close> (\<open>kernel_loader/main.rs\<close>): what the kernel is entered with. \<open>Kernel_Main\<close>, \<open>Kernel_Start\<close> (\<open>kernel/main.rs\<close>): the packed file is
    visible at its address, the driver packed is the process built, and the state the kernel idles in. \<open>Frame_Handover\<close>: the kernel hands out no
    frame that the loader did.

  \<^bold>\<open>Across components.\<close> The properties of \<open>Handover\<close>, \<open>Frame_Handover\<close>, \<open>Kernel_Start\<close>, \<open>Syscall\<close> and \<open>Disk_Image\<close> compose the others: from the generator through loader and
  kernel to the process; from \<open>jump_usermode\<close> to the segments of the loader's descriptor table; from the files of the host and the
  FAT volume through tree, layout and writer to what a reader or a booting firmware finds in the image.

  \<^bold>\<open>Bounds.\<close> The round trips of the ISO image assume that names have at most 150 bytes (the record length is one byte), that the records of a directory fit
  one block and each path table two, and that the image is below 2 GiB, where the code computes with \<open>i32\<close>; host files are below 4 GiB. Recursion into host directories
  has a depth argument; a layout that is computed at all was computed with enough.

  \<^bold>\<open>Defects\<close> that are proved rather than avoided: the scheduler runs past the process list, the snapshot of the registers has four fields mixed up, the
  pages behind the file data of a segment are not zero, the bus enumeration reports devices that are not there, no process is ever scheduled,
  \<open>wchar!\<close> is wrong beyond ASCII; smaller ones are lemmas of their theories.

  \<^bold>\<open>Not modelled.\<close> The text that formatting produces for a value and the lines that loader and kernel print on their way; the 16 and 32 bit port instructions, \<open>CpuState\<close>, \<open>addr\<close> and \<open>addr_sized\<close>, which nothing uses; the trait \<open>Allocator\<close> of the
  heap, which no feature enables; reading CR3; \<open>acpi\<close> and \<open>acpi::aml\<close>, which are not in the repository; the drivers, whose functions are empty; waiting
  for a spin lock, since the model is sequential.
\<close>

end
